(* ===== verification/Prelude.thy ===== *)
theory Prelude
  imports Main "HOL-Library.Word"
begin

text \<open>
  Shared vocabulary of the development: machine-integer type names, the
  collections of rewrite rules that the component proofs use, and generic
  lemmas on lists, options and sums that more than one component needs.

  \<^item> \<open>str_rules\<close>: facts on the string primitives of the Rust standard library;
  \<^item> \<open>hm_rules\<close>: facts on header maps, available under the laws of \<open>Http_Lib\<close>;
  \<^item> \<open>model_defs\<close>: the non-recursive definitions of the model, unfolded when a
    component is reasoned about operation by operation.
\<close>

named_theorems str_rules
named_theorems hm_rules
named_theorems model_defs

type_synonym u8 = "8 word"
type_synonym u16 = "16 word"
type_synonym u32 = "32 word"
type_synonym u64 = "64 word"

text \<open>
  Rust's \<open>Result<T, E>\<close> is the sum \<open>'e + 'a\<close>: \<open>Inl\<close> is \<open>Err\<close>, \<open>Inr\<close> is \<open>Ok\<close>.
\<close>

definition ok_or :: "'e \<Rightarrow> 'a option \<Rightarrow> 'e + 'a" where
  "ok_or e x = (case x of None \<Rightarrow> Inl e | Some a \<Rightarrow> Inr a)"

definition map_err :: "('e \<Rightarrow> 'f) \<Rightarrow> 'e + 'a \<Rightarrow> 'f + 'a" where
  "map_err f r = (case r of Inl e \<Rightarrow> Inl (f e) | Inr a \<Rightarrow> Inr a)"

definition res_bind :: "'e + 'a \<Rightarrow> ('a \<Rightarrow> 'e + 'b) \<Rightarrow> 'e + 'b" where
  "res_bind r f = (case r of Inl e \<Rightarrow> Inl e | Inr a \<Rightarrow> f a)"

definition unwrap_or :: "'a \<Rightarrow> 'a option \<Rightarrow> 'a" where
  "unwrap_or d x = (case x of None \<Rightarrow> d | Some a \<Rightarrow> a)"

definition is_ok :: "'e + 'a \<Rightarrow> bool" where
  "is_ok r = (case r of Inl _ \<Rightarrow> False | Inr _ \<Rightarrow> True)"

fun first_arg :: "'a list \<Rightarrow> 'a option" where
  "first_arg [] = None"
| "first_arg (x # xs) = Some x"

text \<open>\<open>iter().map(f).collect::<Result<Vec<_>, _>>()\<close>: the first error wins.\<close>

fun collect_res :: "('a \<Rightarrow> 'e + 'b) \<Rightarrow> 'a list \<Rightarrow> 'e + 'b list" where
  "collect_res f [] = Inr []"
| "collect_res f (x # xs) =
     (case f x of Inl e \<Rightarrow> Inl e
      | Inr y \<Rightarrow> (case collect_res f xs of Inl e \<Rightarrow> Inl e | Inr ys \<Rightarrow> Inr (y # ys)))"

lemma unwrap_or_simps [simp]: "unwrap_or d None = d" "unwrap_or d (Some a) = a"
  by (simp_all add: unwrap_or_def)

lemma res_bind_simps [simp]:
  "res_bind (Inl e) f = Inl e" "res_bind (Inr a) f = f a"
  by (simp_all add: res_bind_def)

lemma res_bind_InrD:
  assumes "res_bind r f = Inr b"
  obtains a where "r = Inr a" and "f a = Inr b"
  using assms by (cases r) auto

lemma res_bind_Inr_iff: "res_bind r f = Inr b \<longleftrightarrow> (\<exists>a. r = Inr a \<and> f a = Inr b)"
  by (cases r) auto

lemma map_err_simps [simp]:
  "map_err f (Inl e) = Inl (f e)" "map_err f (Inr a) = Inr a"
  by (simp_all add: map_err_def)

lemma map_err_Inr_iff [simp]: "map_err f r = Inr a \<longleftrightarrow> r = Inr a"
  by (cases r) auto

lemma ok_or_simps [simp]: "ok_or e None = Inl e" "ok_or e (Some a) = Inr a"
  by (simp_all add: ok_or_def)

lemma ok_or_Inr_iff [simp]: "ok_or e x = Inr a \<longleftrightarrow> x = Some a"
  by (cases x) auto

lemma is_ok_simps [simp]: "is_ok (Inl e) = False" "is_ok (Inr a) = True"
  by (simp_all add: is_ok_def)

lemma is_ok_iff: "is_ok r \<longleftrightarrow> (\<exists>a. r = Inr a)"
  by (cases r) auto

lemma first_arg_Some_iff: "first_arg xs = Some x \<longleftrightarrow> (\<exists>ys. xs = x # ys)"
  by (cases xs) auto

lemma first_arg_None_iff [simp]: "first_arg xs = None \<longleftrightarrow> xs = []"
  by (cases xs) auto

lemma collect_res_InrD:
  "collect_res f xs = Inr ys \<Longrightarrow> y \<in> set ys \<Longrightarrow> \<exists>x \<in> set xs. f x = Inr y"
  by (induction xs arbitrary: ys) (auto split: sum.splits)

lemma collect_res_length: "collect_res f xs = Inr ys \<Longrightarrow> length ys = length xs"
  by (induction xs arbitrary: ys) (auto split: sum.splits)

lemma sorted_wrt_symmetric:
  assumes sym: "\<And>x y. R x y = R y x" and "distinct ss"
  shows "sorted_wrt R ss \<longleftrightarrow> (\<forall>s \<in> set ss. \<forall>t \<in> set ss. s \<noteq> t \<longrightarrow> R s t)"
  using assms(2)
proof (induction ss)
  case (Cons a ss)
  have "a \<notin> set ss" and ih: "sorted_wrt R ss \<longleftrightarrow> (\<forall>s \<in> set ss. \<forall>t \<in> set ss. s \<noteq> t \<longrightarrow> R s t)"
    using Cons by simp_all
  then have "(\<forall>t \<in> set ss. R a t) \<longleftrightarrow> (\<forall>t \<in> set ss. a \<noteq> t \<longrightarrow> R a t)"
    "(\<forall>t \<in> set ss. R a t) \<longleftrightarrow> (\<forall>s \<in> set ss. s \<noteq> a \<longrightarrow> R s a)"
    using sym by metis+
  then show ?case unfolding sorted_wrt.simps ih list.set by blast
qed simp

lemma last_in_set_butlast: "xs \<noteq> [] \<Longrightarrow> set xs = insert (last xs) (set (butlast xs))"
  by (induction xs) auto

text \<open>Reading off the outcome of a run that was evaluated.\<close>

lemma run_answer:
  assumes "(case x of Some (Inr a, s) \<Rightarrow> P a s | _ \<Rightarrow> False)"
  obtains a s where "x = Some (Inr a, s)" "P a s"
proof (cases x)
  case (Some y)
  then show ?thesis using assms that by (cases y; cases "fst y") auto
qed (use assms in simp)

text \<open>
  Outcomes of fallible code: \<open>res_all E P r\<close> says that an error satisfies \<open>E\<close> and a value \<open>P\<close>.
  The rules follow the structure of the code, as Hoare rules do.
\<close>

named_theorems outcome_rules

definition res_all :: "('e \<Rightarrow> bool) \<Rightarrow> ('a \<Rightarrow> bool) \<Rightarrow> 'e + 'a \<Rightarrow> bool" where
  "res_all E P r = (case r of Inl e \<Rightarrow> E e | Inr a \<Rightarrow> P a)"

lemma res_all_simps [simp]: "res_all E P (Inl e) = E e" "res_all E P (Inr a) = P a"
  by (simp_all add: res_all_def)

lemma res_all_True [simp]: "res_all (\<lambda>e. True) (\<lambda>a. True) r"
  by (cases r) auto

lemma res_all_bind [outcome_rules]: "res_all E P (res_bind r f) = res_all E (\<lambda>a. res_all E P (f a)) r"
  by (cases r) auto

lemma res_all_map_err [outcome_rules]: "res_all E P (map_err f r) = res_all (\<lambda>e. E (f e)) P r"
  by (cases r) auto

lemma res_all_ok_or [outcome_rules]: "res_all E P (ok_or e x) = (case x of None \<Rightarrow> E e | Some a \<Rightarrow> P a)"
  by (cases x) auto

lemma res_all_if [outcome_rules]:
  "res_all E P (if b then x else y) = ((b \<longrightarrow> res_all E P x) \<and> (\<not> b \<longrightarrow> res_all E P y))"
  by simp

lemma res_all_option [outcome_rules]:
  "res_all E P (case x of None \<Rightarrow> r | Some a \<Rightarrow> f a)
     = ((x = None \<longrightarrow> res_all E P r) \<and> (\<forall>a. x = Some a \<longrightarrow> res_all E P (f a)))"
  by (cases x) auto

lemma res_all_list [outcome_rules]:
  "res_all E P (case xs of [] \<Rightarrow> r | y # ys \<Rightarrow> f y ys)
     = ((xs = [] \<longrightarrow> res_all E P r) \<and> (\<forall>y ys. xs = y # ys \<longrightarrow> res_all E P (f y ys)))"
  by (cases xs) auto

lemma res_allI: "(\<And>e. r = Inl e \<Longrightarrow> E e) \<Longrightarrow> (\<And>a. r = Inr a \<Longrightarrow> P a) \<Longrightarrow> res_all E P r"
  by (cases r) auto

lemma res_all_mono: "res_all E P r \<Longrightarrow> (\<And>a. P a \<Longrightarrow> Q a) \<Longrightarrow> res_all E Q r"
  by (cases r) auto

lemma res_all_bindI:
  "res_all E P r \<Longrightarrow> (\<And>a. P a \<Longrightarrow> res_all E Q (f a)) \<Longrightarrow> res_all E Q (res_bind r f)"
  by (cases r) auto

lemma res_all_collect:
  "(\<And>x. x \<in> set xs \<Longrightarrow> res_all E P (f x)) \<Longrightarrow> res_all E (list_all P) (collect_res f xs)"
proof (induction xs)
  case (Cons x xs)
  have "res_all E P (f x)" "res_all E (list_all P) (collect_res f xs)" using Cons by auto
  then show ?case by (cases "f x"; cases "collect_res f xs") auto
qed simp

end
