(* ===== verification/Rust_Str.thy ===== *)
theory Rust_Str
  imports Prelude
begin

text \<open>
  The string primitives of the Rust standard library that the proxy calls, over
  byte strings: a Rust \<open>&str\<close> is the list of its UTF-8 bytes. Offsets and lengths are
  byte offsets and byte lengths, as in Rust. Whitespace is Unicode \<open>White_Space\<close>,
  recognised on its UTF-8 encoding, because \<open>str::trim\<close> and
  \<open>str::split_whitespace\<close> use it.
\<close>

section \<open>Prefixes, suffixes, search\<close>

fun strip_prefix :: "string \<Rightarrow> string \<Rightarrow> string option" where
  "strip_prefix s [] = Some s"
| "strip_prefix [] (p # ps) = None"
| "strip_prefix (c # s) (p # ps) = (if c = p then strip_prefix s ps else None)"

definition starts_with :: "string \<Rightarrow> string \<Rightarrow> bool" where
  "starts_with s p = (strip_prefix s p \<noteq> None)"

definition strip_suffix :: "string \<Rightarrow> string \<Rightarrow> string option" where
  "strip_suffix s p = map_option rev (strip_prefix (rev s) (rev p))"

definition ends_with :: "string \<Rightarrow> string \<Rightarrow> bool" where
  "ends_with s p = (strip_suffix s p \<noteq> None)"

fun str_find :: "string \<Rightarrow> string \<Rightarrow> nat option" where
  "str_find [] p = (if p = [] then Some 0 else None)"
| "str_find (c # s) p =
     (if starts_with (c # s) p then Some 0 else map_option Suc (str_find s p))"

definition str_contains :: "string \<Rightarrow> string \<Rightarrow> bool" where
  "str_contains s p = (str_find s p \<noteq> None)"

definition replace_range :: "string \<Rightarrow> nat \<Rightarrow> nat \<Rightarrow> string \<Rightarrow> string" where
  \<comment> \<open>\<open>s.replace_range(a..=b, v)\<close>\<close>
  "replace_range s a b v = take a s @ v @ drop (Suc b) s"

lemma strip_prefix_iff [str_rules]: "strip_prefix s p = Some r \<longleftrightarrow> s = p @ r"
  by (induction s p rule: strip_prefix.induct) auto

lemma strip_prefix_append [simp]: "strip_prefix (p @ r) p = Some r"
  by (simp add: strip_prefix_iff)

lemma starts_with_iff [str_rules]: "starts_with s p \<longleftrightarrow> (\<exists>r. s = p @ r)"
  by (simp add: starts_with_def strip_prefix_iff)

lemma strip_suffix_iff [str_rules]: "strip_suffix s p = Some r \<longleftrightarrow> s = r @ p"
proof -
  have "strip_suffix s p = Some r \<longleftrightarrow> strip_prefix (rev s) (rev p) = Some (rev r)"
    by (auto simp: strip_suffix_def)
  also have "\<dots> \<longleftrightarrow> rev s = rev p @ rev r"
    by (simp add: strip_prefix_iff)
  also have "\<dots> \<longleftrightarrow> rev s = rev (r @ p)"
    by simp
  also have "\<dots> \<longleftrightarrow> s = r @ p"
    by (simp only: rev_is_rev_conv)
  finally show ?thesis .
qed

lemma strip_suffix_None_iff: "strip_suffix s p = None \<longleftrightarrow> (\<forall>r. s \<noteq> r @ p)"
  using strip_suffix_iff [of s p] by (cases "strip_suffix s p") auto

lemma ends_with_iff [str_rules]: "ends_with s p \<longleftrightarrow> (\<exists>r. s = r @ p)"
  by (simp add: ends_with_def strip_suffix_iff)

lemma strip_prefix_None_iff: "strip_prefix s p = None \<longleftrightarrow> (\<forall>r. s \<noteq> p @ r)"
  using strip_prefix_iff [of s p] by (cases "strip_prefix s p") auto

lemma str_find_SomeD:
  "str_find s p = Some i \<Longrightarrow> \<exists>r. s = take i s @ p @ r \<and> i + length p \<le> length s"
proof (induction s arbitrary: i)
  case Nil
  then show ?case by (auto split: if_splits)
next
  case (Cons c s)
  show ?case
  proof (cases "starts_with (c # s) p")
    case True
    then obtain r where r: "c # s = p @ r" by (auto simp: starts_with_iff)
    have "length (c # s) = length p + length r" unfolding r by simp
    moreover from True Cons.prems have "i = 0" by simp
    ultimately show ?thesis using r by simp
  next
    case False
    with Cons.prems obtain j where j: "str_find s p = Some j" "i = Suc j" by auto
    from Cons.IH [OF j(1)] obtain r where "s = take j s @ p @ r" "j + length p \<le> length s"
      by blast
    then show ?thesis using j(2) by (metis Cons_eq_appendI add_Suc length_Cons not_less_eq_eq take_Suc_Cons)
  qed
qed

lemma str_find_None_iff: "str_find s p = None \<longleftrightarrow> (\<forall>a b. s \<noteq> a @ p @ b)"
proof (induction s)
  case Nil
  then show ?case by auto
next
  case (Cons c s)
  show ?case
  proof
    assume h: "str_find (c # s) p = None"
    then have 1: "\<not> starts_with (c # s) p" and 2: "str_find s p = None"
      by (auto split: if_splits)
    show "\<forall>a b. c # s \<noteq> a @ p @ b"
    proof (intro allI)
      fix a b
      show "c # s \<noteq> a @ p @ b"
        using 1 2 Cons.IH by (cases a) (auto simp: starts_with_iff)
    qed
  next
    assume h: "\<forall>a b. c # s \<noteq> a @ p @ b"
    then have "\<not> starts_with (c # s) p"
      by (metis append_Nil starts_with_iff)
    moreover have "\<forall>a b. s \<noteq> a @ p @ b"
      using h by (metis append_Cons)
    ultimately show "str_find (c # s) p = None" using Cons.IH by simp
  qed
qed

lemma str_find_char: "str_find s [c] = (if c \<in> set s then Some (length (takeWhile (\<lambda>x. x \<noteq> c) s)) else None)"
  by (induction s) (auto simp: starts_with_def)

lemma str_contains_char [simp]: "str_contains s [c] \<longleftrightarrow> c \<in> set s"
  by (simp add: str_contains_def str_find_char)

section \<open>Replacement\<close>

definition is_continuation_byte :: "char \<Rightarrow> bool" where
  "is_continuation_byte c = (128 \<le> (of_char c :: nat) \<and> (of_char c :: nat) < 192)"

function replace_from :: "string \<Rightarrow> string \<Rightarrow> string \<Rightarrow> string" where
  "replace_from p to s =
     (if p = [] then s
      else case strip_prefix s p of
        Some r \<Rightarrow> to @ replace_from p to r
      | None \<Rightarrow> (case s of [] \<Rightarrow> [] | c # s' \<Rightarrow> c # replace_from p to s'))"
  by pat_completeness auto
termination
  by (relation "measure (\<lambda>(p, to, s). length s)") (auto simp: strip_prefix_iff)

declare replace_from.simps [simp del]

text \<open>
  \<open>str::replace\<close>: leftmost, non-overlapping. An empty pattern matches at every
  character boundary, the end included.
\<close>

definition str_replace :: "string \<Rightarrow> string \<Rightarrow> string \<Rightarrow> string" where
  "str_replace s from to =
     (if from = [] then concat (map (\<lambda>c. if is_continuation_byte c then [c] else to @ [c]) s) @ to
      else replace_from from to s)"

lemma replace_from_absent: "str_find s p = None \<Longrightarrow> replace_from p to s = s"
proof (induction s)
  case Nil
  then show ?case by (cases p) (auto simp: replace_from.simps [of _ _ "[]"])
next
  case (Cons c s)
  from Cons.prems have "\<not> starts_with (c # s) p" "str_find s p = None"
    by (auto split: if_splits)
  with Cons.IH show ?case
    by (cases "strip_prefix (c # s) p") (auto simp: replace_from.simps [of _ _ "c # s"] starts_with_def)
qed

lemma str_replace_absent: "str_find s p = None \<Longrightarrow> str_replace s p to = s"
  by (cases "p = []", cases s) (auto simp: str_replace_def replace_from_absent starts_with_def)

lemma replace_from_hit: "p \<noteq> [] \<Longrightarrow> replace_from p to (p @ r) = to @ replace_from p to r"
  by (subst replace_from.simps) simp

section \<open>Splitting\<close>

fun split_on :: "char \<Rightarrow> string \<Rightarrow> string list" where
  "split_on c [] = [[]]"
| "split_on c (x # xs) =
     (if x = c then [] # split_on c xs
      else case split_on c xs of [] \<Rightarrow> [[x]] | y # ys \<Rightarrow> (x # y) # ys)"

text \<open>\<open>s.rsplit(c).next()\<close> is the last segment, \<open>s.rsplit(c).next_back()\<close> the first.\<close>

definition rsplit_first :: "char \<Rightarrow> string \<Rightarrow> string" where
  "rsplit_first c s = last (split_on c s)"

definition rsplit_back :: "char \<Rightarrow> string \<Rightarrow> string" where
  "rsplit_back c s = hd (split_on c s)"

definition rsplit_once :: "char \<Rightarrow> string \<Rightarrow> (string \<times> string) option" where
  "rsplit_once c s =
     (if c \<in> set s
      then Some (rev (tl (dropWhile (\<lambda>x. x \<noteq> c) (rev s))), rev (takeWhile (\<lambda>x. x \<noteq> c) (rev s)))
      else None)"

fun str_join :: "string \<Rightarrow> string list \<Rightarrow> string" where
  "str_join sep [] = []"
| "str_join sep [x] = x"
| "str_join sep (x # y # ys) = x @ sep @ str_join sep (y # ys)"

lemma split_on_not_Nil [simp]: "split_on c s \<noteq> []"
  by (induction s) (auto split: list.splits)

lemma split_on_absent: "c \<notin> set s \<Longrightarrow> split_on c s = [s]"
  by (induction s) auto

lemma split_on_append: "c \<notin> set a \<Longrightarrow> split_on c (a @ c # b) = a # split_on c b"
  by (induction a) auto

lemma before_char_unique:
  assumes "a @ c # x = b @ c # y" "c \<notin> set a" "c \<notin> set b"
  shows "a = b"
proof -
  have "takeWhile (\<lambda>z. z \<noteq> c) (a @ c # x) = a" "takeWhile (\<lambda>z. z \<noteq> c) (b @ c # y) = b"
    using assms(2,3) by (simp_all add: takeWhile_append)
  then show ?thesis using assms(1) by simp
qed

lemma rsplit_back_takeWhile: "rsplit_back c s = takeWhile (\<lambda>x. x \<noteq> c) s"
  unfolding rsplit_back_def by (induction s) (auto split: list.splits)

lemma last_split_on: "last (split_on c s) = rev (takeWhile (\<lambda>x. x \<noteq> c) (rev s))"
proof (induction s)
  case Nil
  then show ?case by simp
next
  case (Cons x xs)
  show ?case
  proof (cases "x = c")
    case True
    then show ?thesis using Cons by (simp add: takeWhile_append)
  next
    case False
    obtain y ys where ys: "split_on c xs = y # ys"
      by (cases "split_on c xs") auto
    show ?thesis
    proof (cases "ys = []")
      case True
      then have "y = rev (takeWhile (\<lambda>x. x \<noteq> c) (rev xs))" using Cons ys by simp
      moreover have "c \<notin> set xs"
      proof
        assume "c \<in> set xs"
        then obtain a b where "xs = a @ c # b" "c \<notin> set a" by (meson split_list_first)
        then show False using ys True split_on_append [of c a b] by simp
      qed
      ultimately have xs: "y = xs" and c: "c \<notin> set xs" using split_on_absent [of c xs] ys by auto
      have "takeWhile (\<lambda>x. x \<noteq> c) (rev (x # xs)) = rev (x # xs)"
        using c False by (simp only: takeWhile_eq_all_conv) auto
      then have "rev (takeWhile (\<lambda>x. x \<noteq> c) (rev (x # xs))) = x # xs"
        by (simp only: rev_rev_ident)
      moreover have "last (split_on c (x # xs)) = x # xs" using False ys True xs by simp
      ultimately show ?thesis by (simp only:)
    next
      case ne: False
      have "c \<in> set xs" using ys ne split_on_absent [of c xs] by auto
      then show ?thesis using False ys ne Cons by (auto simp: takeWhile_append)
    qed
  qed
qed

lemma rsplit_first_takeWhile: "rsplit_first c s = rev (takeWhile (\<lambda>x. x \<noteq> c) (rev s))"
  by (simp add: rsplit_first_def last_split_on)

lemma rsplit_first_append [simp]: "c \<notin> set b \<Longrightarrow> rsplit_first c (a @ c # b) = b"
  by (simp add: rsplit_first_takeWhile takeWhile_append)

lemma rsplit_once_append [simp]: "c \<notin> set b \<Longrightarrow> rsplit_once c (a @ c # b) = Some (a, b)"
  by (simp add: rsplit_once_def takeWhile_append dropWhile_append)

section \<open>ASCII case\<close>

definition ascii_lower_char :: "char \<Rightarrow> char" where
  "ascii_lower_char c =
     (if 65 \<le> (of_char c :: nat) \<and> (of_char c :: nat) \<le> 90
      then char_of ((of_char c :: nat) + 32) else c)"

definition to_ascii_lowercase :: "string \<Rightarrow> string" where
  "to_ascii_lowercase s = map ascii_lower_char s"

definition eq_ignore_ascii_case :: "string \<Rightarrow> string \<Rightarrow> bool" where
  "eq_ignore_ascii_case a b = (to_ascii_lowercase a = to_ascii_lowercase b)"

lemma ascii_lower_char_idem [simp]: "ascii_lower_char (ascii_lower_char c) = ascii_lower_char c"
proof (cases "65 \<le> (of_char c :: nat) \<and> (of_char c :: nat) \<le> 90")
  case True
  then have "of_char (char_of ((of_char c :: nat) + 32) :: char) = (of_char c :: nat) + 32"
    by (simp add: take_bit_eq_mod)
  with True show ?thesis by (simp add: ascii_lower_char_def)
next
  case False
  then have "ascii_lower_char c = c" by (auto simp: ascii_lower_char_def)
  then show ?thesis by simp
qed

lemma to_ascii_lowercase_idem [simp]:
  "to_ascii_lowercase (to_ascii_lowercase s) = to_ascii_lowercase s"
  by (simp add: to_ascii_lowercase_def)

section \<open>Whitespace, trimming, tokens, lines\<close>

text \<open>
  \<open>ws_len s\<close> is the number of bytes of the white-space character \<open>s\<close> starts with, and 0
  when it starts with another character.
\<close>

definition ascii_ws :: "char \<Rightarrow> bool" where
  "ascii_ws c = (let n = (of_char c :: nat) in (9 \<le> n \<and> n \<le> 13) \<or> n = 32)"

definition ws_tail3 :: "nat \<Rightarrow> nat \<Rightarrow> nat \<Rightarrow> bool" where
  \<comment> \<open>U+1680, U+2000 to U+200A, U+2028, U+2029, U+202F, U+205F, U+3000\<close>
  "ws_tail3 a b c =
     ((a = 225 \<and> b = 154 \<and> c = 128) \<or>
      (a = 226 \<and> b = 128 \<and> ((128 \<le> c \<and> c \<le> 138) \<or> c = 168 \<or> c = 169 \<or> c = 175)) \<or>
      (a = 226 \<and> b = 129 \<and> c = 159) \<or>
      (a = 227 \<and> b = 128 \<and> c = 128))"

definition ws_len :: "string \<Rightarrow> nat" where
  "ws_len s =
     (case s of [] \<Rightarrow> 0
      | a # s1 \<Rightarrow>
          if ascii_ws a then 1
          else if (of_char a :: nat) < 128 then 0
          else (case s1 of [] \<Rightarrow> 0
            | b # s2 \<Rightarrow>
                if (of_char a :: nat) = 194 \<and> ((of_char b :: nat) = 133 \<or> (of_char b :: nat) = 160) then 2
                else (case s2 of [] \<Rightarrow> 0
                  | c # _ \<Rightarrow> if ws_tail3 (of_char a) (of_char b) (of_char c) then 3 else 0)))"

lemma ws_len_le: "ws_len s \<le> length s"
  by (auto simp: ws_len_def split: list.splits)

lemma ws_len_Nil [simp]: "ws_len [] = 0"
  by (simp add: ws_len_def)

lemma ws_len_ascii:
  "(of_char c :: nat) < 128 \<Longrightarrow> ws_len (c # s) = (if ascii_ws c then 1 else 0)"
  by (simp add: ws_len_def)

function trim_start :: "string \<Rightarrow> string" where
  "trim_start s = (if 0 < ws_len s then trim_start (drop (ws_len s) s) else s)"
  by pat_completeness auto
termination
proof (relation "measure length")
  fix s :: string
  assume "0 < ws_len s"
  then show "(drop (ws_len s) s, s) \<in> measure length"
    using ws_len_le [of s] by simp
qed simp

declare trim_start.simps [simp del]

fun trim_end :: "string \<Rightarrow> string" where
  "trim_end [] = []"
| "trim_end (c # s) = (if trim_start (c # s) = [] then [] else c # trim_end s)"

definition str_trim :: "string \<Rightarrow> string" where
  "str_trim s = trim_end (trim_start s)"

text \<open>\<open>split_ws cur s\<close> has \<open>cur\<close>, reversed, as the token being read.\<close>

function split_ws :: "string \<Rightarrow> string \<Rightarrow> string list" where
  "split_ws cur s =
     (if s = [] then (if cur = [] then [] else [rev cur])
      else if 0 < ws_len s
      then (if cur = [] then split_ws [] (drop (ws_len s) s)
            else rev cur # split_ws [] (drop (ws_len s) s))
      else split_ws (hd s # cur) (tl s))"
  by pat_completeness auto
termination
proof (relation "measure (\<lambda>(cur, s). length s)")
  fix cur s :: string
  assume "s \<noteq> []" "0 < ws_len s"
  then show "(([], drop (ws_len s) s), (cur, s)) \<in> measure (\<lambda>(cur, s). length s)"
    and "(([], drop (ws_len s) s), (cur, s)) \<in> measure (\<lambda>(cur, s). length s)"
    using ws_len_le [of s] by simp_all
qed simp_all

declare split_ws.simps [simp del]

definition split_whitespace :: "string \<Rightarrow> string list" where
  "split_whitespace s = split_ws [] s"

definition strip_cr :: "string \<Rightarrow> string" where
  "strip_cr s = unwrap_or s (strip_suffix s [CHR 0x0D])"

definition str_lines :: "string \<Rightarrow> string list" where
  "str_lines s =
     (let segs = split_on (CHR 0x0A) s
      in map strip_cr (butlast segs) @ (if last segs = [] then [] else [last segs]))"

lemma split_ws_nonempty: "t \<in> set (split_ws cur s) \<Longrightarrow> t \<noteq> []"
proof (induction cur s rule: split_ws.induct)
  case (1 cur s)
  show ?case
    using "1.prems" "1.IH" by (subst (asm) split_ws.simps) (auto split: if_splits)
qed

lemma split_whitespace_nonempty: "t \<in> set (split_whitespace s) \<Longrightarrow> t \<noteq> []"
  by (auto simp: split_whitespace_def dest: split_ws_nonempty)

lemma split_ws_Nil_iff: "split_ws cur s = [] \<longleftrightarrow> cur = [] \<and> trim_start s = []"
proof (induction cur s rule: split_ws.induct)
  case (1 cur s)
  show ?case
  proof (cases "s = [] \<or> 0 < ws_len s")
    case True
    then show ?thesis
      using "1.IH" by (auto simp: split_ws.simps [of cur s] trim_start.simps [of s])
  next
    case False
    then show ?thesis
      using "1.IH"(3) by (auto simp: split_ws.simps [of cur s] trim_start.simps [of s])
  qed
qed

lemma trim_start_no_ws: "ws_len (trim_start s) = 0"
proof (induction s rule: trim_start.induct)
  case (1 s)
  then show ?case by (cases "0 < ws_len s") (auto simp: trim_start.simps [of s])
qed

lemma trim_end_Nil_iff: "trim_end s = [] \<longleftrightarrow> trim_start s = []"
  by (cases s) (auto simp: trim_start.simps [of "[]"])

lemma trim_start_fixed: "ws_len s = 0 \<Longrightarrow> trim_start s = s"
  by (subst trim_start.simps) simp

lemma trim_start_idem [simp]: "trim_start (trim_start s) = trim_start s"
  by (rule trim_start_fixed) (rule trim_start_no_ws)

lemma str_trim_Nil_iff: "str_trim s = [] \<longleftrightarrow> trim_start s = []"
  by (simp add: str_trim_def trim_end_Nil_iff)

section \<open>Integers as text\<close>

definition is_dec_digit :: "char \<Rightarrow> bool" where
  "is_dec_digit c = (48 \<le> (of_char c :: nat) \<and> (of_char c :: nat) \<le> 57)"

definition digit_val :: "char \<Rightarrow> nat" where
  "digit_val c = (of_char c :: nat) - 48"

definition dec_val :: "string \<Rightarrow> nat" where
  "dec_val ds = foldl (\<lambda>n c. 10 * n + digit_val c) 0 ds"

text \<open>
  \<open>str::parse\<close> at an unsigned type of \<open>w\<close> bits: one optional leading plus sign, then one
  or more decimal digits, and the value must fit.
\<close>

definition parse_uint :: "nat \<Rightarrow> string \<Rightarrow> nat option" where
  "parse_uint w s =
     (let ds = (case s of [] \<Rightarrow> [] | c # r \<Rightarrow> if c = CHR ''+'' then r else s)
      in if ds \<noteq> [] \<and> list_all is_dec_digit ds \<and> dec_val ds < 2 ^ w
         then Some (dec_val ds) else None)"

definition parse_u16 :: "string \<Rightarrow> u16 option" where
  "parse_u16 s = map_option of_nat (parse_uint 16 s)"

definition parse_u64 :: "string \<Rightarrow> u64 option" where
  "parse_u64 s = map_option of_nat (parse_uint 64 s)"

definition digit_char :: "nat \<Rightarrow> char" where
  "digit_char d = char_of (48 + d)"

fun show_nat :: "nat \<Rightarrow> string" where
  "show_nat n = (if n < 10 then [digit_char n] else show_nat (n div 10) @ [digit_char (n mod 10)])"

declare show_nat.simps [simp del]

abbreviation show_word :: "'a::len word \<Rightarrow> string" where
  "show_word w \<equiv> show_nat (unat w)"

lemma digit_char_simps [simp]:
  "digit_char 0 = CHR ''0''" "digit_char (Suc 0) = CHR ''1''" "digit_char 1 = CHR ''1''"
  "digit_char 2 = CHR ''2''" "digit_char 3 = CHR ''3''" "digit_char 4 = CHR ''4''"
  "digit_char 5 = CHR ''5''" "digit_char 6 = CHR ''6''" "digit_char 7 = CHR ''7''"
  "digit_char 8 = CHR ''8''" "digit_char 9 = CHR ''9''"
  by code_simp+

lemma of_char_digit_char: "d < 10 \<Longrightarrow> (of_char (digit_char d) :: nat) = 48 + d"
  by (simp add: digit_char_def take_bit_eq_mod)

lemma dec_val_snoc: "dec_val (ds @ [c]) = 10 * dec_val ds + digit_val c"
  by (simp add: dec_val_def)

lemma show_nat_digits: "list_all is_dec_digit (show_nat n) \<and> show_nat n \<noteq> [] \<and> dec_val (show_nat n) = n"
proof (induction n rule: show_nat.induct)
  case (1 n)
  show ?case
  proof (cases "n < 10")
    case True
    then show ?thesis
      by (simp add: show_nat.simps [of n] is_dec_digit_def of_char_digit_char dec_val_def digit_val_def)
  next
    case False
    with "1.IH" show ?thesis
      by (simp add: show_nat.simps [of n] is_dec_digit_def of_char_digit_char dec_val_snoc digit_val_def)
  qed
qed

lemma show_nat_no_char:
  assumes "\<not> is_dec_digit c"
  shows "c \<notin> set (show_nat n)"
  using show_nat_digits [of n] assms by (auto simp: list_all_iff)

lemma parse_uint_show_nat: "n < 2 ^ w \<Longrightarrow> parse_uint w (show_nat n) = Some n"
proof -
  assume n: "n < 2 ^ w"
  obtain c r where s: "show_nat n = c # r" using show_nat_digits [of n] by (cases "show_nat n") auto
  have "c \<noteq> CHR ''+''" using show_nat_digits [of n] s by (auto simp: is_dec_digit_def)
  then show ?thesis using n show_nat_digits [of n] s by (simp add: parse_uint_def)
qed

lemma parse_u16_show_word: "parse_u16 (show_word (w :: u16)) = Some w"
proof -
  have "unat w < 2 ^ 16" using unsigned_less [of w] by simp
  then show ?thesis by (simp add: parse_u16_def parse_uint_show_nat)
qed

lemma parse_u64_show_word: "parse_u64 (show_word (w :: u64)) = Some w"
proof -
  have "unat w < 2 ^ 64" using unsigned_less [of w] by simp
  then show ?thesis by (simp add: parse_u64_def parse_uint_show_nat)
qed

end
