(* ===== verification/Rust_Net.thy ===== *)
theory Rust_Net
  imports Rust_Str
begin

text \<open>
  The part of \<open>std::net\<close> the proxy relies on: IP and socket addresses, their textual
  form and their parsers. Readers take the remaining text and return the value read and
  the rest, like \<open>core::net::parser::Parser\<close>; a reader that fails consumes nothing.
\<close>

section \<open>Addresses\<close>

datatype ip_addr = V4 nat nat nat nat | V6 "nat list"

text \<open>\<open>scope_id\<close> is 0 for every IPv4 address and for \<open>SocketAddr::new\<close>.\<close>

record socket_addr =
  sa_ip :: ip_addr
  sa_port :: u16
  sa_scope :: nat

definition socket_addr_new :: "ip_addr \<Rightarrow> u16 \<Rightarrow> socket_addr" where
  "socket_addr_new i p = \<lparr>sa_ip = i, sa_port = p, sa_scope = 0\<rparr>"

section \<open>Readers\<close>

definition radix_digit :: "nat \<Rightarrow> char \<Rightarrow> nat option" where
  "radix_digit r c =
     (let n = (of_char c :: nat);
          d = (if 48 \<le> n \<and> n \<le> 57 then n - 48
               else if 97 \<le> n \<and> n \<le> 102 then n - 87
               else if 65 \<le> n \<and> n \<le> 70 then n - 55
               else 99)
      in if d < r then Some d else None)"

definition radix_val :: "nat \<Rightarrow> string \<Rightarrow> nat" where
  "radix_val r ds = foldl (\<lambda>n c. r * n + unwrap_or 0 (radix_digit r c)) 0 ds"

definition read_number :: "nat \<Rightarrow> nat option \<Rightarrow> bool \<Rightarrow> nat \<Rightarrow> string \<Rightarrow> (nat \<times> string) option" where
  "read_number r max_digits allow_zero bits s =
     (let ds = takeWhile (\<lambda>c. radix_digit r c \<noteq> None) s; n = length ds; v = radix_val r ds
      in if n = 0 \<or> (case max_digits of None \<Rightarrow> False | Some m \<Rightarrow> m < n)
            \<or> (\<not> allow_zero \<and> hd s = CHR ''0'' \<and> 1 < n) \<or> 2 ^ bits \<le> v
         then None else Some (v, drop n s))"

definition read_given_char :: "char \<Rightarrow> string \<Rightarrow> string option" where
  "read_given_char c s = strip_prefix s [c]"

definition read_octet :: "bool \<Rightarrow> string \<Rightarrow> (nat \<times> string) option" where
  "read_octet first s =
     Option.bind (if first then Some s else read_given_char (CHR ''.'') s)
       (read_number 10 (Some 3) False 8)"

definition read_ipv4_addr :: "string \<Rightarrow> ((nat \<times> nat \<times> nat \<times> nat) \<times> string) option" where
  "read_ipv4_addr s =
     Option.bind (read_octet True s) (\<lambda>(a, s1).
     Option.bind (read_octet False s1) (\<lambda>(b, s2).
     Option.bind (read_octet False s2) (\<lambda>(c, s3).
     Option.bind (read_octet False s3) (\<lambda>(d, s4). Some ((a, b, c, d), s4)))))"

text \<open>
  \<open>read_groups limit i s\<close> reads the groups from index \<open>i\<close> on: the groups read, whether
  the last two came from an embedded IPv4 address, and the rest.
\<close>

function read_groups :: "nat \<Rightarrow> nat \<Rightarrow> string \<Rightarrow> nat list \<times> bool \<times> string" where
  "read_groups limit i s =
     (if limit \<le> i then ([], False, s)
      else
        let sep = (if i = 0 then Some s else read_given_char (CHR '':'') s);
            v4 = (if i + 1 < limit then Option.bind sep read_ipv4_addr else None)
        in case v4 of
             Some ((a, b, c, d), s1) \<Rightarrow> ([256 * a + b, 256 * c + d], True, s1)
           | None \<Rightarrow>
               (case Option.bind sep (read_number 16 (Some 4) True 16) of
                  None \<Rightarrow> ([], False, s)
                | Some (g, s1) \<Rightarrow>
                    let (gs, e4, s2) = read_groups limit (i + 1) s1 in (g # gs, e4, s2)))"
  by pat_completeness auto
termination
  by (relation "measure (\<lambda>(limit, i, s). limit - i)") auto

declare read_groups.simps [simp del]

definition read_ipv6_addr :: "string \<Rightarrow> (nat list \<times> string) option" where
  "read_ipv6_addr s =
     (let (hs, h4, s1) = read_groups 8 0 s
      in if length hs = 8 then Some (hs, s1)
         else if h4 then None
         else Option.bind (strip_prefix s1 ''::'') (\<lambda>s2.
           let (ts, _, s3) = read_groups (8 - (length hs + 1)) 0 s2
           in Some (hs @ replicate (8 - (length hs + length ts)) 0 @ ts, s3)))"

definition read_ip_addr :: "string \<Rightarrow> (ip_addr \<times> string) option" where
  "read_ip_addr s =
     (case read_ipv4_addr s of
        Some ((a, b, c, d), r) \<Rightarrow> Some (V4 a b c d, r)
      | None \<Rightarrow> map_option (\<lambda>(g, r). (V6 g, r)) (read_ipv6_addr s))"

definition read_port :: "string \<Rightarrow> (u16 \<times> string) option" where
  "read_port s =
     Option.bind (read_given_char (CHR '':'') s) (\<lambda>s1.
       map_option (\<lambda>(n, r). (of_nat n, r)) (read_number 10 None True 16 s1))"

definition read_scope_id :: "string \<Rightarrow> (nat \<times> string) option" where
  "read_scope_id s =
     Option.bind (read_given_char (CHR ''%'') s) (read_number 10 None True 32)"

definition read_socket_addr_v4 :: "string \<Rightarrow> (socket_addr \<times> string) option" where
  "read_socket_addr_v4 s =
     Option.bind (read_ipv4_addr s) (\<lambda>((a, b, c, d), s1).
     Option.bind (read_port s1) (\<lambda>(p, s2). Some (socket_addr_new (V4 a b c d) p, s2)))"

definition read_socket_addr_v6 :: "string \<Rightarrow> (socket_addr \<times> string) option" where
  "read_socket_addr_v6 s =
     Option.bind (read_given_char (CHR ''['') s) (\<lambda>s1.
     Option.bind (read_ipv6_addr s1) (\<lambda>(g, s2).
       let (sc, s3) = unwrap_or (0, s2) (read_scope_id s2) in
       Option.bind (read_given_char (CHR '']'') s3) (\<lambda>s4.
       Option.bind (read_port s4) (\<lambda>(p, s5).
         Some (\<lparr>sa_ip = V6 g, sa_port = p, sa_scope = sc\<rparr>, s5)))))"

definition whole :: "('a \<times> string) option \<Rightarrow> 'a option" where
  "whole r = (case r of Some (a, rest) \<Rightarrow> (if rest = [] then Some a else None) | None \<Rightarrow> None)"

definition parse_ip_addr :: "string \<Rightarrow> ip_addr option" where
  "parse_ip_addr s = whole (read_ip_addr s)"

definition parse_socket_addr :: "string \<Rightarrow> socket_addr option" where
  "parse_socket_addr s =
     whole (case read_socket_addr_v4 s of Some r \<Rightarrow> Some r | None \<Rightarrow> read_socket_addr_v6 s)"

section \<open>Display\<close>

definition show_ipv4 :: "nat \<Rightarrow> nat \<Rightarrow> nat \<Rightarrow> nat \<Rightarrow> string" where
  "show_ipv4 a b c d = show_nat a @ ''.'' @ show_nat b @ ''.'' @ show_nat c @ ''.'' @ show_nat d"

definition hex_char :: "nat \<Rightarrow> char" where
  "hex_char d = (if d < 10 then char_of (48 + d) else char_of (87 + d))"

fun show_hex :: "nat \<Rightarrow> string" where
  "show_hex n = (if n < 16 then [hex_char n] else show_hex (n div 16) @ [hex_char (n mod 16)])"

declare show_hex.simps [simp del]

text \<open>Start and length of the first longest run of zero groups.\<close>

fun zero_span :: "nat \<Rightarrow> nat \<times> nat \<Rightarrow> nat \<times> nat \<Rightarrow> nat list \<Rightarrow> nat \<times> nat" where
  "zero_span i best cur [] = best"
| "zero_span i best cur (g # gs) =
     (if g = 0
      then let cur' = (if snd cur = 0 then (i, 1) else (fst cur, snd cur + 1));
               best' = (if snd best < snd cur' then cur' else best)
           in zero_span (i + 1) best' cur' gs
      else zero_span (i + 1) best (0, 0) gs)"

definition show_ipv6 :: "nat list \<Rightarrow> string" where
  "show_ipv6 g =
     (if take 6 g = [0, 0, 0, 0, 0, 65535] \<and> length g = 8
      then ''::ffff:'' @ show_ipv4 (g ! 6 div 256) (g ! 6 mod 256) (g ! 7 div 256) (g ! 7 mod 256)
      else
        let (st, n) = zero_span 0 (0, 0) (0, 0) g; sub = (\<lambda>gs. str_join '':'' (map show_hex gs))
        in if 1 < n then sub (take st g) @ ''::'' @ sub (drop (st + n) g) else sub g)"

fun show_ip :: "ip_addr \<Rightarrow> string" where
  "show_ip (V4 a b c d) = show_ipv4 a b c d"
| "show_ip (V6 g) = show_ipv6 g"

definition show_socket_addr :: "socket_addr \<Rightarrow> string" where
  "show_socket_addr a =
     (case sa_ip a of
        V4 _ _ _ _ \<Rightarrow> show_ip (sa_ip a) @ '':'' @ show_word (sa_port a)
      | V6 _ \<Rightarrow> ''['' @ show_ip (sa_ip a)
          @ (if sa_scope a = 0 then [] else ''%'' @ show_nat (sa_scope a))
          @ '']:'' @ show_word (sa_port a))"

section \<open>IPv4 text round trip\<close>

lemma radix_digit_10: "radix_digit 10 c = (if is_dec_digit c then Some (digit_val c) else None)"
  by (auto simp: radix_digit_def is_dec_digit_def digit_val_def Let_def)

lemma radix_val_10:
  assumes "list_all is_dec_digit ds"
  shows "radix_val 10 ds = dec_val ds"
proof -
  have "foldl (\<lambda>n c. 10 * n + unwrap_or 0 (radix_digit 10 c)) k ds
      = foldl (\<lambda>n c. 10 * n + digit_val c) k ds" for k
    using assms by (induction ds arbitrary: k) (auto simp: radix_digit_10)
  then show ?thesis by (simp add: radix_val_def dec_val_def)
qed

definition digit_head :: "string \<Rightarrow> bool" where
  "digit_head s = (case s of [] \<Rightarrow> False | c # _ \<Rightarrow> is_dec_digit c)"

lemma takeWhile_digits:
  assumes "list_all is_dec_digit ds" and "\<not> digit_head r"
  shows "takeWhile (\<lambda>c. radix_digit 10 c \<noteq> None) (ds @ r) = ds"
proof -
  have "takeWhile (\<lambda>c. radix_digit 10 c \<noteq> None) r = []"
    using assms(2) by (cases r) (auto simp: digit_head_def radix_digit_10)
  then show ?thesis
    using assms(1) by (induction ds) (auto simp: radix_digit_10)
qed

lemma show_nat_length_le: "n < 10 ^ k \<Longrightarrow> 0 < k \<Longrightarrow> length (show_nat n) \<le> k"
proof (induction n arbitrary: k rule: show_nat.induct)
  case (1 n)
  show ?case
  proof (cases "n < 10")
    case True
    then show ?thesis using "1.prems" by (simp add: show_nat.simps [of n])
  next
    case False
    then obtain j where j: "k = Suc j" "0 < j"
      using "1.prems" by (cases k; cases "k - 1") auto
    have "n div 10 < 10 ^ j" using "1.prems" j by (simp add: less_mult_imp_div_less mult.commute)
    with "1.IH" False j have "length (show_nat (n div 10)) \<le> j" by simp
    then show ?thesis using False j by (simp add: show_nat.simps [of n])
  qed
qed

lemma show_nat_hd_zero: "hd (show_nat n) = CHR ''0'' \<Longrightarrow> length (show_nat n) \<le> 1"
proof (induction n rule: show_nat.induct)
  case (1 n)
  show ?case
  proof (cases "n < 10")
    case True
    then show ?thesis by (simp add: show_nat.simps [of n])
  next
    case False
    have ne: "show_nat (n div 10) \<noteq> []" using show_nat_digits [of "n div 10"] by simp
    then have "hd (show_nat (n div 10)) = CHR ''0''"
      using "1.prems" False by (simp add: show_nat.simps [of n])
    with "1.IH" False have "length (show_nat (n div 10)) \<le> 1" by simp
    with ne obtain c where c: "show_nat (n div 10) = [c]" by (cases "show_nat (n div 10)") auto
    with \<open>hd (show_nat (n div 10)) = CHR ''0''\<close> have "dec_val (show_nat (n div 10)) = 0"
      by (simp add: dec_val_def digit_val_def)
    then have "n div 10 = 0" using show_nat_digits [of "n div 10"] by simp
    with False show ?thesis by simp
  qed
qed

lemma read_number_show_nat:
  assumes "n < 256" "\<not> digit_head r"
  shows "read_number 10 (Some 3) False 8 (show_nat n @ r) = Some (n, r)"
proof -
  note d = show_nat_digits [of n]
  have l: "length (show_nat n) \<le> 3" using assms(1) by (intro show_nat_length_le) auto
  have "hd (show_nat n @ r) = hd (show_nat n)" using d by simp
  then have z: "hd (show_nat n @ r) = CHR ''0'' \<Longrightarrow> \<not> 1 < length (show_nat n)"
    using show_nat_hd_zero [of n] by auto
  show ?thesis
    using d l z assms takeWhile_digits [of "show_nat n" r] radix_val_10 [of "show_nat n"]
    by (simp add: read_number_def Let_def)
qed

lemma read_octet_show:
  assumes "n < 256" "\<not> digit_head r"
  shows "read_octet True (show_nat n @ r) = Some (n, r)"
    and "read_octet False (CHR ''.'' # show_nat n @ r) = Some (n, r)"
  using read_number_show_nat [OF assms] by (simp_all add: read_octet_def read_given_char_def)

lemma read_ipv4_show:
  assumes "a < 256" "b < 256" "c < 256" "d < 256" "\<not> digit_head r"
  shows "read_ipv4_addr (show_ipv4 a b c d @ r) = Some ((a, b, c, d), r)"
  using assms by (simp add: read_ipv4_addr_def show_ipv4_def read_octet_show digit_head_def is_dec_digit_def)

lemma read_port_show: "read_port (CHR '':'' # show_word (p :: u16)) = Some (p, [])"
proof -
  note d = show_nat_digits [of "unat p"]
  have tw: "takeWhile (\<lambda>c. radix_digit 10 c \<noteq> None) (show_word p) = show_word p"
    using d takeWhile_digits [of "show_word p" "[]"] by (simp add: digit_head_def)
  have "unat p < 2 ^ 16" using unsigned_less [of p] by simp
  then have "read_number 10 None True 16 (show_word p) = Some (unat p, [])"
    unfolding read_number_def Let_def tw using d radix_val_10 [of "show_word p"] by simp
  then show ?thesis
    by (simp add: read_port_def read_given_char_def)
qed

lemma parse_socket_addr_show_v4:
  assumes "a < 256" "b < 256" "c < 256" "d < 256"
  shows "parse_socket_addr (show_ipv4 a b c d @ '':'' @ show_word p) = Some (socket_addr_new (V4 a b c d) p)"
  using assms
  by (simp add: parse_socket_addr_def read_socket_addr_v4_def whole_def read_ipv4_show read_port_show
      digit_head_def is_dec_digit_def)

end
