(* ===== verification/Http_Lib.thy ===== *)
theory Http_Lib
  imports Rust_Net
begin

text \<open>
  The third-party code the proxy is written against (the \<open>http\<close>/\<open>hyper\<close> types and the
  pooled client, \<open>uuid\<close>) and the process environment, as one record of operations that
  every definition of the model takes as an argument. Nothing is defined for them: what
  the proxy relies on is stated as laws in the locales \<open>header_laws\<close>, \<open>uri_laws\<close> and
  \<open>http_laws\<close>, each the documented behaviour of the crate, and the facts the components
  need are derived once inside the locales. A property that needs the laws has the
  locale predicate \<open>http_laws L\<close> as its hypothesis. The record \<open>ref_lib\<close> at the end is
  a concrete instance on which the laws are proved and concrete runs are evaluated.

  Types left abstract: \<open>'u\<close> for \<open>Uri\<close>, \<open>'h\<close> for \<open>HeaderMap\<close>, \<open>'w\<close> for the world outside
  the process (clock, network, entropy, environment variables).
\<close>

section \<open>Messages\<close>

text \<open>A body is the sequence of frames its stream yields.\<close>

datatype frame = Frame string | FrameErr string

type_synonym body = "frame list"

record ('u, 'h) request =
  req_method :: string
  req_uri :: 'u
  req_headers :: 'h
  req_body :: body

record 'h response =
  resp_status :: u16
  resp_headers :: 'h
  resp_body :: body

record uri_parts =
  parts_scheme :: "string option"
  parts_authority :: "string option"
  parts_path_and_query :: "string option"

text \<open>
  What \<open>timeout(secs, client.request(req)).await\<close> yields: the timer fired first, the client
  failed (\<open>is_connect\<close> and the error text), or a response arrived.
\<close>

datatype 'h client_outcome =
    Elapsed
  | ClientErr bool string
  | Answer "'h response"

section \<open>The operations\<close>

record ('u, 'h, 'w) lib =
  header_name_from_bytes :: "string \<Rightarrow> string option"
  header_value_from_str :: "string \<Rightarrow> string option"
  header_value_to_str :: "string \<Rightarrow> string option"
  hm_new :: 'h
  hm_get :: "'h \<Rightarrow> string \<Rightarrow> string option"
  hm_insert :: "'h \<Rightarrow> string \<Rightarrow> string \<Rightarrow> 'h"
  hm_append :: "'h \<Rightarrow> string \<Rightarrow> string \<Rightarrow> 'h"
  hm_remove :: "'h \<Rightarrow> string \<Rightarrow> 'h"
  hm_iter :: "'h \<Rightarrow> (string \<times> string) list"
  uri_parse :: "string \<Rightarrow> string + 'u"
  uri_scheme_str :: "'u \<Rightarrow> string option"
  uri_authority :: "'u \<Rightarrow> string option"
  uri_path_and_query :: "'u \<Rightarrow> string option"
  uri_path :: "'u \<Rightarrow> string"
  uri_query :: "'u \<Rightarrow> string option"
  uri_into_parts :: "'u \<Rightarrow> uri_parts"
  uri_from_parts :: "uri_parts \<Rightarrow> string + 'u"
  path_and_query_parse :: "string \<Rightarrow> string + string"
  status_from_u16 :: "u16 \<Rightarrow> u16 option"
  status_canonical_reason :: "u16 \<Rightarrow> string option"
  status_is_success :: "u16 \<Rightarrow> bool"
  status_is_client_error :: "u16 \<Rightarrow> bool"
  uuid_v4 :: "'w \<Rightarrow> string \<times> 'w"
  env_var :: "'w \<Rightarrow> string \<Rightarrow> string option"
  client_request :: "'w \<Rightarrow> u64 \<Rightarrow> ('u, 'h) request \<Rightarrow> 'h client_outcome \<times> 'w"

text \<open>All values a header map holds for a name, in iteration order.\<close>

definition hm_all :: "('u, 'h, 'w) lib \<Rightarrow> 'h \<Rightarrow> string \<Rightarrow> string list" where
  "hm_all L h n = map snd (filter (\<lambda>(k, _). k = to_ascii_lowercase n) (hm_iter L h))"

definition is_visible :: "char \<Rightarrow> bool" where
  "is_visible c = (let n = (of_char c :: nat) in (32 \<le> n \<and> n < 127) \<or> n = 9)"

definition is_tchar :: "char \<Rightarrow> bool" where
  \<comment> \<open>the token characters of RFC 9110\<close>
  "is_tchar c =
     (let n = (of_char c :: nat)
      in (48 \<le> n \<and> n \<le> 57) \<or> (65 \<le> n \<and> n \<le> 90) \<or> (97 \<le> n \<and> n \<le> 122)
         \<or> c \<in> set ''!#$%&*+-.^_`|~'' \<or> n = 39)"

definition is_token :: "string \<Rightarrow> bool" where
  "is_token s = (s \<noteq> [] \<and> list_all is_tchar s \<and> length s < 1024)"

definition is_uuid_char :: "char \<Rightarrow> bool" where
  "is_uuid_char c =
     (let n = (of_char c :: nat) in (48 \<le> n \<and> n \<le> 57) \<or> (97 \<le> n \<and> n \<le> 102) \<or> n = 45)"

section \<open>Laws\<close>

text \<open>
  \<open>HeaderName\<close> is a lower-cased token; \<open>HeaderValue::from_str\<close> keeps the bytes and accepts
  visible ASCII; \<open>HeaderValue::to_str\<close> succeeds exactly on visible ASCII; \<open>HeaderMap\<close> is a
  multimap: \<open>insert\<close> replaces all values of a name, \<open>append\<close> adds one, \<open>remove\<close> drops all,
  \<open>get\<close> is the first value, \<open>iter\<close> yields every name with every value.
\<close>

locale header_laws =
  fixes L :: "('u, 'h, 'w) lib"
  assumes name_lower: "header_name_from_bytes L n = Some m \<Longrightarrow> m = to_ascii_lowercase n"
    and name_idem: "header_name_from_bytes L n = Some m \<Longrightarrow> header_name_from_bytes L m = Some m"
    and name_token: "is_token n \<Longrightarrow> header_name_from_bytes L n = Some (to_ascii_lowercase n)"
    and value_same: "header_value_from_str L s = Some v \<Longrightarrow> v = s"
    and value_visible: "list_all is_visible s \<Longrightarrow> header_value_from_str L s = Some s"
    and to_str_eq: "header_value_to_str L v = (if list_all is_visible v then Some v else None)"
    and iter_new: "hm_iter L (hm_new L) = []"
    and iter_names: "(n, v) \<in> set (hm_iter L h) \<Longrightarrow> header_name_from_bytes L n = Some n"
    and get_all: "hm_get L h n = first_arg (hm_all L h n)"
    and all_insert: "header_name_from_bytes L n \<noteq> None \<Longrightarrow>
      hm_all L (hm_insert L h n v) m
        = (if to_ascii_lowercase m = to_ascii_lowercase n then [v] else hm_all L h m)"
    and all_append: "header_name_from_bytes L n \<noteq> None \<Longrightarrow>
      hm_all L (hm_append L h n v) m
        = (if to_ascii_lowercase m = to_ascii_lowercase n then hm_all L h m @ [v] else hm_all L h m)"
    and all_remove:
      "hm_all L (hm_remove L h n) m
        = (if to_ascii_lowercase m = to_ascii_lowercase n then [] else hm_all L h m)"
begin

lemma all_new [simp]: "hm_all L (hm_new L) n = []"
  by (simp add: hm_all_def iter_new)

lemma get_new [hm_rules]: "hm_get L (hm_new L) n = None"
  by (simp add: get_all)

lemma get_insert:
  "header_name_from_bytes L n \<noteq> None \<Longrightarrow>
     hm_get L (hm_insert L h n v) m
       = (if to_ascii_lowercase m = to_ascii_lowercase n then Some v else hm_get L h m)"
  by (simp add: get_all all_insert)

lemma get_append:
  "header_name_from_bytes L n \<noteq> None \<Longrightarrow>
     hm_get L (hm_append L h n v) m
       = (if to_ascii_lowercase m = to_ascii_lowercase n
          then Some (unwrap_or v (hm_get L h m)) else hm_get L h m)"
  by (cases "hm_all L h m") (auto simp: get_all all_append)

lemma get_remove [hm_rules]:
  "hm_get L (hm_remove L h n) m
     = (if to_ascii_lowercase m = to_ascii_lowercase n then None else hm_get L h m)"
  by (simp add: get_all all_remove)

lemma get_lower: "hm_get L h (to_ascii_lowercase n) = hm_get L h n"
  by (simp add: get_all hm_all_def)

lemma all_lower: "hm_all L h (to_ascii_lowercase n) = hm_all L h n"
  by (simp add: hm_all_def)

lemma get_cong: "to_ascii_lowercase n = to_ascii_lowercase m \<Longrightarrow> hm_get L h n = hm_get L h m"
  by (simp add: get_all hm_all_def)

lemma name_valid_iff:
  "header_name_from_bytes L n = Some m \<Longrightarrow>
     m = to_ascii_lowercase n \<and> header_name_from_bytes L m \<noteq> None"
  using name_lower name_idem by blast

lemma get_insert_name:
  assumes "header_name_from_bytes L n = Some k"
  shows "hm_get L (hm_insert L h k v) m
           = (if to_ascii_lowercase m = to_ascii_lowercase n then Some v else hm_get L h m)"
  using name_valid_iff [OF assms] by (auto simp: get_insert)

lemma get_remove_name:
  assumes "header_name_from_bytes L n = Some k"
  shows "hm_get L (hm_remove L h k) m
           = (if to_ascii_lowercase m = to_ascii_lowercase n then None else hm_get L h m)"
  using name_valid_iff [OF assms] by (simp add: get_remove)

lemma all_insert_name:
  assumes "header_name_from_bytes L n = Some k"
  shows "hm_all L (hm_insert L h k v) m
           = (if to_ascii_lowercase m = to_ascii_lowercase n then [v] else hm_all L h m)"
  using name_valid_iff [OF assms] by (auto simp: all_insert)

lemma iter_name_lower: "(n, v) \<in> set (hm_iter L h) \<Longrightarrow> to_ascii_lowercase n = n"
  using iter_names name_lower by metis

lemma get_iter: "(n, v) \<in> set (hm_iter L h) \<Longrightarrow> v \<in> set (hm_all L h n)"
  using iter_name_lower [of n v h] by (force simp: hm_all_def)

lemma to_str_value: "header_value_to_str L v = Some s \<Longrightarrow> header_value_from_str L s = Some s"
  by (auto simp: to_str_eq value_visible split: if_splits)

end

text \<open>
  \<open>Uri\<close> is its components; \<open>Uri::from_parts\<close> keeps the scheme, the authority and a
  non-empty path and query, and \<open>path_and_query().as_str()\<close> is never empty (an empty one
  prints as \<open>/\<close>). \<open>PathAndQuery::try_from\<close> drops a fragment: it keeps what stands before the
  first \<open>#\<close>.
\<close>

locale uri_laws =
  fixes L :: "('u, 'h, 'w) lib"
  assumes parts_scheme: "parts_scheme (uri_into_parts L u) = uri_scheme_str L u"
    and parts_authority: "parts_authority (uri_into_parts L u) = uri_authority L u"
    and from_parts_scheme: "uri_from_parts L p = Inr u \<Longrightarrow> uri_scheme_str L u = parts_scheme p"
    and from_parts_authority: "uri_from_parts L p = Inr u \<Longrightarrow> uri_authority L u = parts_authority p"
    and from_parts_path: "uri_from_parts L p = Inr u \<Longrightarrow> parts_path_and_query p = Some pq \<Longrightarrow>
      uri_path_and_query L u = Some (if pq = [] then ''/'' else pq)"
    and path_and_query_cut: "path_and_query_parse L s = Inr pq \<Longrightarrow> pq = takeWhile (\<lambda>c. c \<noteq> CHR ''#'') s"
    and path_and_query_root: "path_and_query_parse L ''/'' = Inr ''/''"

text \<open>
  Status codes are 100 to 999; \<open>is_success\<close> is 200 to 299, \<open>is_client_error\<close> 400 to 499; a
  version 4 UUID prints as 36 lower-case hexadecimal digits and hyphens.
\<close>

locale http_laws = header_laws L + uri_laws L for L :: "('u, 'h, 'w) lib" +
  assumes from_u16: "status_from_u16 L s = (if 100 \<le> s \<and> s < 1000 then Some s else None)"
    and is_success: "status_is_success L s = (200 \<le> s \<and> s < 300)"
    and is_client_error: "status_is_client_error L s = (400 \<le> s \<and> s < 500)"
    and uuid_chars: "list_all is_uuid_char (fst (uuid_v4 L w)) \<and> length (fst (uuid_v4 L w)) = 36"
begin

lemma uuid_visible: "list_all is_visible (fst (uuid_v4 L w))"
  using uuid_chars [of w] by (auto simp: list_all_iff is_uuid_char_def is_visible_def Let_def)

lemma uuid_value: "header_value_from_str L (fst (uuid_v4 L w)) = Some (fst (uuid_v4 L w))"
  by (rule value_visible) (rule uuid_visible)

lemma uuid_to_str: "header_value_to_str L (fst (uuid_v4 L w)) = Some (fst (uuid_v4 L w))"
  using uuid_visible by (simp add: to_str_eq)

end

section \<open>A concrete instance\<close>

type_synonym ref_headers = "(string \<times> string) list"

record ref_uri =
  ru_scheme :: "string option"
  ru_authority :: "string option"
  ru_pq :: "string option"

record ref_world =
  rw_env :: "(string \<times> string) list"
  rw_replies :: "ref_headers client_outcome list"

definition ref_name :: "string \<Rightarrow> string option" where
  "ref_name n = (if is_token n then Some (to_ascii_lowercase n) else None)"

definition ref_value :: "string \<Rightarrow> string option" where
  "ref_value s = (if list_all is_visible s then Some s else None)"

definition ref_remove :: "ref_headers \<Rightarrow> string \<Rightarrow> ref_headers" where
  "ref_remove h n = filter (\<lambda>(k, _). k \<noteq> to_ascii_lowercase n) h"

definition ref_append :: "ref_headers \<Rightarrow> string \<Rightarrow> string \<Rightarrow> ref_headers" where
  "ref_append h n v = (if is_token n then h @ [(to_ascii_lowercase n, v)] else h)"

definition ref_insert :: "ref_headers \<Rightarrow> string \<Rightarrow> string \<Rightarrow> ref_headers" where
  "ref_insert h n v = (if is_token n then ref_remove h n @ [(to_ascii_lowercase n, v)] else h)"

definition ref_iter :: "ref_headers \<Rightarrow> ref_headers" where
  "ref_iter h = filter (\<lambda>(k, _). is_token k \<and> to_ascii_lowercase k = k) h"

definition ref_get :: "ref_headers \<Rightarrow> string \<Rightarrow> string option" where
  "ref_get h n = first_arg (map snd (filter (\<lambda>(k, _). k = to_ascii_lowercase n) (ref_iter h)))"

definition ref_slash :: "string \<Rightarrow> string \<times> string" where
  "ref_slash s =
     (takeWhile (\<lambda>c. c \<noteq> CHR ''/'' \<and> c \<noteq> CHR ''?'') s,
      dropWhile (\<lambda>c. c \<noteq> CHR ''/'' \<and> c \<noteq> CHR ''?'') s)"

definition ref_parse :: "string \<Rightarrow> string + ref_uri" where
  "ref_parse s =
     (if s = [] then Inl ''empty string''
      else if starts_with s ''/'' then Inr \<lparr>ru_scheme = None, ru_authority = None, ru_pq = Some s\<rparr>
      else case str_find s ''://'' of
        None \<Rightarrow>
          if str_contains s ''/'' then Inl ''invalid uri character''
          else Inr \<lparr>ru_scheme = None, ru_authority = Some s, ru_pq = None\<rparr>
      | Some i \<Rightarrow>
          (let (a, p) = ref_slash (drop (i + 3) s)
           in if a = [] then Inl ''invalid authority''
              else Inr \<lparr>ru_scheme = Some (take i s), ru_authority = Some a,
                        ru_pq = (if p = [] then Some ''/'' else Some p)\<rparr>))"

definition ref_from_parts :: "uri_parts \<Rightarrow> string + ref_uri" where
  "ref_from_parts p =
     (if parts_scheme p \<noteq> None \<and> parts_authority p = None then Inl ''authority missing''
      else Inr \<lparr>ru_scheme = parts_scheme p, ru_authority = parts_authority p,
                ru_pq = map_option (\<lambda>q. if q = [] then ''/'' else q) (parts_path_and_query p)\<rparr>)"

definition ref_path :: "ref_uri \<Rightarrow> string" where
  "ref_path u = takeWhile (\<lambda>c. c \<noteq> CHR ''?'') (unwrap_or ''/'' (ru_pq u))"

definition ref_query :: "ref_uri \<Rightarrow> string option" where
  "ref_query u =
     (case dropWhile (\<lambda>c. c \<noteq> CHR ''?'') (unwrap_or [] (ru_pq u)) of [] \<Rightarrow> None | _ # q \<Rightarrow> Some q)"

text \<open>The text of an absolute address.\<close>

definition show_ref_uri :: "ref_uri \<Rightarrow> string" where
  "show_ref_uri u = unwrap_or [] (ru_scheme u) @ ''://'' @ unwrap_or [] (ru_authority u) @ unwrap_or [] (ru_pq u)"

definition ref_uuid :: string where
  "ref_uuid = ''00000000-0000-4000-8000-000000000000''"

definition ref_client ::
  "ref_world \<Rightarrow> u64 \<Rightarrow> (ref_uri, ref_headers) request \<Rightarrow> ref_headers client_outcome \<times> ref_world" where
  "ref_client w secs r =
     (case rw_replies w of
        [] \<Rightarrow> (ClientErr True ''connection refused'', w)
      | x # xs \<Rightarrow> (x, w\<lparr>rw_replies := xs\<rparr>))"

definition ref_reason :: "u16 \<Rightarrow> string option" where
  "ref_reason s =
     (if s = 404 then Some ''Not Found'' else if s = 500 then Some ''Internal Server Error''
      else if s = 502 then Some ''Bad Gateway'' else if s = 504 then Some ''Gateway Timeout'' else None)"

definition ref_lib :: "(ref_uri, ref_headers, ref_world) lib" where
  "ref_lib =
     \<lparr>header_name_from_bytes = ref_name, header_value_from_str = ref_value,
      header_value_to_str = ref_value,
      hm_new = [], hm_get = ref_get, hm_insert = ref_insert, hm_append = ref_append,
      hm_remove = ref_remove, hm_iter = ref_iter,
      uri_parse = ref_parse, uri_scheme_str = ru_scheme, uri_authority = ru_authority,
      uri_path_and_query = ru_pq, uri_path = ref_path, uri_query = ref_query,
      uri_into_parts = (\<lambda>u. \<lparr>parts_scheme = ru_scheme u, parts_authority = ru_authority u,
                             parts_path_and_query = ru_pq u\<rparr>),
      uri_from_parts = ref_from_parts,
      path_and_query_parse = (\<lambda>s. Inr (takeWhile (\<lambda>c. c \<noteq> CHR ''#'') s)),
      status_from_u16 = (\<lambda>s. if 100 \<le> s \<and> s < 1000 then Some s else None),
      status_canonical_reason = ref_reason,
      status_is_success = (\<lambda>s. 200 \<le> s \<and> s < 300),
      status_is_client_error = (\<lambda>s. 400 \<le> s \<and> s < 500),
      uuid_v4 = (\<lambda>w. (ref_uuid, w)),
      env_var = (\<lambda>w v. map_of (rw_env w) v),
      client_request = ref_client\<rparr>"

lemma is_tchar_lower: "is_tchar (ascii_lower_char c) \<longleftrightarrow> is_tchar c"
proof (cases "65 \<le> (of_char c :: nat) \<and> (of_char c :: nat) \<le> 90")
  case True
  then have "(of_char (ascii_lower_char c) :: nat) = of_char c + 32"
    by (simp add: ascii_lower_char_def take_bit_eq_mod)
  with True show ?thesis by (simp add: is_tchar_def Let_def)
next
  case False
  then have "ascii_lower_char c = c" by (auto simp: ascii_lower_char_def)
  then show ?thesis by simp
qed

lemma is_token_lower [simp]: "is_token (to_ascii_lowercase n) = is_token n"
  by (simp add: is_token_def to_ascii_lowercase_def list_all_iff is_tchar_lower)

lemma filter_filter_key:
  "filter (\<lambda>(k, _). k = m) (filter (\<lambda>(k, _). P k) h)
     = (if P m then filter (\<lambda>(k, _). k = m) h else [])"
  by (induction h) auto

lemma ref_hm_all:
  "hm_all ref_lib h m
     = (if is_token m then map snd (filter (\<lambda>(k, _). k = to_ascii_lowercase m) h) else [])"
  by (simp add: hm_all_def ref_lib_def ref_iter_def filter_filter_key del: filter_filter)

interpretation ref_http: http_laws ref_lib
proof (unfold_locales, goal_cases)
  case (1 n m)
  then show ?case by (auto simp: ref_lib_def ref_name_def split: if_splits)
next
  case (2 n m)
  then show ?case by (auto simp: ref_lib_def ref_name_def split: if_splits)
next
  case (8 n v h)
  then show ?case by (auto simp: ref_lib_def ref_iter_def ref_name_def)
next
  case (9 h n)
  show ?case by (simp add: hm_all_def ref_lib_def ref_get_def)
next
  case (10 n h v m)
  then have "is_token n" by (auto simp: ref_lib_def ref_name_def split: if_splits)
  moreover have "is_token m = is_token n" if "to_ascii_lowercase m = to_ascii_lowercase n"
    using that by (metis is_token_lower)
  ultimately show ?case
    by (auto simp: ref_hm_all) (auto simp: ref_lib_def ref_insert_def ref_remove_def filter_filter_key simp del: filter_filter)
next
  case (11 n h v m)
  then have "is_token n" by (auto simp: ref_lib_def ref_name_def split: if_splits)
  moreover have "is_token m = is_token n" if "to_ascii_lowercase m = to_ascii_lowercase n"
    using that by (metis is_token_lower)
  ultimately show ?case
    by (auto simp: ref_hm_all) (auto simp: ref_lib_def ref_append_def)
next
  case (12 h n m)
  show ?case
    by (auto simp: ref_hm_all) (auto simp: ref_lib_def ref_remove_def filter_filter_key simp del: filter_filter)
next
  case (23 w)
  show ?case by (simp add: ref_lib_def ref_uuid_def is_uuid_char_def)
qed (auto simp: ref_lib_def ref_name_def ref_value_def ref_iter_def ref_from_parts_def split: if_splits)

end
