(* ===== verification/Config_Models.thy ===== *)
theory Config_Models
  imports Http_Lib
begin

text \<open>
  The configuration data model (\<open>src/config/models.rs\<close>) and the error type
  (\<open>src/error.rs\<close>): sites, directives, the forward-auth settings with their defaults, the
  endpoint normalisation shared by the text parser and the JSON API, and the field
  decoders the JSON API uses. A \<open>HashMap\<close> is an association list whose order is the
  (unspecified) iteration order; lookups do not depend on it.
\<close>

section \<open>Errors\<close>

datatype proxy_error =
    Config string
  | Backend string
  | Parse string
  | Io string
  | Http string
  | Connection string
  | Directive string
  | InvalidUrl string
  | Address string

fun show_proxy_error :: "proxy_error \<Rightarrow> string" where
  "show_proxy_error (Config m) = ''Configuration error: '' @ m"
| "show_proxy_error (Backend m) = ''Backend error: '' @ m"
| "show_proxy_error (Parse m) = ''Parse error: '' @ m"
| "show_proxy_error (Io m) = ''I/O error: '' @ m"
| "show_proxy_error (Http m) = ''HTTP error: '' @ m"
| "show_proxy_error (Connection m) = ''Connection error: '' @ m"
| "show_proxy_error (Directive m) = ''Directive error: '' @ m"
| "show_proxy_error (InvalidUrl m) = ''Invalid URL: '' @ m"
| "show_proxy_error (Address m) = ''Invalid address: '' @ m"

section \<open>Data\<close>

record tls_config =
  cert_path :: string
  key_path :: string

record header_directive =
  hd_name :: string
  hd_value :: "string option"

datatype failure_mode = Closed | Open

record 'u forward_auth_config =
  endpoint :: 'u
  request_headers :: "string list"
  response_headers :: "string list"
  fa_failure_mode :: failure_mode
  timeout_secs :: u64

datatype (dead 'u) directive =
    ReverseProxy string "u64 option" "u64 option" "header_directive list"
  | HandlePath string "'u directive list"
  | UriReplace string string
  | Header string "string option"
  | Method "string list" "'u directive list"
  | StripPrefix string
  | Redirect u16 string
  | Respond u16 string
  | ForwardAuth "'u forward_auth_config"

record 'u site_config =
  address :: string
  directives :: "'u directive list"
  tls :: "tls_config option"

record 'u config =
  sites :: "(string \<times> 'u site_config) list"

definition sites_get :: "'u config \<Rightarrow> string \<Rightarrow> 'u site_config option" where
  "sites_get c k = map_of (sites c) k"

definition sites_values :: "'u config \<Rightarrow> 'u site_config list" where
  "sites_values c = map snd (sites c)"

section \<open>Defaults\<close>

definition default_request_headers :: "string list" where
  "default_request_headers = [''authorization'', ''cookie'']"

definition default_auth_timeout_secs :: u64 where
  "default_auth_timeout_secs = 5"

section \<open>Endpoint normalisation\<close>

definition normalize_auth_endpoint :: "('u, 'h, 'w) lib \<Rightarrow> 'u \<Rightarrow> string + 'u" where
  "normalize_auth_endpoint L u =
     (case uri_scheme_str L u of
        None \<Rightarrow> Inl ''missing scheme (use http:// or https://)''
      | Some scheme \<Rightarrow>
          if scheme \<noteq> ''http'' \<and> scheme \<noteq> ''https''
          then Inl (''unsupported scheme '' @ [CHR 0x27] @ scheme @ [CHR 0x27] @ '' (use http or https)'')
          else if uri_authority L u = None then Inl ''missing host''
          else if uri_path_and_query L u = None then
            (case path_and_query_parse L ''/'' of
               Inl e \<Rightarrow> Inl (''failed to set default path: '' @ e)
             | Inr pq \<Rightarrow> uri_from_parts L ((uri_into_parts L u)\<lparr>parts_path_and_query := Some pq\<rparr>))
          else Inr u)"

section \<open>JSON field decoders\<close>

definition serde_uri_deserialize :: "('u, 'h, 'w) lib \<Rightarrow> string \<Rightarrow> string + 'u" where
  "serde_uri_deserialize L s = res_bind (uri_parse L s) (normalize_auth_endpoint L)"

definition serde_header_name_list_deserialize :: "('u, 'h, 'w) lib \<Rightarrow> string list \<Rightarrow> string + string list" where
  "serde_header_name_list_deserialize L raw =
     collect_res (\<lambda>s. ok_or ''invalid HTTP header name'' (header_name_from_bytes L s)) raw"

definition serde_header_name_list_serialize :: "string list \<Rightarrow> string list" where
  "serde_header_name_list_serialize value = map (\<lambda>n. n) value"

section \<open>What a loaded configuration guarantees\<close>

definition valid_auth_endpoint :: "('u, 'h, 'w) lib \<Rightarrow> 'u \<Rightarrow> bool" where
  "valid_auth_endpoint L u =
     (uri_scheme_str L u \<in> {Some ''http'', Some ''https''} \<and>
      uri_authority L u \<noteq> None \<and> uri_path_and_query L u \<noteq> None)"

definition valid_header_names :: "('u, 'h, 'w) lib \<Rightarrow> string list \<Rightarrow> bool" where
  "valid_header_names L ns = list_all (\<lambda>n. header_name_from_bytes L n = Some n) ns"

definition valid_forward_auth :: "('u, 'h, 'w) lib \<Rightarrow> 'u forward_auth_config \<Rightarrow> bool" where
  "valid_forward_auth L fa =
     (valid_auth_endpoint L (endpoint fa) \<and> valid_header_names L (request_headers fa) \<and>
      valid_header_names L (response_headers fa))"

text \<open>A predicate on forward-auth settings, lifted to whole directive trees.\<close>

fun all_auth :: "('u forward_auth_config \<Rightarrow> bool) \<Rightarrow> 'u directive \<Rightarrow> bool" where
  "all_auth P (HandlePath _ ds) = list_all (all_auth P) ds"
| "all_auth P (Method _ ds) = list_all (all_auth P) ds"
| "all_auth P (ForwardAuth fa) = P fa"
| "all_auth P _ = True"

definition valid_config :: "('u, 'h, 'w) lib \<Rightarrow> 'u config \<Rightarrow> bool" where
  "valid_config L c =
     (\<forall>(k, s) \<in> set (sites c). list_all (all_auth (valid_forward_auth L)) (directives s))"

lemma normalize_valid:
  assumes "uri_laws L" and ok: "normalize_auth_endpoint L u = Inr v"
  shows "valid_auth_endpoint L v \<and> uri_scheme_str L v = uri_scheme_str L u
           \<and> uri_authority L v = uri_authority L u"
proof (cases "uri_path_and_query L u")
  case None
  then obtain pq where pq: "path_and_query_parse L ''/'' = Inr pq"
    and v: "uri_from_parts L ((uri_into_parts L u)\<lparr>parts_path_and_query := Some pq\<rparr>) = Inr v"
    using ok by (auto simp: normalize_auth_endpoint_def split: option.splits if_splits sum.splits)
  from ok have s: "uri_scheme_str L u \<in> {Some ''http'', Some ''https''}" "uri_authority L u \<noteq> None"
    by (auto simp: normalize_auth_endpoint_def split: option.splits if_splits)
  note laws = uri_laws.from_parts_scheme [OF assms(1) v] uri_laws.from_parts_authority [OF assms(1) v]
    uri_laws.from_parts_path [OF assms(1) v] uri_laws.parts_scheme [OF assms(1)]
    uri_laws.parts_authority [OF assms(1)]
  show ?thesis using s laws by (simp add: valid_auth_endpoint_def)
next
  case (Some a)
  then show ?thesis
    using ok by (auto simp: normalize_auth_endpoint_def valid_auth_endpoint_def split: option.splits if_splits)
qed

lemma normalize_fixed: "valid_auth_endpoint L u \<Longrightarrow> normalize_auth_endpoint L u = Inr u"
  by (auto simp: normalize_auth_endpoint_def valid_auth_endpoint_def)

lemma default_request_headers_valid:
  assumes "header_laws L"
  shows "valid_header_names L default_request_headers"
proof -
  have "is_token ''authorization''" "is_token ''cookie''"
    "to_ascii_lowercase ''authorization'' = ''authorization''" "to_ascii_lowercase ''cookie'' = ''cookie''"
    by (simp_all add: is_token_def is_tchar_def to_ascii_lowercase_def ascii_lower_char_def)
  then show ?thesis
    using header_laws.name_token [OF assms] by (simp add: valid_header_names_def default_request_headers_def)
qed

end
