(* ===== verification/Config_Address.thy ===== *)
theory Config_Address
  imports Config_Models
begin

text \<open>
  Listen addresses (\<open>src/config/address.rs\<close>): the socket a site binds, the SNI host name of
  a site and the port of its HTTP redirect listener.
\<close>

section \<open>Operations\<close>

definition resolve_listen_addr :: "string \<Rightarrow> string + socket_addr" where
  "resolve_listen_addr addr =
     (case parse_socket_addr addr of
        Some a \<Rightarrow> Inr a
      | None \<Rightarrow>
          (case parse_u16 (rsplit_first (CHR '':'') addr) of
             None \<Rightarrow> Inl (''Cannot parse address: '' @ addr)
           | Some port \<Rightarrow> Inr (socket_addr_new (V4 0 0 0 0) port)))"

definition extract_hostname :: "string \<Rightarrow> string" where
  "extract_hostname addr =
     (case (if starts_with addr ''['' then str_find addr '']'' else None) of
        Some e \<Rightarrow> take (e - 1) (drop 1 addr)
      | None \<Rightarrow> rsplit_back (CHR '':'') addr)"

definition saturating_sub :: "u16 \<Rightarrow> u16 \<Rightarrow> u16" where
  "saturating_sub a b = (if a < b then 0 else a - b)"

definition saturating_add :: "u16 \<Rightarrow> u16 \<Rightarrow> u16" where
  "saturating_add a b = (if 65535 < unat a + unat b then 65535 else a + b)"

definition tls_redirect_port :: "u16 \<Rightarrow> u16" where
  "tls_redirect_port tls_port = saturating_add (saturating_sub tls_port 443) 80"

text \<open>Evaluation of concrete addresses.\<close>

lemmas address_eval =
  resolve_listen_addr_def parse_socket_addr_def read_socket_addr_v4_def read_socket_addr_v6_def
  read_ipv4_addr_def read_octet_def read_number_def read_given_char_def radix_digit_def whole_def
  rsplit_first_takeWhile parse_u16_def parse_uint_def is_dec_digit_def dec_val_def digit_val_def
  read_port_def radix_val_def

section \<open>Properties\<close>

text \<open>
  A dotted-quad site address binds exactly that socket; any other address that ends in
  a colon and a decimal port binds all IPv4 interfaces at that port.
\<close>

lemma resolve_listen_addr_binds:
  "(a < 256 \<and> b < 256 \<and> c < 256 \<and> d < 256 \<longrightarrow>
      resolve_listen_addr (show_ipv4 a b c d @ '':'' @ show_word p) = Inr (socket_addr_new (V4 a b c d) p))
   \<and> (parse_socket_addr (host @ '':'' @ show_word p) = None \<longrightarrow>
      resolve_listen_addr (host @ '':'' @ show_word p) = Inr (socket_addr_new (V4 0 0 0 0) p))"
proof (intro conjI impI)
  assume "a < 256 \<and> b < 256 \<and> c < 256 \<and> d < 256"
  then show "resolve_listen_addr (show_ipv4 a b c d @ '':'' @ show_word p) = Inr (socket_addr_new (V4 a b c d) p)"
    using parse_socket_addr_show_v4 [of a b c d p] by (simp add: resolve_listen_addr_def)
next
  assume h: "parse_socket_addr (host @ '':'' @ show_word p) = None"
  have "CHR '':'' \<notin> set (show_word p)" by (rule show_nat_no_char) (simp add: is_dec_digit_def)
  then have "rsplit_first (CHR '':'') (host @ '':'' @ show_word p) = show_word p" by simp
  with h show "resolve_listen_addr (host @ '':'' @ show_word p) = Inr (socket_addr_new (V4 0 0 0 0) p)"
    using parse_u16_show_word [of p] by (simp add: resolve_listen_addr_def)
qed

text \<open>
  C34. The redirect port is 80 for every TLS port below 443 and otherwise the TLS port less
  363: the saturating addition never saturates. It differs from the TLS port except at 80.
\<close>

theorem tls_redirect_port_exact:
  "unat (tls_redirect_port p) = (if unat p < 443 then 80 else unat p - 363)
   \<and> (tls_redirect_port p = p \<longleftrightarrow> p = 80)"
proof -
  have lt: "unat p < 65536" using unsigned_less [of p] by simp
  have le: "p < 443 \<longleftrightarrow> unat p < 443" by (simp add: word_less_nat_alt)
  have eq: "unat (tls_redirect_port p) = (if unat p < 443 then 80 else unat p - 363)"
  proof (cases "unat p < 443")
    case True
    then show ?thesis
      using le by (simp add: tls_redirect_port_def saturating_sub_def saturating_add_def)
  next
    case False
    then have "unat (p - 443) = unat p - 443" using le by (simp add: unat_sub_if')
    moreover have "p - 443 + 80 = p - 363" by simp
    moreover have "unat (p - 363) = unat p - 363"
      using False by (simp add: unat_sub_if' word_less_nat_alt)
    ultimately show ?thesis
      using False le lt by (simp add: tls_redirect_port_def saturating_sub_def saturating_add_def)
  qed
  have "tls_redirect_port p = p \<longleftrightarrow> unat (tls_redirect_port p) = unat p"
    by (simp add: word_unat_eq_iff)
  also have "\<dots> \<longleftrightarrow> unat p = 80" using eq by auto
  also have "\<dots> \<longleftrightarrow> p = 80" by (simp add: word_unat_eq_iff)
  finally show ?thesis using eq by blast
qed

lemma extract_hostname_plain:
  assumes "CHR '':'' \<notin> set host" "\<not> starts_with (host @ '':'' @ rest) ''[''"
  shows "extract_hostname (host @ '':'' @ rest) = host"
  using assms by (simp add: extract_hostname_def rsplit_back_takeWhile takeWhile_append)

lemma extract_hostname_bracket:
  assumes "CHR '']'' \<notin> set v6"
  shows "extract_hostname (''['' @ v6 @ '']'' @ rest) = v6"
  using assms by (simp add: extract_hostname_def starts_with_def str_find_char takeWhile_append)

end
