(* ===== verification/Config_Parser.thy ===== *)
theory Config_Parser
  imports Config_Address
begin

text \<open>
  The configuration file parser (\<open>src/config/parser.rs\<close>): durations, the forward-auth block
  builder, the line machine of \<open>from_str\<close> and the validation of listen sockets. A stack is a
  list whose head is the top. \<open>Panic\<close> is a failed \<open>expect\<close>; \<open>Fail\<close> is a returned error.
\<close>

section \<open>Data\<close>

record forward_auth_block =
  fb_to :: "string option"
  fb_request_headers :: "string list option"
  fb_response_headers :: "string list option"
  fb_failure_mode :: "failure_mode option"
  fb_timeout :: "u64 option"

record pending_block =
  directive_type :: string
  pb_args :: "string list"
  pb_connect_timeout :: "u64 option"
  pb_read_timeout :: "u64 option"
  pb_header_up :: "header_directive list"
  pb_forward_auth :: "forward_auth_block option"

record 'u parser_state =
  ps_sites :: "(string \<times> 'u site_config) list"
  ps_address :: "string option"
  ps_tls :: "tls_config option"
  ps_dirs :: "'u directive list list"
  ps_blocks :: "pending_block list"

datatype parse_stop = Panic string | Fail proxy_error

abbreviation parse_error :: "string \<Rightarrow> parse_stop + 'a" where
  "parse_error m \<equiv> Inl (Fail (Parse m))"

definition quoted :: "string \<Rightarrow> string" where
  "quoted t = [CHR 0x27] @ t @ [CHR 0x27]"

definition arg_or :: "parse_stop \<Rightarrow> nat \<Rightarrow> string list \<Rightarrow> parse_stop + string" where
  \<comment> \<open>\<open>args.get(i).cloned().ok_or_else(..)?\<close>\<close>
  "arg_or e i args = (if i < length args then Inr (args ! i) else Inl e)"

section \<open>Durations\<close>

definition duration_suffix :: "string \<Rightarrow> (string \<times> u64) option" where
  "duration_suffix s =
     (case strip_suffix s ''s'' of Some n \<Rightarrow> Some (n, 1)
      | None \<Rightarrow> (case strip_suffix s ''m'' of Some n \<Rightarrow> Some (n, 60)
      | None \<Rightarrow> (case strip_suffix s ''h'' of Some n \<Rightarrow> Some (n, 3600)
      | None \<Rightarrow> (case strip_suffix s ''d'' of Some n \<Rightarrow> Some (n, 86400)
      | None \<Rightarrow> None))))"

definition parse_duration :: "string \<Rightarrow> proxy_error + u64" where
  "parse_duration raw =
     (let s = str_trim raw
      in if s = [] then Inl (Parse ''Empty duration value'')
         else case parse_u64 s of
           Some secs \<Rightarrow> Inr secs
         | None \<Rightarrow>
             (case duration_suffix s of
                None \<Rightarrow> Inl (Parse (''Invalid duration '' @ quoted s @ ''. Use a plain number or Ns/Nm/Nh/Nd''))
              | Some (num_part, multiplier) \<Rightarrow>
                  (case parse_u64 num_part of
                     None \<Rightarrow> Inl (Parse (''Invalid numeric value in duration: '' @ quoted s))
                   | Some v \<Rightarrow> Inr (v * multiplier))))"

section \<open>Forward-auth blocks\<close>

definition parse_headers ::
  "('u, 'h, 'w) lib \<Rightarrow> nat \<Rightarrow> string \<Rightarrow> string list \<Rightarrow> parse_stop + string list" where
  "parse_headers L line what names =
     collect_res (\<lambda>n. ok_or (Fail (Parse (''Invalid header name '' @ quoted n @ '' in forward_auth '' @ what
         @ '' on line '' @ show_nat line))) (header_name_from_bytes L n)) names"

definition build_forward_auth ::
  "('u, 'h, 'w) lib \<Rightarrow> forward_auth_block \<Rightarrow> nat \<Rightarrow> parse_stop + 'u directive" where
  "build_forward_auth L pending line =
     res_bind (ok_or (Fail (Parse (''forward_auth block closed on line '' @ show_nat line @ '' is missing ''
        @ quoted ''to <url>''))) (fb_to pending)) (\<lambda>raw_to.
     res_bind (map_err (\<lambda>e. Fail (Parse (''forward_auth '' @ quoted ''to'' @ '' is not a valid URI on line ''
        @ show_nat line @ '': '' @ e))) (uri_parse L raw_to)) (\<lambda>uri.
     res_bind (map_err (\<lambda>e. Fail (Parse (''Invalid forward_auth '' @ quoted ''to'' @ '' URL '' @ quoted raw_to
        @ '' on line '' @ show_nat line @ '': '' @ e))) (normalize_auth_endpoint L uri)) (\<lambda>ep.
     res_bind (case fb_request_headers pending of
         Some names \<Rightarrow> parse_headers L line ''request_headers'' names
       | None \<Rightarrow> Inr default_request_headers) (\<lambda>rqh.
     res_bind (case fb_response_headers pending of
         Some names \<Rightarrow> parse_headers L line ''response_headers'' names
       | None \<Rightarrow> Inr []) (\<lambda>rsh.
     Inr (ForwardAuth \<lparr>endpoint = ep, request_headers = rqh, response_headers = rsh,
            fa_failure_mode = unwrap_or Closed (fb_failure_mode pending),
            timeout_secs = unwrap_or default_auth_timeout_secs (fb_timeout pending)\<rparr>))))))"

section \<open>Braces\<close>

definition empty_auth_block :: forward_auth_block where
  "empty_auth_block = \<lparr>fb_to = None, fb_request_headers = None, fb_response_headers = None,
     fb_failure_mode = None, fb_timeout = None\<rparr>"

definition open_block :: "string list \<Rightarrow> 'u parser_state \<Rightarrow> 'u parser_state" where
  \<comment> \<open>a line that ends in an opening brace, with its words\<close>
  "open_block parts st =
     (case parts of [] \<Rightarrow> st
      | w # ws \<Rightarrow>
          if length (ps_dirs st) = 1 \<and> ps_address st = None then st\<lparr>ps_address := Some w\<rparr>
          else st\<lparr>ps_blocks := \<lparr>directive_type = w, pb_args = filter (\<lambda>s. s \<noteq> ''{'') ws,
                     pb_connect_timeout = None, pb_read_timeout = None, pb_header_up = [],
                     pb_forward_auth = (if w = ''forward_auth'' then Some empty_auth_block else None)\<rparr> # ps_blocks st,
                  ps_dirs := [] # ps_dirs st\<rparr>)"

definition finish_block ::
  "('u, 'h, 'w) lib \<Rightarrow> nat \<Rightarrow> pending_block \<Rightarrow> 'u directive list \<Rightarrow> parse_stop + 'u directive" where
  "finish_block L line block finished =
     (if directive_type block = ''handle_path'' then
        Inr (HandlePath (unwrap_or [] (first_arg (pb_args block))) finished)
      else if directive_type block = ''method'' then Inr (Method (pb_args block) finished)
      else if directive_type block = ''reverse_proxy'' then
        Inr (ReverseProxy (unwrap_or [] (first_arg (pb_args block))) (pb_connect_timeout block)
               (pb_read_timeout block) (pb_header_up block))
      else if directive_type block = ''forward_auth'' then
        (if finished \<noteq> [] then
           parse_error (''Nested directives are not allowed inside a forward_auth block (line '' @ show_nat line
             @ ''). Allowed: to, request_headers, response_headers, failure_mode, timeout.'')
         else case pb_forward_auth block of
           None \<Rightarrow> parse_error ''internal error: forward_auth block state missing''
         | Some pending \<Rightarrow> build_forward_auth L pending line)
      else parse_error (''Unknown block type: '' @ directive_type block))"

definition push_directive :: "string \<Rightarrow> 'u directive \<Rightarrow> 'u parser_state \<Rightarrow> parse_stop + 'u parser_state" where
  \<comment> \<open>\<open>directive_stack.last_mut().expect(msg).push(d)\<close>\<close>
  "push_directive msg d st =
     (case ps_dirs st of
        [] \<Rightarrow> Inl (Panic msg)
      | ds # rest \<Rightarrow> Inr (st\<lparr>ps_dirs := (ds @ [d]) # rest\<rparr>))"

definition close_site :: "'u parser_state \<Rightarrow> parse_stop + 'u parser_state" where
  "close_site st =
     (case ps_address st of
        None \<Rightarrow> Inr st
      | Some addr \<Rightarrow>
          (case ps_dirs st of
             [] \<Rightarrow> Inl (Panic ''site directive_stack is non-empty'')
           | ds # rest \<Rightarrow>
               if map_of (ps_sites st) addr \<noteq> None then
                 parse_error (''Duplicate site address '' @ quoted addr
                   @ ''. Each address may appear only once in the configuration.'')
               else Inr (st\<lparr>ps_address := None, ps_tls := None,
                      ps_sites := ps_sites st @ [(addr, \<lparr>address = addr, directives = ds, tls = ps_tls st\<rparr>)],
                      ps_dirs := [] # rest\<rparr>)))"

definition close_block :: "('u, 'h, 'w) lib \<Rightarrow> nat \<Rightarrow> 'u parser_state \<Rightarrow> parse_stop + 'u parser_state" where
  "close_block L line st =
     (if 1 < length (ps_dirs st) then
        (case ps_dirs st of
           [] \<Rightarrow> Inl (Panic ''directive_stack has at least 2 elements'')
         | finished \<comment> \<open>popped\<close> # rest \<Rightarrow>
             (case ps_blocks st of
                [] \<Rightarrow> Inl (Panic ''block_stack has matching entry'')
              | block # blocks \<Rightarrow>
                  res_bind (finish_block L line block finished) (\<lambda>d.
                    push_directive ''directive_stack has parent after pop'' d
                      (st\<lparr>ps_dirs := rest, ps_blocks := blocks\<rparr>))))
      else close_site st)"

section \<open>Settings inside blocks\<close>

definition on_line :: "nat \<Rightarrow> string" where
  "on_line line = '' on line '' @ show_nat line"

definition duration_arg ::
  "parse_stop \<Rightarrow> string \<Rightarrow> nat \<Rightarrow> string list \<Rightarrow> parse_stop + u64" where
  "duration_arg missing what line args =
     res_bind (arg_or missing 0 args) (\<lambda>raw.
       map_err (\<lambda>e. Fail (Parse (''Invalid '' @ what @ on_line line @ '': '' @ show_proxy_error e)))
         (parse_duration raw))"

definition parse_failure_mode :: "nat \<Rightarrow> string \<Rightarrow> parse_stop + failure_mode" where
  "parse_failure_mode line raw =
     (if raw = ''closed'' then Inr Closed
      else if raw = ''open'' then Inr Open
      else parse_error (''Invalid failure_mode '' @ quoted raw @ on_line line
             @ ''. Expected '' @ quoted ''open'' @ '' or '' @ quoted ''closed''))"

definition forward_auth_setting ::
  "nat \<Rightarrow> string \<Rightarrow> string list \<Rightarrow> forward_auth_block \<Rightarrow> parse_stop + forward_auth_block" where
  "forward_auth_setting line name args pending =
     (if name = ''to'' then
        res_bind (arg_or (Fail (Parse (''Missing URL for forward_auth '' @ quoted ''to'' @ on_line line))) 0 args)
          (\<lambda>raw. Inr (pending\<lparr>fb_to := Some raw\<rparr>))
      else if name = ''request_headers'' \<or> name = ''response_headers'' then
        (if args = [] then parse_error (''Missing header names for '' @ quoted name @ on_line line)
         else if name = ''request_headers'' then Inr (pending\<lparr>fb_request_headers := Some args\<rparr>)
         else Inr (pending\<lparr>fb_response_headers := Some args\<rparr>))
      else if name = ''failure_mode'' then
        res_bind (arg_or (Fail (Parse (''Missing value for failure_mode'' @ on_line line))) 0 args) (\<lambda>raw.
        res_bind (parse_failure_mode line raw) (\<lambda>mode. Inr (pending\<lparr>fb_failure_mode := Some mode\<rparr>)))
      else if name = ''timeout'' then
        res_bind (duration_arg (Fail (Parse (''Missing value for forward_auth timeout'' @ on_line line)))
            ''forward_auth timeout'' line args)
          (\<lambda>d. Inr (pending\<lparr>fb_timeout := Some d\<rparr>))
      else parse_error (''Unexpected directive '' @ quoted name @ '' inside forward_auth block'' @ on_line line
             @ ''. Allowed: to, request_headers, response_headers, failure_mode, timeout.''))"

definition header_up_setting :: "nat \<Rightarrow> string list \<Rightarrow> parse_stop + header_directive" where
  "header_up_setting line args =
     res_bind (arg_or (Fail (Parse (''Missing header name for header_up'' @ on_line line))) 0 args) (\<lambda>raw_name.
       case strip_prefix raw_name ''-'' of
         Some name \<Rightarrow>
           if name = [] then
             parse_error (''Missing header name after '' @ quoted ''-'' @ '' in header_up'' @ on_line line)
           else Inr \<lparr>hd_name = name, hd_value = None\<rparr>
       | None \<Rightarrow>
           (let v = str_join '' '' (drop 1 args)
            in if v = [] then parse_error (''Missing value for header_up '' @ raw_name @ on_line line)
               else Inr \<lparr>hd_name = raw_name, hd_value = Some v\<rparr>))"

definition reverse_proxy_setting ::
  "nat \<Rightarrow> string \<Rightarrow> string list \<Rightarrow> pending_block \<Rightarrow> parse_stop + pending_block" where
  "reverse_proxy_setting line name args block =
     (if name = ''connect_timeout'' then
        res_bind (duration_arg (Fail (Parse ''Missing value for connect_timeout'')) ''connect_timeout'' line args)
          (\<lambda>d. Inr (block\<lparr>pb_connect_timeout := Some d\<rparr>))
      else if name = ''read_timeout'' then
        res_bind (duration_arg (Fail (Parse ''Missing value for read_timeout'')) ''read_timeout'' line args)
          (\<lambda>d. Inr (block\<lparr>pb_read_timeout := Some d\<rparr>))
      else if name = ''header_up'' then
        res_bind (header_up_setting line args) (\<lambda>d. Inr (block\<lparr>pb_header_up := pb_header_up block @ [d]\<rparr>))
      else parse_error (''Unexpected directive '' @ quoted name @ '' inside reverse_proxy block'' @ on_line line
             @ ''. Allowed: connect_timeout, read_timeout, header_up.''))"

definition tls_setting :: "nat \<Rightarrow> string list \<Rightarrow> 'u parser_state \<Rightarrow> parse_stop + 'u parser_state" where
  "tls_setting line args st =
     res_bind (arg_or (Fail (Parse (''Missing cert path for tls directive'' @ on_line line))) 0 args) (\<lambda>cert.
     res_bind (arg_or (Fail (Parse (''Missing key path for tls directive'' @ on_line line))) 1 args) (\<lambda>key.
       if ps_tls st \<noteq> None then
         parse_error (''Duplicate tls directive'' @ on_line line @ ''. Only one tls per site is allowed.'')
       else Inr (st\<lparr>ps_tls := Some \<lparr>cert_path = cert, key_path = key\<rparr>\<rparr>)))"

section \<open>Single-line directives\<close>

definition header_line :: "string list \<Rightarrow> parse_stop + 'u directive" where
  "header_line args =
     res_bind (arg_or (Fail (Parse (''Missing '' @ quoted ''name'' @ '' arg for header''))) 0 args) (\<lambda>raw_name.
       case strip_prefix raw_name ''-'' of
         Some name \<Rightarrow>
           if name = [] then parse_error (''Missing header name after '' @ quoted ''-'' @ '' for header removal'')
           else Inr (Header name None)
       | None \<Rightarrow>
           res_bind (arg_or (Fail (Parse (''Missing '' @ quoted ''value'' @ '' arg for header''))) 1 args)
             (\<lambda>v. Inr (Header raw_name (Some v))))"

definition redirect_line :: "string list \<Rightarrow> parse_stop + 'u directive" where
  "redirect_line args =
     (if 2 \<le> length args then
        (case parse_u16 (args ! 0) of
           None \<Rightarrow> parse_error (''Invalid status code for redirect: '' @ args ! 0)
         | Some status \<Rightarrow> Inr (Redirect status (str_join '' '' (drop 1 args))))
      else res_bind (arg_or (Fail (Parse (''Missing '' @ quoted ''url'' @ '' arg for redirect''))) 0 args)
             (\<lambda>url. Inr (Redirect 301 url)))"

definition simple_directive :: "nat \<Rightarrow> string \<Rightarrow> string list \<Rightarrow> parse_stop + 'u directive" where
  "simple_directive line name args =
     (if name = ''reverse_proxy'' then
        res_bind (arg_or (Fail (Parse ''Missing backend URL for reverse_proxy'')) 0 args)
          (\<lambda>to. Inr (ReverseProxy to None None []))
      else if name = ''uri_replace'' then
        res_bind (arg_or (Fail (Parse (''Missing '' @ quoted ''find'' @ '' arg for uri_replace''))) 0 args) (\<lambda>f.
        res_bind (arg_or (Fail (Parse (''Missing '' @ quoted ''replace'' @ '' arg for uri_replace''))) 1 args) (\<lambda>r.
          Inr (UriReplace f r)))
      else if name = ''header'' then header_line args
      else if name = ''respond'' then
        (case Option.bind (first_arg args) parse_u16 of
           None \<Rightarrow> parse_error ''Invalid status for respond''
         | Some status \<Rightarrow> Inr (Respond status (unwrap_or [] (first_arg (drop 1 args)))))
      else if name = ''strip_prefix'' then
        res_bind (arg_or (Fail (Parse (''Missing '' @ quoted ''prefix'' @ '' arg for strip_prefix''))) 0 args)
          (\<lambda>p. Inr (StripPrefix p))
      else if name = ''redirect'' then redirect_line args
      else parse_error (''Unknown directive '' @ quoted name @ on_line line))"

definition simple_line ::
  "nat \<Rightarrow> string \<Rightarrow> string list \<Rightarrow> 'u parser_state \<Rightarrow> parse_stop + 'u parser_state" where
  "simple_line line name args st =
     (if name = ''tls'' \<and> ps_blocks st = [] then tls_setting line args st
      else res_bind (simple_directive line name args) (\<lambda>d.
        push_directive ''directive_stack is non-empty'' d st))"

definition directive_line ::
  "nat \<Rightarrow> string \<Rightarrow> string list \<Rightarrow> 'u parser_state \<Rightarrow> parse_stop + 'u parser_state" where
  "directive_line line name args st =
     (case ps_blocks st of
        [] \<Rightarrow> simple_line line name args st
      | block # blocks \<Rightarrow>
          if directive_type block = ''forward_auth'' then
            (case pb_forward_auth block of
               None \<Rightarrow> parse_error ''internal error: forward_auth block state missing''
             | Some pending \<Rightarrow>
                 res_bind (forward_auth_setting line name args pending) (\<lambda>p.
                   Inr (st\<lparr>ps_blocks := block\<lparr>pb_forward_auth := Some p\<rparr> # blocks\<rparr>)))
          else if directive_type block = ''reverse_proxy'' then
            res_bind (reverse_proxy_setting line name args block) (\<lambda>b. Inr (st\<lparr>ps_blocks := b # blocks\<rparr>))
          else simple_line line name args st)"

section \<open>The line machine\<close>

definition parse_line ::
  "('u, 'h, 'w) lib \<Rightarrow> nat \<Rightarrow> string \<Rightarrow> 'u parser_state \<Rightarrow> parse_stop + 'u parser_state" where
  "parse_line L line_num raw_line st =
     (let line = str_trim raw_line; parts = split_whitespace line
      in if line = [] \<or> starts_with line ''#'' then Inr st
         else if ends_with line ''{'' then Inr (open_block parts st)
         else if line = ''}'' then close_block L (line_num + 1) st
         else case parts of [] \<Rightarrow> Inr st | name # args \<Rightarrow> directive_line (line_num + 1) name args st)"

fun parse_lines ::
  "('u, 'h, 'w) lib \<Rightarrow> nat \<Rightarrow> string list \<Rightarrow> 'u parser_state \<Rightarrow> parse_stop + 'u parser_state" where
  "parse_lines L n [] st = Inr st"
| "parse_lines L n (l # ls) st = res_bind (parse_line L n l st) (parse_lines L (n + 1) ls)"

definition init_state :: "'u parser_state" where
  "init_state = \<lparr>ps_sites = [], ps_address = None, ps_tls = None, ps_dirs = [[]], ps_blocks = []\<rparr>"

section \<open>Listen sockets\<close>

type_synonym sni_table = "socket_addr \<Rightarrow> (string \<rightharpoonup> string) option"

definition check_site ::
  "'u site_config \<Rightarrow> (socket_addr \<rightharpoonup> bool) \<times> sni_table \<Rightarrow> proxy_error + (socket_addr \<rightharpoonup> bool) \<times> sni_table" where
  "check_site site tables =
     (let (socket_tls, socket_sni) = tables
      in case resolve_listen_addr (address site) of
        Inl e \<Rightarrow> Inl (Parse e)
      | Inr listen_addr \<Rightarrow>
          (let is_tls = (tls site \<noteq> None)
           in if socket_tls listen_addr = Some (\<not> is_tls) then
                Inl (Parse (''Mixed TLS and non-TLS sites on the same listen address '' @ show_socket_addr listen_addr
                  @ '' is not supported. Site '' @ quoted (address site) @ '' is ''
                  @ (if is_tls then ''TLS'' else ''plain HTTP'') @ '' but conflicts with another site on this socket.''))
              else
                (let socket_tls' = (if socket_tls listen_addr = None then socket_tls(listen_addr \<mapsto> is_tls) else socket_tls)
                 in if is_tls then
                      (let sni = to_ascii_lowercase (extract_hostname (address site));
                           sni_map = unwrap_or Map.empty (socket_sni listen_addr)
                       in case sni_map sni of
                            Some existing \<Rightarrow>
                              Inl (Parse (''Duplicate SNI hostname '' @ quoted sni @ '' on listen address ''
                                @ show_socket_addr listen_addr @ '' (sites '' @ quoted existing @ '' and ''
                                @ quoted (address site) @ '')''))
                          | None \<Rightarrow>
                              Inr (socket_tls', socket_sni(listen_addr \<mapsto> sni_map(sni \<mapsto> address site))))
                    else Inr (socket_tls', socket_sni))))"

fun check_sites ::
  "'u site_config list \<Rightarrow> (socket_addr \<rightharpoonup> bool) \<times> sni_table \<Rightarrow> proxy_error + unit" where
  "check_sites [] tables = Inr ()"
| "check_sites (s # ss) tables = res_bind (check_site s tables) (check_sites ss)"

definition validate_listen_sockets :: "'u site_config list \<Rightarrow> proxy_error + unit" where
  "validate_listen_sockets values = check_sites values (Map.empty, Map.empty)"

section \<open>Entry points\<close>

definition from_str :: "('u, 'h, 'w) lib \<Rightarrow> string \<Rightarrow> parse_stop + 'u config" where
  "from_str L content =
     res_bind (parse_lines L 0 (str_lines content) init_state) (\<lambda>st.
     res_bind (map_err Fail (validate_listen_sockets (map snd (ps_sites st)))) (\<lambda>_.
       Inr \<lparr>sites = ps_sites st\<rparr>))"

definition from_file ::
  "('u, 'h, 'w) lib \<Rightarrow> (string \<Rightarrow> string + string) \<Rightarrow> string \<Rightarrow> parse_stop + 'u config" where
  \<comment> \<open>\<open>read_to_string\<close> is the file system's answer\<close>
  "from_file L read_to_string path =
     res_bind (map_err (\<lambda>e. Fail (Io e)) (read_to_string path)) (from_str L)"

end
