(* ===== verification/Config_Parser_Props.thy ===== *)
theory Config_Parser_Props
  imports Config_Parser
begin

text \<open>
  Correctness of the configuration parser: it never panics, its block stacks stay in step, the
  configuration it returns satisfies every guarantee that request handling relies on, and
  socket validation is exactly the pairwise condition it stands for.
\<close>

section \<open>Invariants of a line machine\<close>

text \<open>
  A loop over lines that threads a state and stops at the first error: a property that every
  line keeps holds at the end, and every error is one that some line may raise.
\<close>

locale line_machine =
  fixes line :: "nat \<Rightarrow> string \<Rightarrow> 's \<Rightarrow> 'e + 's"
    and run :: "nat \<Rightarrow> string list \<Rightarrow> 's \<Rightarrow> 'e + 's"
    and inv :: "'s \<Rightarrow> bool" and err :: "'e \<Rightarrow> bool"
  assumes run_Nil: "run n [] st = Inr st"
    and run_Cons: "run n (l # ls) st = res_bind (line n l st) (run (n + 1) ls)"
    and line_inv: "inv st \<Longrightarrow> res_all err inv (line n l st)"
begin

lemma run_inv: "inv st \<Longrightarrow> res_all err inv (run n ls st)"
proof (induction ls arbitrary: n st)
  case (Cons l ls)
  show ?case unfolding run_Cons by (rule res_all_bindI [OF line_inv [OF Cons.prems]]) (rule Cons.IH)
qed (simp add: run_Nil)

lemma run_append: "run n (xs @ ys) st = res_bind (run n xs st) (run (n + length xs) ys)"
proof (induction xs arbitrary: n st)
  case (Cons x xs)
  then show ?case by (cases "line n x st") (simp_all add: run_Cons)
qed (simp add: run_Nil)

end

section \<open>The invariant\<close>

text \<open>The two stacks stay in step and a forward-auth block always has its pending settings.\<close>

definition stacks_ok :: "'u parser_state \<Rightarrow> bool" where
  "stacks_ok st =
     (length (ps_dirs st) = length (ps_blocks st) + 1 \<and>
      list_all (\<lambda>b. directive_type b = ''forward_auth'' \<longrightarrow> pb_forward_auth b \<noteq> None) (ps_blocks st))"

definition dirs_ok :: "('u, 'h, 'w) lib \<Rightarrow> 'u directive list \<Rightarrow> bool" where
  "dirs_ok L ds = list_all (all_auth (valid_forward_auth L)) ds"

definition sites_ok :: "('u, 'h, 'w) lib \<Rightarrow> (string \<times> 'u site_config) list \<Rightarrow> bool" where
  "sites_ok L ss =
     (distinct (map fst ss) \<and> list_all (\<lambda>(k, s). address s = k \<and> dirs_ok L (directives s)) ss)"

definition parser_inv :: "('u, 'h, 'w) lib \<Rightarrow> 'u parser_state \<Rightarrow> bool" where
  "parser_inv L st = (stacks_ok st \<and> list_all (dirs_ok L) (ps_dirs st) \<and> sites_ok L (ps_sites st))"

text \<open>Errors the parser may return: no panic and no internal error.\<close>

fun user_error :: "parse_stop \<Rightarrow> bool" where
  "user_error (Fail (Parse m)) = (\<not> starts_with m ''internal error'')"
| "user_error (Fail _) = True"
| "user_error (Panic _) = False"

lemma starts_with_Cons [simp]: "starts_with (c # s) (d # p) = (c = d \<and> starts_with s p)"
  by (simp add: starts_with_def)

lemma outcome_arg_or [outcome_rules]:
  "res_all E P (arg_or e i args) = ((i < length args \<longrightarrow> P (args ! i)) \<and> (length args \<le> i \<longrightarrow> E e))"
  by (simp add: arg_or_def)

lemma outcome_duration:
  "user_error missing \<Longrightarrow> res_all user_error (\<lambda>_. True) (duration_arg missing what line args)"
  by (simp add: duration_arg_def outcome_rules)

lemma outcome_auth_setting:
  "res_all user_error (\<lambda>_. True) (forward_auth_setting line name args pending)"
  by (simp add: forward_auth_setting_def parse_failure_mode_def outcome_rules outcome_duration)

lemma outcome_reverse_proxy_setting:
  "res_all user_error (\<lambda>b. directive_type b = directive_type block \<and> pb_forward_auth b = pb_forward_auth block)
     (reverse_proxy_setting line name args block)"
  by (simp add: reverse_proxy_setting_def header_up_setting_def outcome_rules outcome_duration Let_def)

lemma outcome_simple_directive:
  "res_all user_error (all_auth P) (simple_directive line name args)"
  by (simp add: simple_directive_def header_line_def redirect_line_def outcome_rules)

lemma outcome_tls: "parser_inv L st \<Longrightarrow> res_all user_error (parser_inv L) (tls_setting line args st)"
  by (simp add: tls_setting_def outcome_rules parser_inv_def stacks_ok_def)

lemma outcome_push:
  assumes "parser_inv L st" "all_auth (valid_forward_auth L) d"
  shows "res_all user_error (parser_inv L) (push_directive m d st)"
  using assms by (auto simp: push_directive_def parser_inv_def stacks_ok_def dirs_ok_def split: list.splits)

lemma outcome_simple_line:
  "parser_inv L st \<Longrightarrow> res_all user_error (parser_inv L) (simple_line line name args st)"
  unfolding simple_line_def
  by (auto simp: outcome_tls intro!: res_all_bindI [OF outcome_simple_directive] outcome_push)

lemma outcome_directive_line:
  assumes "parser_inv L st"
  shows "res_all user_error (parser_inv L) (directive_line line name args st)"
proof (cases "ps_blocks st")
  case Nil
  then show ?thesis using outcome_simple_line [OF assms] by (simp add: directive_line_def)
next
  case (Cons block blocks)
  have keep: "parser_inv L (st\<lparr>ps_blocks := b # blocks\<rparr>)"
    if "directive_type b = ''forward_auth'' \<longrightarrow> pb_forward_auth b \<noteq> None" for b
    using assms Cons that by (simp add: parser_inv_def stacks_ok_def)
  have fa: "pb_forward_auth block \<noteq> None" if "directive_type block = ''forward_auth''"
    using assms Cons that by (simp add: parser_inv_def stacks_ok_def)
  show ?thesis
    using Cons fa outcome_simple_line [OF assms] keep
    by (auto simp: directive_line_def
        intro!: res_all_bindI [OF outcome_auth_setting] res_all_bindI [OF outcome_reverse_proxy_setting])
qed

lemma outcome_open_block: "parser_inv L st \<Longrightarrow> parser_inv L (open_block parts st)"
  by (auto simp: open_block_def parser_inv_def stacks_ok_def dirs_ok_def split: list.split)

lemma outcome_parse_headers:
  assumes "header_laws L"
  shows "res_all user_error (valid_header_names L) (parse_headers L line what names)"
  unfolding parse_headers_def valid_header_names_def
  using header_laws.name_idem [OF assms]
  by (intro res_all_collect) (auto simp: outcome_rules split: option.split)

lemma outcome_build_forward_auth:
  assumes laws: "http_laws L"
  shows "res_all user_error (all_auth (valid_forward_auth L)) (build_forward_auth L pending line)"
proof -
  note hl = http_laws.axioms(1) [OF laws] and ul = http_laws.axioms(2) [OF laws]
  have hs: "res_all user_error (valid_header_names L) (case o' of Some names \<Rightarrow> parse_headers L line what names | None \<Rightarrow> Inr d)"
    if "valid_header_names L d" for o' what d
    using that outcome_parse_headers [OF hl] by (simp split: option.split)
  have nil: "valid_header_names L []" by (simp add: valid_header_names_def)
  show ?thesis
    unfolding build_forward_auth_def
    apply (rule res_all_bindI [where P = "\<lambda>_. True"])
     apply (simp add: outcome_rules split: option.split)
    apply (rule res_all_bindI [where P = "\<lambda>_. True"])
     apply (simp add: outcome_rules)
    apply (rule res_all_bindI [where P = "valid_auth_endpoint L"])
     apply (auto simp: outcome_rules intro!: res_allI dest!: normalize_valid [OF ul])[1]
    apply (rule res_all_bindI [OF hs [OF default_request_headers_valid [OF hl]]])
    apply (rule res_all_bindI [OF hs [OF nil]])
    apply (simp add: valid_forward_auth_def)
    done
qed

lemma outcome_finish_block:
  assumes "http_laws L" "dirs_ok L finished" "directive_type block = ''forward_auth'' \<longrightarrow> pb_forward_auth block \<noteq> None"
  shows "res_all user_error (all_auth (valid_forward_auth L)) (finish_block L line block finished)"
  using assms outcome_build_forward_auth [OF assms(1)]
  by (auto simp: finish_block_def dirs_ok_def)

lemma outcome_close_site:
  assumes "parser_inv L st"
  shows "res_all user_error (parser_inv L) (close_site st)"
  using assms
  by (auto simp: close_site_def parser_inv_def stacks_ok_def sites_ok_def dirs_ok_def quoted_def map_of_eq_None_iff
      split: option.splits list.splits)

lemma outcome_close_block:
  assumes laws: "http_laws L" and inv: "parser_inv L st"
  shows "res_all user_error (parser_inv L) (close_block L line st)"
proof (cases "1 < length (ps_dirs st)")
  case True
  then obtain finished rest block blocks where d: "ps_dirs st = finished # rest" and b: "ps_blocks st = block # blocks"
    using inv by (cases "ps_dirs st"; cases "ps_blocks st") (auto simp: parser_inv_def stacks_ok_def)
  have st': "parser_inv L (st\<lparr>ps_dirs := rest, ps_blocks := blocks\<rparr>)"
    using inv d b by (simp add: parser_inv_def stacks_ok_def)
  have "res_all user_error (all_auth (valid_forward_auth L)) (finish_block L line block finished)"
    using inv d b by (intro outcome_finish_block [OF laws]) (simp_all add: parser_inv_def stacks_ok_def)
  then show ?thesis
    using True d b outcome_push [OF st'] by (auto simp: close_block_def intro: res_all_bindI)
qed (simp add: close_block_def outcome_close_site [OF inv])

lemma outcome_parse_line:
  assumes "http_laws L" "parser_inv L st"
  shows "res_all user_error (parser_inv L) (parse_line L n l st)"
  using assms outcome_open_block outcome_close_block outcome_directive_line
  by (auto simp: parse_line_def Let_def split: list.split)

lemma parser_inv_init: "parser_inv L init_state"
  by (simp add: init_state_def parser_inv_def stacks_ok_def dirs_ok_def sites_ok_def)

section \<open>Listen sockets\<close>

text \<open>
  The condition on a configuration: every address resolves, and two sites on the same socket are
  both TLS or both plain, and when they are TLS their host names differ.
\<close>

definition site_socket :: "'u site_config \<Rightarrow> string + socket_addr" where
  "site_socket s = resolve_listen_addr (address s)"

definition site_sni :: "'u site_config \<Rightarrow> string" where
  "site_sni s = to_ascii_lowercase (extract_hostname (address s))"

definition compatible :: "'u site_config \<Rightarrow> 'u site_config \<Rightarrow> bool" where
  "compatible s t =
     (site_socket s = site_socket t \<longrightarrow>
        (tls s = None) = (tls t = None) \<and> (tls s \<noteq> None \<longrightarrow> site_sni s \<noteq> site_sni t))"

definition sockets_ok :: "'u site_config list \<Rightarrow> bool" where
  "sockets_ok ss = (list_all (\<lambda>s. is_ok (site_socket s)) ss \<and> sorted_wrt compatible ss)"

lemma compatible_sym: "compatible s t = compatible t s"
  by (auto simp: compatible_def)

lemma sockets_ok_distinct:
  assumes "distinct ss"
  shows "sockets_ok ss \<longleftrightarrow> (\<forall>s \<in> set ss. is_ok (site_socket s)) \<and> (\<forall>s \<in> set ss. \<forall>t \<in> set ss. s \<noteq> t \<longrightarrow> compatible s t)"
  using sorted_wrt_symmetric [of compatible, OF compatible_sym assms] by (simp add: sockets_ok_def list_all_iff)

text \<open>The tables after the sites \<open>seen\<close>.\<close>

definition tables_ok :: "'u site_config list \<Rightarrow> (socket_addr \<rightharpoonup> bool) \<times> sni_table \<Rightarrow> bool" where
  "tables_ok seen tables =
     ((\<forall>a b. fst tables a = Some b \<longleftrightarrow> (\<exists>s \<in> set seen. site_socket s = Inr a \<and> (tls s \<noteq> None) = b)) \<and>
      (\<forall>a h. unwrap_or Map.empty (snd tables a) h \<noteq> None
         \<longleftrightarrow> (\<exists>s \<in> set seen. site_socket s = Inr a \<and> tls s \<noteq> None \<and> site_sni s = h)))"

lemma check_site_iff:
  assumes t: "tables_ok seen tables"
  shows "is_ok (check_site s tables) \<longleftrightarrow> is_ok (site_socket s) \<and> (\<forall>x \<in> set seen. compatible x s)"
    and "check_site s tables = Inr tables' \<Longrightarrow> tables_ok (seen @ [s]) tables'"
proof -
  obtain st sn where tab: "tables = (st, sn)" by fastforce
  note t1 = t [unfolded tables_ok_def tab fst_conv, THEN conjunct1, rule_format]
  note t2 = t [unfolded tables_ok_def tab snd_conv, THEN conjunct2, rule_format]
  show "is_ok (check_site s tables) \<longleftrightarrow> is_ok (site_socket s) \<and> (\<forall>x \<in> set seen. compatible x s)"
  proof (cases "site_socket s")
    case (Inr a)
    have "st a = Some (\<not> tls s \<noteq> None) \<longleftrightarrow> (\<exists>x \<in> set seen. site_socket x = Inr a \<and> (tls x = None) \<noteq> (tls s = None))"
      using t1 [of a "\<not> tls s \<noteq> None"] by auto
    moreover have "unwrap_or Map.empty (sn a) (site_sni s) \<noteq> None
        \<longleftrightarrow> (\<exists>x \<in> set seen. site_socket x = Inr a \<and> tls x \<noteq> None \<and> site_sni x = site_sni s)"
      by (rule t2)
    ultimately show ?thesis
      using Inr unfolding tab check_site_def compatible_def site_sni_def [of s, symmetric] site_socket_def [of s, symmetric]
      by (auto simp: Let_def split: option.splits if_splits)
  qed (simp add: tab check_site_def site_socket_def [symmetric])
  assume ok: "check_site s tables = Inr tables'"
  then obtain a where a: "site_socket s = Inr a"
    by (auto simp: tab check_site_def site_socket_def Let_def split: sum.splits)
  let ?sec = "tls s \<noteq> None"
  let ?sn = "if ?sec then sn(a \<mapsto> (unwrap_or Map.empty (sn a))(site_sni s \<mapsto> address s)) else sn"
  have "tables' = (st(a \<mapsto> ?sec), ?sn)"
    using ok a unfolding tab check_site_def site_socket_def [of s, symmetric] site_sni_def [of s, symmetric]
    by (auto simp: Let_def fun_eq_iff split: if_splits option.splits)
  moreover have "st a \<noteq> Some (\<not> ?sec)"
    using ok a unfolding tab check_site_def site_socket_def [of s, symmetric] by (auto simp: Let_def split: if_splits)
  then have "(st(a \<mapsto> ?sec)) c = Some b \<longleftrightarrow> (\<exists>x \<in> set (seen @ [s]). site_socket x = Inr c \<and> (tls x \<noteq> None) = b)" for c b
    using t1 [of c b] t1 [of a "\<not> ?sec"] a by auto
  moreover have "unwrap_or Map.empty (?sn c) h \<noteq> None
      \<longleftrightarrow> (\<exists>x \<in> set (seen @ [s]). site_socket x = Inr c \<and> tls x \<noteq> None \<and> site_sni x = h)" for c h
    using t2 [of c h] a by auto
  ultimately show "tables_ok (seen @ [s]) tables'" by (simp add: tables_ok_def)
qed

lemma check_sites_iff:
  "tables_ok seen tables \<Longrightarrow>
     is_ok (check_sites ss tables) \<longleftrightarrow> sockets_ok ss \<and> (\<forall>x \<in> set seen. \<forall>s \<in> set ss. compatible x s)"
proof (induction ss arbitrary: seen tables)
  case Nil
  then show ?case by (simp add: sockets_ok_def)
next
  case (Cons s ss)
  note iff = check_site_iff(1) [OF Cons.prems, of s]
  show ?case
  proof (cases "check_site s tables")
    case (Inl e)
    then show ?thesis using iff by (auto simp: sockets_ok_def)
  next
    case (Inr tables')
    from Cons.IH [OF check_site_iff(2) [OF Cons.prems Inr]] iff Inr show ?thesis
      by (auto simp: sockets_ok_def)
  qed
qed

text \<open>
  C18. Socket validation accepts a configuration exactly when every address resolves and any two
  sites on one socket are both TLS or both plain, TLS sites with different host names. The
  one-pass check with its two tables is that pairwise condition.
\<close>

theorem validate_listen_sockets_iff: "is_ok (validate_listen_sockets ss) \<longleftrightarrow> sockets_ok ss"
  using check_sites_iff [of "[]" "(Map.empty, Map.empty)" ss]
  by (simp add: validate_listen_sockets_def tables_ok_def)

section \<open>Parsing a file\<close>

text \<open>The line loop of \<open>from_str\<close> keeps the invariant, for every instance of the libraries.\<close>

lemma parse_line_machine:
  assumes "http_laws L"
  shows "line_machine (parse_line L) (parse_lines L) (parser_inv L) user_error"
  by unfold_locales (simp_all add: outcome_parse_line [OF assms])

interpretation ref_parser: line_machine "parse_line ref_lib" "parse_lines ref_lib" "parser_inv ref_lib" user_error
  by (rule parse_line_machine) (rule ref_http.http_laws_axioms)

lemma outcome_check_site: "res_all (\<lambda>e. user_error (Fail e)) (\<lambda>_. True) (check_site s tables)"
  by (auto simp: check_site_def resolve_listen_addr_def Let_def split: prod.split option.splits sum.splits)

lemma outcome_check_sites: "res_all (\<lambda>e. user_error (Fail e)) (\<lambda>_. True) (check_sites ss tables)"
  by (induction ss arbitrary: tables) (auto intro: res_all_bindI [OF outcome_check_site])

text \<open>
  C17. The parser never panics and never reports an internal error, whatever the text is: the
  block stack and the directive stack stay in step, so every \<open>expect\<close> holds and every
  forward-auth block has its settings.
\<close>

theorem from_str_never_panics:
  assumes "http_laws L"
  shows "from_str L content \<noteq> Inl (Panic m)
     \<and> from_str L content \<noteq> parse_error ''internal error: forward_auth block state missing''"
proof -
  note run = line_machine.run_inv [OF parse_line_machine [OF assms] parser_inv_init, of 0 "str_lines content"]
  have "res_all user_error (\<lambda>_. True) (map_err Fail (validate_listen_sockets ss))" for ss :: "'a site_config list"
    by (simp add: validate_listen_sockets_def outcome_rules outcome_check_sites)
  then have "res_all user_error (\<lambda>_. True) (from_str L content)"
    unfolding from_str_def
    by (intro res_all_bindI [OF run] res_all_bindI [where P = "\<lambda>_. True"]) simp_all
  then show ?thesis by (cases "from_str L content") (auto simp: starts_with_def)
qed

theorem from_str_never_panics_witness:
  "from_str ref_lib ''}'' \<noteq> (Inl (Panic ''block_stack has matching entry'') :: parse_stop + ref_uri config)"
  using from_str_never_panics [OF ref_http.http_laws_axioms] by blast

lemma from_str_sound:
  assumes laws: "http_laws L" and ok: "from_str L content = Inr c"
  shows "valid_config L c \<and> distinct (map fst (sites c)) \<and> (\<forall>(k, s) \<in> set (sites c). address s = k)
     \<and> sockets_ok (sites_values c)"
proof -
  note run = line_machine.run_inv [OF parse_line_machine [OF laws] parser_inv_init, of 0 "str_lines content"]
  obtain st where st: "parse_lines L 0 (str_lines content) init_state = Inr st" and c: "c = \<lparr>sites = ps_sites st\<rparr>"
    and v: "is_ok (validate_listen_sockets (map snd (ps_sites st)))"
    using ok by (auto simp: from_str_def res_bind_Inr_iff is_ok_iff)
  have "sites_ok L (sites c)" using run st c by (simp add: parser_inv_def)
  moreover have "sockets_ok (sites_values c)"
    using v check_sites_iff [of "[]" "(Map.empty, Map.empty)" "map snd (ps_sites st)"] c
    by (simp add: validate_listen_sockets_def tables_ok_def sites_values_def)
  ultimately show ?thesis
    by (auto simp: sites_ok_def valid_config_def dirs_ok_def list_all_iff)
qed

text \<open>
  C16. Every configuration the parser accepts has the guarantees that request handling relies on:
  the keys of the site map are distinct and are the addresses of their sites, every forward-auth
  endpoint is an absolute HTTP or HTTPS address with a host and a path, every configured header
  name is a valid one in canonical form, and the listen sockets are consistent.
\<close>

theorem from_str_valid:
  assumes "http_laws L" and "from_str L content = Inr c"
  shows "valid_config L c \<and> distinct (map fst (sites c)) \<and> (\<forall>(k, s) \<in> set (sites c). address s = k)
     \<and> sockets_ok (sites_values c)"
  by (rule from_str_sound [OF assms])

end
