(* ===== verification/Config_Print.thy ===== *)
theory Config_Print
  imports Config_Parser_Props
begin

text \<open>
  Round trip of the configuration file format: a printer for configurations, and the proof that
  the parser reads back exactly what was printed.
\<close>

section \<open>Words and lines\<close>

definition word_char :: "char \<Rightarrow> bool" where
  "word_char c = (let n = (of_char c :: nat) in 33 \<le> n \<and> n < 127)"

definition is_word :: "string \<Rightarrow> bool" where
  "is_word w = (w \<noteq> [] \<and> list_all word_char w)"

lemma word_char_ws: "word_char c \<Longrightarrow> ws_len (c # s) = 0"
  by (auto simp: word_char_def Let_def ws_len_ascii ascii_ws_def)

lemma split_ws_word: "list_all word_char w \<Longrightarrow> split_ws cur (w @ s) = split_ws (rev w @ cur) s"
proof (induction w arbitrary: cur)
  case (Cons c w)
  then show ?case by (subst split_ws.simps) (simp add: word_char_ws)
qed simp

lemma split_ws_end: "cur \<noteq> [] \<Longrightarrow> split_ws cur [] = [rev cur]"
  by (subst split_ws.simps) simp

lemma split_ws_space: "cur \<noteq> [] \<Longrightarrow> split_ws cur (CHR '' '' # s) = rev cur # split_ws [] s"
  by (subst split_ws.simps) (simp add: ws_len_ascii ascii_ws_def)

lemma split_whitespace_join: "list_all is_word ws \<Longrightarrow> split_whitespace (str_join '' '' ws) = ws"
proof (induction "'' ''" ws rule: str_join.induct)
  case 1
  then show ?case by (simp add: split_whitespace_def split_ws.simps)
next
  case (2 w)
  then show ?case
    using split_ws_word [of w "[]" "[]"] by (simp add: split_whitespace_def is_word_def split_ws_end)
next
  case (3 w v vs)
  then show ?case
    using split_ws_word [of w "[]" "CHR '' '' # str_join '' '' (v # vs)"]
    by (simp add: split_whitespace_def is_word_def split_ws_space)
qed

lemma ws_len_all: "0 < length s \<Longrightarrow> ws_len s = length s \<Longrightarrow> \<not> word_char (last s)"
  by (auto simp: ws_len_def word_char_def ascii_ws_def ws_tail3_def Let_def split: list.splits if_splits)

lemma trim_start_last: "trim_start s = [] \<Longrightarrow> s \<noteq> [] \<Longrightarrow> \<not> word_char (last s)"
proof (induction s rule: trim_start.induct)
  case (1 s)
  show ?case
  proof (cases "0 < ws_len s")
    case True
    then have t: "trim_start (drop (ws_len s) s) = []" using "1.prems"(1) by (subst (asm) trim_start.simps) simp
    show ?thesis
    proof (cases "drop (ws_len s) s = []")
      case True
      then have "ws_len s = length s" using ws_len_le [of s] by simp
      then show ?thesis using ws_len_all "1.prems"(2) by auto
    next
      case False
      then show ?thesis using "1.IH" [OF True t] by (simp add: last_drop)
    qed
  next
    case False
    then show ?thesis using "1.prems" by (subst (asm) trim_start.simps) simp
  qed
qed

lemma trim_end_fixed: "s \<noteq> [] \<Longrightarrow> word_char (last s) \<Longrightarrow> trim_end s = s"
proof (induction s)
  case (Cons c s)
  have "trim_start (c # s) \<noteq> []" using trim_start_last [of "c # s"] Cons.prems by blast
  with Cons show ?case by (cases "s = []") auto
qed simp

lemma trim_fixed: "s \<noteq> [] \<Longrightarrow> word_char (hd s) \<Longrightarrow> word_char (last s) \<Longrightarrow> str_trim s = s"
  unfolding str_trim_def
  by (metis list.collapse trim_end_fixed trim_start_fixed word_char_ws)

lemma join_ends:
  assumes "ws \<noteq> []" "list_all is_word ws"
  shows "str_join '' '' ws \<noteq> []" "hd (str_join '' '' ws) = hd (hd ws)" "last (str_join '' '' ws) = last (last ws)"
proof -
  have "str_join '' '' ws \<noteq> [] \<and> hd (str_join '' '' ws) = hd (hd ws) \<and> last (str_join '' '' ws) = last (last ws)"
    using assms by (induction "'' ''" ws rule: str_join.induct) (auto simp: is_word_def)
  then show "str_join '' '' ws \<noteq> []" "hd (str_join '' '' ws) = hd (hd ws)" "last (str_join '' '' ws) = last (last ws)"
    by blast+
qed

lemma word_ends: "is_word w \<Longrightarrow> word_char (hd w) \<and> word_char (last w)"
  by (cases w) (auto simp: is_word_def list_all_iff)

lemma trim_join:
  assumes "ws \<noteq> []" "list_all is_word ws"
  shows "str_trim (str_join '' '' ws) = str_join '' '' ws"
proof -
  have "is_word (hd ws)" "is_word (last ws)" using assms by (simp_all add: list_all_iff)
  then show ?thesis using join_ends [OF assms] word_ends by (intro trim_fixed) metis+
qed

text \<open>What the parser does with a line of words.\<close>

definition line_words :: "string list \<Rightarrow> bool" where
  "line_words ws = (ws \<noteq> [] \<and> list_all is_word ws \<and> hd (hd ws) \<noteq> CHR ''#'')"

lemma parse_line_words:
  assumes w: "line_words ws"
  shows "parse_line L n (str_join '' '' ws) st =
    (if last (last ws) = CHR ''{'' then Inr (open_block ws st)
     else if ws = [''}''] then close_block L (n + 1) st
     else directive_line (n + 1) (hd ws) (tl ws) st)"
proof -
  have ws: "ws \<noteq> []" "list_all is_word ws" and hash: "hd (hd ws) \<noteq> CHR ''#''" using w by (simp_all add: line_words_def)
  note j = join_ends [OF ws] and sp = split_whitespace_join [OF ws(2)] and tr = trim_join [OF ws]
  let ?l = "str_join '' '' ws"
  have st: "\<not> starts_with ?l ''#''" using j hash by (cases ?l) (auto simp: starts_with_def)
  have en: "ends_with ?l ''{'' = (last (last ws) = CHR ''{'')"
    using j by (cases ?l rule: rev_cases) (auto simp: ends_with_iff)
  have cl: "?l = ''}'' \<longleftrightarrow> ws = [''}'']"
    using sp split_whitespace_join [of "[''}'']"] by (auto simp: is_word_def word_char_def)
  show ?thesis
    unfolding parse_line_def Let_def tr sp using j(1) st en cl ws(1) by (simp split: list.split)
qed

section \<open>The printer\<close>

text \<open>A printed directive is a list of lines, each a list of words.\<close>

definition timeout_line :: "string \<Rightarrow> u64 option \<Rightarrow> string list list" where
  "timeout_line name d = (case d of None \<Rightarrow> [] | Some v \<Rightarrow> [[name, show_word v]])"

definition header_up_line :: "header_directive \<Rightarrow> string list" where
  "header_up_line d =
     (case hd_value d of
        None \<Rightarrow> [''header_up'', ''-'' @ hd_name d]
      | Some v \<Rightarrow> ''header_up'' # hd_name d # split_whitespace v)"

definition mode_word :: "failure_mode \<Rightarrow> string" where
  "mode_word m = (case m of Closed \<Rightarrow> ''closed'' | Open \<Rightarrow> ''open'')"

fun dir_lines :: "('u \<Rightarrow> string) \<Rightarrow> 'u directive \<Rightarrow> string list list" where
  "dir_lines show_uri (ReverseProxy to ct rt up) =
     (if ct = None \<and> rt = None \<and> up = [] then [[''reverse_proxy'', to]]
      else [''reverse_proxy'', to, ''{''] # timeout_line ''connect_timeout'' ct @ timeout_line ''read_timeout'' rt
             @ map header_up_line up @ [[''}'']])"
| "dir_lines show_uri (HandlePath p ds) =
     [''handle_path'', p, ''{''] # concat (map (dir_lines show_uri) ds) @ [[''}'']]"
| "dir_lines show_uri (UriReplace a b) = [[''uri_replace'', a, b]]"
| "dir_lines show_uri (Header n v) =
     (case v of None \<Rightarrow> [[''header'', ''-'' @ n]] | Some x \<Rightarrow> [[''header'', n, x]])"
| "dir_lines show_uri (Method ms ds) =
     (''method'' # ms @ [''{'']) # concat (map (dir_lines show_uri) ds) @ [[''}'']]"
| "dir_lines show_uri (StripPrefix p) = [[''strip_prefix'', p]]"
| "dir_lines show_uri (Redirect st url) = [[''redirect'', show_word st, url]]"
| "dir_lines show_uri (Respond st b) = [[''respond'', show_word st] @ (if b = [] then [] else [b])]"
| "dir_lines show_uri (ForwardAuth cfg) =
     [''forward_auth'', ''{''] # [''to'', show_uri (endpoint cfg)] # (''request_headers'' # request_headers cfg)
     # (if response_headers cfg = [] then [] else [''response_headers'' # response_headers cfg])
     @ [[''failure_mode'', mode_word (fa_failure_mode cfg)], [''timeout'', show_word (timeout_secs cfg)], [''}'']]"

definition site_lines :: "('u \<Rightarrow> string) \<Rightarrow> 'u site_config \<Rightarrow> string list list" where
  "site_lines show_uri s =
     [address s, ''{''] # (case tls s of None \<Rightarrow> [] | Some t \<Rightarrow> [[''tls'', cert_path t, key_path t]])
     @ concat (map (dir_lines show_uri) (directives s)) @ [[''}'']]"

definition config_lines :: "('u \<Rightarrow> string) \<Rightarrow> 'u config \<Rightarrow> string list list" where
  "config_lines show_uri c = concat (map (site_lines show_uri) (sites_values c))"

definition print_config :: "('u \<Rightarrow> string) \<Rightarrow> 'u config \<Rightarrow> string" where
  "print_config show_uri c = concat (map (\<lambda>ws. str_join '' '' ws @ [CHR 0x0A]) (config_lines show_uri c))"

text \<open>
  What can be printed: arguments are words, the last word of a line does not end in an opening
  brace, a header name that is set does not start with a minus sign, and the request headers of
  a forward-auth block are not empty (the format has no way to write that).
\<close>

definition plain :: "string \<Rightarrow> bool" where
  "plain w = (is_word w \<and> last w \<noteq> CHR ''{'')"

definition header_up_ok :: "header_directive \<Rightarrow> bool" where
  "header_up_ok d =
     (case hd_value d of
        None \<Rightarrow> plain (hd_name d)
      | Some v \<Rightarrow>
          is_word (hd_name d) \<and> hd (hd_name d) \<noteq> CHR ''-'' \<and> list_all is_word (split_whitespace v)
          \<and> split_whitespace v \<noteq> [] \<and> plain (last (split_whitespace v)) \<and> str_join '' '' (split_whitespace v) = v)"

fun printable :: "('u, 'h, 'w) lib \<Rightarrow> ('u \<Rightarrow> string) \<Rightarrow> 'u directive \<Rightarrow> bool" where
  "printable L show_uri (ReverseProxy to ct rt up) = (plain to \<and> list_all header_up_ok up)"
| "printable L show_uri (HandlePath p ds) = (is_word p \<and> p \<noteq> ''{'' \<and> list_all (printable L show_uri) ds)"
| "printable L show_uri (UriReplace a b) = (is_word a \<and> plain b)"
| "printable L show_uri (Header n v) =
     (case v of None \<Rightarrow> plain n | Some x \<Rightarrow> is_word n \<and> hd n \<noteq> CHR ''-'' \<and> plain x)"
| "printable L show_uri (Method ms ds) =
     (list_all (\<lambda>m. is_word m \<and> m \<noteq> ''{'') ms \<and> list_all (printable L show_uri) ds)"
| "printable L show_uri (StripPrefix p) = plain p"
| "printable L show_uri (Redirect st url) = plain url"
| "printable L show_uri (Respond st b) = (b = [] \<or> plain b)"
| "printable L show_uri (ForwardAuth cfg) =
     (plain (show_uri (endpoint cfg)) \<and> uri_parse L (show_uri (endpoint cfg)) = Inr (endpoint cfg)
      \<and> valid_forward_auth L cfg \<and> request_headers cfg \<noteq> []
      \<and> list_all plain (request_headers cfg) \<and> list_all plain (response_headers cfg))"

definition printable_site :: "('u, 'h, 'w) lib \<Rightarrow> ('u \<Rightarrow> string) \<Rightarrow> 'u site_config \<Rightarrow> bool" where
  "printable_site L show_uri s =
     (is_word (address s) \<and> hd (address s) \<noteq> CHR ''#''
      \<and> (case tls s of None \<Rightarrow> True | Some t \<Rightarrow> is_word (cert_path t) \<and> plain (key_path t))
      \<and> list_all (printable L show_uri) (directives s))"

definition printable_config :: "('u, 'h, 'w) lib \<Rightarrow> ('u \<Rightarrow> string) \<Rightarrow> 'u config \<Rightarrow> bool" where
  "printable_config L show_uri c =
     (distinct (map fst (sites c)) \<and> list_all (\<lambda>(k, s). address s = k \<and> printable_site L show_uri s) (sites c)
      \<and> sockets_ok (sites_values c))"

section \<open>Running the parser on words\<close>

definition run_words ::
  "('u, 'h, 'w) lib \<Rightarrow> nat \<Rightarrow> string list list \<Rightarrow> 'u parser_state \<Rightarrow> parse_stop + 'u parser_state" where
  "run_words L n wss st = parse_lines L n (map (str_join '' '') wss) st"

lemma run_words_Nil [simp]: "run_words L n [] st = Inr st"
  by (simp add: run_words_def)

lemma parse_line_machine_any: "line_machine (parse_line L) (parse_lines L) (\<lambda>_. True) (\<lambda>_. True)"
  by unfold_locales simp_all

lemma run_words_append:
  "run_words L n (xs @ ys) st = res_bind (run_words L n xs st) (run_words L (n + length xs) ys)"
  using line_machine.run_append [OF parse_line_machine_any, of L n "map (str_join '' '') xs" "map (str_join '' '') ys" st]
  by (simp add: run_words_def [abs_def])

lemma run_words_Cons:
  "line_words ws \<Longrightarrow> run_words L n (ws # wss) st =
     res_bind (if last (last ws) = CHR ''{'' then Inr (open_block ws st)
       else if ws = [''}''] then close_block L (n + 1) st
       else directive_line (n + 1) (hd ws) (tl ws) st) (run_words L (n + 1) wss)"
  by (simp add: parse_line_words run_words_def [abs_def])

definition key_words :: "string list" where
  "key_words = [''reverse_proxy'', ''handle_path'', ''uri_replace'', ''header'', ''method'', ''strip_prefix'', ''redirect'',
     ''respond'', ''forward_auth'', ''to'', ''request_headers'', ''response_headers'', ''failure_mode'', ''timeout'',
     ''connect_timeout'', ''read_timeout'', ''header_up'', ''tls'', ''closed'', ''open'', ''{'', ''}'']"

lemma key_words_words: "list_all is_word key_words"
  by code_simp

lemmas word_facts = key_words_words [unfolded key_words_def list.pred_inject]

lemma keyword_word: "k \<in> set key_words \<Longrightarrow> is_word k"
  using key_words_words by (simp add: list_all_iff)

lemma keyword_line: "k \<in> set key_words \<Longrightarrow> list_all is_word ws \<Longrightarrow> line_words (k # ws)"
proof -
  have "list_all (\<lambda>k. hd k \<noteq> CHR ''#'') key_words" by code_simp
  then show "k \<in> set key_words \<Longrightarrow> list_all is_word ws \<Longrightarrow> line_words (k # ws)"
    using keyword_word by (simp add: line_words_def list_all_iff)
qed

lemma show_nat_word: "is_word (show_nat n)" "last (show_nat n) \<noteq> CHR ''{''" "plain (show_nat n)"
proof -
  have d: "list_all is_dec_digit (show_nat n)" "show_nat n \<noteq> []" using show_nat_digits [of n] by simp_all
  then show w: "is_word (show_nat n)"
    by (auto simp: is_word_def list_all_iff is_dec_digit_def word_char_def Let_def)
  have "is_dec_digit (last (show_nat n))" using d by (simp add: list_all_iff)
  then show "last (show_nat n) \<noteq> CHR ''{''" by (auto simp: is_dec_digit_def)
  with w show "plain (show_nat n)" by (simp add: plain_def)
qed

lemma word_trim: "is_word w \<Longrightarrow> str_trim w = w"
  using trim_join [of "[w]"] by (simp add: is_word_def)

lemma parse_duration_show: "parse_duration (show_word (d :: u64)) = Inr d"
  using show_nat_word(1) [of "unat d"]
  by (simp add: parse_duration_def word_trim parse_u64_show_word is_word_def)

section \<open>Reading back a directive\<close>

text \<open>The states in which directives are read: inside a site, not in a settings block.\<close>

definition container :: "'u parser_state \<Rightarrow> bool" where
  "container st =
     ((ps_address st \<noteq> None \<or> 1 < length (ps_dirs st)) \<and> ps_dirs st \<noteq> [] \<and>
      (case ps_blocks st of [] \<Rightarrow> True
       | b # _ \<Rightarrow> directive_type b \<noteq> ''forward_auth'' \<and> directive_type b \<noteq> ''reverse_proxy''))"

definition add_dirs :: "'u directive list \<Rightarrow> 'u parser_state \<Rightarrow> 'u parser_state" where
  "add_dirs ds st = st\<lparr>ps_dirs := (hd (ps_dirs st) @ ds) # tl (ps_dirs st)\<rparr>"

lemma container_add [simp]: "container st \<Longrightarrow> container (add_dirs ds st)"
  by (cases "ps_dirs st") (auto simp: container_def add_dirs_def)

lemma add_dirs_append: "add_dirs ys (add_dirs xs st) = add_dirs (xs @ ys) st"
  by (simp add: add_dirs_def)

lemma add_dirs_Nil: "ps_dirs st \<noteq> [] \<Longrightarrow> add_dirs [] st = st"
  by (cases "ps_dirs st") (simp_all add: add_dirs_def)

definition block_of :: "string \<Rightarrow> string list \<Rightarrow> pending_block" where
  "block_of kw args = \<lparr>directive_type = kw, pb_args = args, pb_connect_timeout = None, pb_read_timeout = None,
     pb_header_up = [], pb_forward_auth = (if kw = ''forward_auth'' then Some empty_auth_block else None)\<rparr>"

definition enter :: "pending_block \<Rightarrow> 'u parser_state \<Rightarrow> 'u parser_state" where
  "enter b st = st\<lparr>ps_blocks := b # ps_blocks st, ps_dirs := [] # ps_dirs st\<rparr>"

lemma container_enter:
  "container st \<Longrightarrow> directive_type b \<noteq> ''forward_auth'' \<Longrightarrow> directive_type b \<noteq> ''reverse_proxy'' \<Longrightarrow> container (enter b st)"
  by (simp add: container_def enter_def)

lemma run_simple:
  assumes "container st" "line_words ws" "last (last ws) \<noteq> CHR ''{''" "ws \<noteq> [''}'']" "hd ws \<noteq> ''tls''"
    and d: "simple_directive (n + 1) (hd ws) (tl ws) = Inr d"
  shows "run_words L n [ws] st = Inr (add_dirs [d] st)"
proof -
  have "directive_line (n + 1) (hd ws) (tl ws) st = simple_line (n + 1) (hd ws) (tl ws) st"
    using assms(1) by (auto simp: directive_line_def container_def split: list.split)
  also have "\<dots> = Inr (add_dirs [d] st)"
    using assms(1,5) d by (cases "ps_dirs st") (auto simp: simple_line_def push_directive_def container_def add_dirs_def)
  finally show ?thesis unfolding run_words_Cons [OF assms(2)] using assms(3,4) by simp
qed

lemma run_open:
  assumes "container st" "kw \<in> set key_words" "list_all (\<lambda>w. is_word w \<and> w \<noteq> ''{'') args"
  shows "run_words L n ((kw # args @ [''{'']) # wss) st = run_words L (n + 1) wss (enter (block_of kw args) st)"
proof -
  have "filter (\<lambda>s. s \<noteq> ''{'') args = args" using assms(3) by (auto simp: filter_id_conv list_all_iff)
  then have o: "open_block (kw # args @ [''{'']) st = enter (block_of kw args) st"
    using assms(1) by (auto simp: open_block_def container_def enter_def block_of_def)
  have w: "is_word ''{''" by (rule keyword_word) (simp add: key_words_def)
  have l: "line_words (kw # args @ [''{''])"
    using assms(2,3) w by (intro keyword_line) (auto simp: list_all_iff)
  show ?thesis unfolding run_words_Cons [OF l] using o by simp
qed

lemma run_close:
  assumes "container st" "finish_block L (n + 1) b ds = Inr d"
  shows "run_words L n [[''}'']] (add_dirs ds (enter b st)) = Inr (add_dirs [d] st)"
proof -
  have l: "line_words [''}'']" by (rule keyword_line) (simp_all add: key_words_def)
  obtain top rest where "ps_dirs st = top # rest" using assms(1) by (cases "ps_dirs st") (auto simp: container_def)
  with assms(2) have "close_block L (n + 1) (add_dirs ds (enter b st)) = Inr (add_dirs [d] st)"
    by (simp add: close_block_def add_dirs_def enter_def push_directive_def)
  then show ?thesis unfolding run_words_Cons [OF l] by simp
qed

lemma run_block:
  assumes c: "container st" and kw: "kw \<in> set key_words" "kw \<noteq> ''forward_auth''" "kw \<noteq> ''reverse_proxy''"
    and a: "list_all (\<lambda>w. is_word w \<and> w \<noteq> ''{'') args"
    and body: "\<And>m st'. container st' \<Longrightarrow> run_words L m body st' = Inr (add_dirs ds st')"
    and fin: "\<And>m. finish_block L m (block_of kw args) ds = Inr d"
  shows "run_words L n ((kw # args @ [''{'']) # body @ [[''}'']]) st = Inr (add_dirs [d] st)"
proof -
  have "container (enter (block_of kw args) st)" using container_enter [OF c] kw by (simp add: block_of_def)
  then show ?thesis
    unfolding run_open [OF c kw(1) a] run_words_append
    by (simp only: body res_bind_simps run_close [OF c fin])
qed

text \<open>Settings inside a block change only the block on top of the stack.\<close>

lemma run_setting:
  assumes l: "line_words ws" "last (last ws) \<noteq> CHR ''{''" "ws \<noteq> [''}'']"
    and d: "directive_line (n + 1) (hd ws) (tl ws) (enter b st) = Inr (enter b' st)"
  shows "run_words L n (ws # wss) (enter b st) = run_words L (n + 1) wss (enter b' st)"
  unfolding run_words_Cons [OF l(1)] using l d by simp

lemma run_proxy_setting:
  assumes "line_words ws" "last (last ws) \<noteq> CHR ''{''" "ws \<noteq> [''}'']" "directive_type b = ''reverse_proxy''"
    and "reverse_proxy_setting (n + 1) (hd ws) (tl ws) b = Inr b'"
  shows "run_words L n (ws # wss) (enter b st) = run_words L (n + 1) wss (enter b' st)"
  by (rule run_setting [OF assms(1-3)]) (use assms(4,5) in \<open>simp add: directive_line_def enter_def\<close>)

lemma run_auth_setting:
  assumes "line_words ws" "last (last ws) \<noteq> CHR ''{''" "ws \<noteq> [''}'']" "directive_type b = ''forward_auth''"
    and "pb_forward_auth b = Some p" "forward_auth_setting (n + 1) (hd ws) (tl ws) p = Inr p'"
  shows "run_words L n (ws # wss) (enter b st) = run_words L (n + 1) wss (enter (b\<lparr>pb_forward_auth := Some p'\<rparr>) st)"
  by (rule run_setting [OF assms(1-3)]) (use assms(4-6) in \<open>simp add: directive_line_def enter_def\<close>)

lemma run_timeout:
  assumes "name \<in> set key_words" "directive_type b = ''reverse_proxy''"
    and upd: "\<And>m v. reverse_proxy_setting m name [show_word v] b = Inr (upd v)"
  shows "run_words L n (timeout_line name d @ wss) (enter b st) =
    run_words L (n + length (timeout_line name d)) wss (enter (case d of None \<Rightarrow> b | Some v \<Rightarrow> upd v) st)"
proof (cases d)
  case (Some v)
  have l: "line_words [name, show_word v]"
    using assms(1) show_nat_word by (intro keyword_line) simp_all
  have "run_words L n ([name, show_word v] # wss) (enter b st) = run_words L (n + 1) wss (enter (upd v) st)"
    using show_nat_word(2) [of "unat v"] by (intro run_proxy_setting [OF l _ _ assms(2)]) (simp_all add: upd)
  then show ?thesis using Some by (simp add: timeout_line_def)
qed (simp add: timeout_line_def)

lemma run_header_up:
  assumes "header_up_ok d" "directive_type b = ''reverse_proxy''"
  shows "run_words L n (header_up_line d # wss) (enter b st) =
    run_words L (n + 1) wss (enter (b\<lparr>pb_header_up := pb_header_up b @ [d]\<rparr>) st)"
proof -
  obtain name v where d: "d = \<lparr>hd_name = name, hd_value = v\<rparr>" by (cases d)
  have kw: "''header_up'' \<in> set key_words" by (simp add: key_words_def)
  have minus: "is_word (''-'' @ w)" if "is_word w" for w using that by (simp add: is_word_def word_char_def)
  show ?thesis
  proof (cases v)
    case None
    then have ok: "plain name" using assms(1) d by (simp add: header_up_ok_def)
    then have l: "line_words (header_up_line d)"
      using d None minus [of name] by (auto simp: header_up_line_def plain_def intro!: keyword_line [OF kw])
    have "name \<noteq> []" "last name \<noteq> CHR ''{''" using ok by (auto simp: plain_def is_word_def)
    then show ?thesis
      using d None assms(2)
      by (intro run_proxy_setting [OF l])
        (auto simp: header_up_line_def reverse_proxy_setting_def header_up_setting_def arg_or_def)
  next
    case (Some t)
    then have ok: "is_word name" "hd name \<noteq> CHR ''-''" "list_all is_word (split_whitespace t)" "split_whitespace t \<noteq> []"
      "plain (last (split_whitespace t))" "str_join '' '' (split_whitespace t) = t"
      using assms(1) d by (auto simp: header_up_ok_def)
    have l: "line_words (header_up_line d)"
      using d Some ok by (auto simp: header_up_line_def intro!: keyword_line [OF kw])
    have "strip_prefix name ''-'' = None" using ok(1,2) by (cases name) (auto simp: is_word_def)
    moreover have "t \<noteq> []" using ok join_ends(1) by metis
    ultimately have "header_up_setting (n + 1) (name # split_whitespace t) = Inr d"
      using d Some ok(6) by (simp add: header_up_setting_def arg_or_def Let_def)
    then show ?thesis
      using d Some assms(2) ok(4,5)
      by (intro run_proxy_setting [OF l]) (auto simp: header_up_line_def reverse_proxy_setting_def plain_def)
  qed
qed

lemma run_header_ups:
  "list_all header_up_ok up \<Longrightarrow> directive_type b = ''reverse_proxy'' \<Longrightarrow>
     run_words L n (map header_up_line up @ wss) (enter b st) =
       run_words L (n + length up) wss (enter (b\<lparr>pb_header_up := pb_header_up b @ up\<rparr>) st)"
proof (induction up arbitrary: b n)
  case (Cons d up)
  have "run_words L n (map header_up_line (d # up) @ wss) (enter b st)
      = run_words L (n + 1) (map header_up_line up @ wss) (enter (b\<lparr>pb_header_up := pb_header_up b @ [d]\<rparr>) st)"
    using run_header_up [of d b L n "map header_up_line up @ wss" st] Cons.prems by simp
  also have "\<dots> = run_words L (n + length (d # up)) wss (enter (b\<lparr>pb_header_up := pb_header_up b @ (d # up)\<rparr>) st)"
    using Cons.IH [of "b\<lparr>pb_header_up := pb_header_up b @ [d]\<rparr>" "n + 1"] Cons.prems by simp
  finally show ?case .
qed simp

lemma run_close_empty:
  assumes "container st" "finish_block L (n + 1) b [] = Inr d"
  shows "run_words L n [[''}'']] (enter b st) = Inr (add_dirs [d] st)"
proof -
  have "add_dirs [] (enter b st) = enter b st" by (simp add: enter_def add_dirs_def)
  with run_close [OF assms] show ?thesis by simp
qed

lemma run_reverse_proxy_block:
  assumes c: "container st" and to: "plain to" and up: "list_all header_up_ok up"
  shows "run_words L n ([''reverse_proxy'', to, ''{''] # timeout_line ''connect_timeout'' ct
      @ timeout_line ''read_timeout'' rt @ map header_up_line up @ [[''}'']]) st
    = Inr (add_dirs [ReverseProxy to ct rt up] st)"
proof -
  let ?b = "block_of ''reverse_proxy'' [to]"
  let ?b1 = "case ct of None \<Rightarrow> ?b | Some v \<Rightarrow> ?b\<lparr>pb_connect_timeout := Some v\<rparr>"
  let ?b2 = "case rt of None \<Rightarrow> ?b1 | Some v \<Rightarrow> ?b1\<lparr>pb_read_timeout := Some v\<rparr>"
  have t: "directive_type ?b = ''reverse_proxy''" "directive_type ?b1 = ''reverse_proxy''" "directive_type ?b2 = ''reverse_proxy''"
    by (simp_all add: block_of_def split: option.split)
  have b2: "pb_header_up ?b2 = []" "pb_connect_timeout ?b2 = ct" "pb_read_timeout ?b2 = rt" "pb_args ?b2 = [to]"
    by (simp_all add: block_of_def split: option.split)
  have a: "list_all (\<lambda>w. is_word w \<and> w \<noteq> ''{'') [to]" using to by (auto simp: plain_def)
  have kw: "''reverse_proxy'' \<in> set key_words" by (simp add: key_words_def)
  have fin: "finish_block L m (?b2\<lparr>pb_header_up := pb_header_up ?b2 @ up\<rparr>) [] = Inr (ReverseProxy to ct rt up)" for m
    using b2 t(3) by (simp add: finish_block_def)
  have ct: "run_words L m (timeout_line ''connect_timeout'' ct @ wss) (enter ?b st)
      = run_words L (m + length (timeout_line ''connect_timeout'' ct)) wss (enter ?b1 st)" for m wss
    by (rule run_timeout [OF _ t(1)])
      (simp_all add: key_words_def reverse_proxy_setting_def duration_arg_def arg_or_def parse_duration_show)
  have rt: "run_words L m (timeout_line ''read_timeout'' rt @ wss) (enter ?b1 st)
      = run_words L (m + length (timeout_line ''read_timeout'' rt)) wss (enter ?b2 st)" for m wss
    by (rule run_timeout [OF _ t(2)])
      (simp_all add: key_words_def reverse_proxy_setting_def duration_arg_def arg_or_def parse_duration_show)
  show ?thesis
    using run_open [OF c kw a, of L n]
    by (simp only: append.simps ct rt run_header_ups [OF up t(3)] run_close_empty [OF c fin])
qed

lemma plain_list: "list_all plain ws \<Longrightarrow> list_all is_word ws \<and> (ws \<noteq> [] \<longrightarrow> last (last ws) \<noteq> CHR ''{'')"
  by (auto simp: list_all_iff plain_def)

lemma collect_names: "valid_header_names L ns \<Longrightarrow> parse_headers L line what ns = Inr ns"
  by (induction ns) (auto simp: parse_headers_def valid_header_names_def)

text \<open>The settings block after the lines of a printed forward-auth directive.\<close>

definition auth_block :: "('u \<Rightarrow> string) \<Rightarrow> 'u forward_auth_config \<Rightarrow> forward_auth_block" where
  "auth_block show_uri cfg =
     \<lparr>fb_to = Some (show_uri (endpoint cfg)), fb_request_headers = Some (request_headers cfg),
      fb_response_headers = (if response_headers cfg = [] then None else Some (response_headers cfg)),
      fb_failure_mode = Some (fa_failure_mode cfg), fb_timeout = Some (timeout_secs cfg)\<rparr>"

lemma build_printed:
  assumes "printable L show_uri (ForwardAuth cfg)"
  shows "build_forward_auth L (auth_block show_uri cfg) line = Inr (ForwardAuth cfg)"
proof -
  have "normalize_auth_endpoint L (endpoint cfg) = Inr (endpoint cfg)"
    using assms by (simp add: valid_forward_auth_def normalize_fixed)
  then show ?thesis
    using assms by (simp add: build_forward_auth_def auth_block_def valid_forward_auth_def collect_names)
qed

lemma run_auth_words:
  assumes "directive_type b = ''forward_auth''" "pb_forward_auth b = Some p" "kw \<in> set key_words" "args \<noteq> []" "list_all plain args"
    and "\<And>m. forward_auth_setting m kw args p = Inr p'"
  shows "run_words L n ((kw # args) # wss) (enter b st) = run_words L (n + 1) wss (enter (b\<lparr>pb_forward_auth := Some p'\<rparr>) st)"
proof -
  have l: "line_words (kw # args)" using keyword_line [OF assms(3)] plain_list [OF assms(5)] by blast
  show ?thesis
    using plain_list [OF assms(5)] assms(4,6) by (intro run_auth_setting [OF l _ _ assms(1,2)]) auto
qed

lemma run_auth_block:
  assumes c: "container st" and p: "printable L show_uri (ForwardAuth cfg)"
  shows "run_words L n (dir_lines show_uri (ForwardAuth cfg)) st = Inr (add_dirs [ForwardAuth cfg] st)"
proof -
  let ?b = "\<lambda>p. (block_of ''forward_auth'' [])\<lparr>pb_forward_auth := Some p\<rparr>"
  let ?p1 = "empty_auth_block\<lparr>fb_to := Some (show_uri (endpoint cfg))\<rparr>"
  let ?p2 = "?p1\<lparr>fb_request_headers := Some (request_headers cfg)\<rparr>"
  let ?p3 = "if response_headers cfg = [] then ?p2 else ?p2\<lparr>fb_response_headers := Some (response_headers cfg)\<rparr>"
  let ?p4 = "?p3\<lparr>fb_failure_mode := Some (fa_failure_mode cfg)\<rparr>"
  let ?p5 = "?p4\<lparr>fb_timeout := Some (timeout_secs cfg)\<rparr>"
  note step = run_auth_words [where L = L and st = st, of "?b _"]
  have kws: "set [''forward_auth'', ''to'', ''request_headers'', ''response_headers'', ''failure_mode'', ''timeout''] \<subseteq> set key_words"
    by (simp add: key_words_def)
  have b0: "block_of ''forward_auth'' [] = ?b empty_auth_block" by (simp add: block_of_def)
  have mode: "plain (mode_word (fa_failure_mode cfg))"
    using keyword_word by (auto simp: mode_word_def plain_def key_words_def split: failure_mode.split)
  have opn: "run_words L m ([''forward_auth'', ''{''] # wss) st = run_words L (m + 1) wss (enter (?b empty_auth_block) st)" for m wss
    using run_open [OF c, of "''forward_auth''" "[]" L m wss] kws b0 by simp
  have l1: "run_words L m ([''to'', show_uri (endpoint cfg)] # wss) (enter (?b empty_auth_block) st)
      = run_words L (m + 1) wss (enter (?b ?p1) st)" for m wss
    using step [of empty_auth_block empty_auth_block "''to''" "[show_uri (endpoint cfg)]" ?p1 m wss] kws p
    by (simp add: block_of_def forward_auth_setting_def arg_or_def)
  have l2: "run_words L m ((''request_headers'' # request_headers cfg) # wss) (enter (?b ?p1) st)
      = run_words L (m + 1) wss (enter (?b ?p2) st)" for m wss
    using step [of ?p1 ?p1 "''request_headers''" "request_headers cfg" ?p2 m wss] kws p
    by (simp add: block_of_def forward_auth_setting_def)
  have l3: "run_words L m ((if response_headers cfg = [] then [] else [''response_headers'' # response_headers cfg]) @ wss)
      (enter (?b ?p2) st) = run_words L (m + (if response_headers cfg = [] then 0 else 1)) wss (enter (?b ?p3) st)" for m wss
    using step [of ?p2 ?p2 "''response_headers''" "response_headers cfg" ?p3 m wss] kws p
    by (simp add: block_of_def forward_auth_setting_def)
  have l4: "run_words L m ([''failure_mode'', mode_word (fa_failure_mode cfg)] # wss) (enter (?b ?p3) st)
      = run_words L (m + 1) wss (enter (?b ?p4) st)" for m wss
    using step [of ?p3 ?p3 "''failure_mode''" "[mode_word (fa_failure_mode cfg)]" ?p4 m wss] kws mode
    by (simp add: block_of_def forward_auth_setting_def arg_or_def parse_failure_mode_def mode_word_def split: failure_mode.split)
  have l5: "run_words L m ([''timeout'', show_word (timeout_secs cfg)] # wss) (enter (?b ?p4) st)
      = run_words L (m + 1) wss (enter (?b ?p5) st)" for m wss
    using step [of ?p4 ?p4 "''timeout''" "[show_word (timeout_secs cfg)]" ?p5 m wss] kws show_nat_word(3)
    by (simp add: block_of_def forward_auth_setting_def duration_arg_def arg_or_def parse_duration_show)
  have "?p5 = auth_block show_uri cfg" by (simp add: auth_block_def empty_auth_block_def)
  then have fin: "finish_block L m (?b ?p5) [] = Inr (ForwardAuth cfg)" for m
    using build_printed [OF p] by (simp add: finish_block_def block_of_def)
  show ?thesis
    by (simp only: dir_lines.simps opn l1 l2 l3 l4 l5 run_close_empty [OF c fin])
qed

section \<open>Reading back a configuration\<close>

lemma run_dirs:
  assumes "\<And>d m st'. d \<in> set ds \<Longrightarrow> container st' \<Longrightarrow> run_words L m (dir_lines show_uri d) st' = Inr (add_dirs [d] st')"
    and "container st"
  shows "run_words L n (concat (map (dir_lines show_uri) ds)) st = Inr (add_dirs ds st)"
  using assms
proof (induction ds arbitrary: n st)
  case Nil
  then show ?case by (simp add: add_dirs_Nil container_def)
next
  case (Cons d ds)
  then show ?case by (simp add: run_words_append add_dirs_append)
qed

lemma simple_words:
  assumes "container st" "kw \<in> set key_words" "kw \<noteq> ''tls''" "list_all is_word args" "args \<noteq> []" "last (last args) \<noteq> CHR ''{''"
    and "simple_directive (n + 1) kw args = Inr d"
  shows "run_words L n [kw # args] st = Inr (add_dirs [d] st)"
  using assms keyword_line [OF assms(2,4)] by (intro run_simple) auto

lemma run_header:
  assumes "printable L show_uri (Header name v)" "container st"
  shows "run_words L n (dir_lines show_uri (Header name v)) st = Inr (add_dirs [Header name v] st)"
proof -
  have m: "is_word (CHR ''-'' # name)" if "is_word name" using that by (simp add: is_word_def word_char_def)
  show ?thesis
  proof (cases v)
    case None
    then have "plain name" using assms(1) by simp
    then have "is_word (CHR ''-'' # name)" "name \<noteq> []" "last name \<noteq> CHR ''{''" using m by (auto simp: plain_def is_word_def)
    then show ?thesis
      using None assms(2) simple_words [of st "''header''" "[CHR ''-'' # name]" n "Header name None" L]
      by (simp add: key_words_def simple_directive_def header_line_def arg_or_def)
  next
    case (Some x)
    have "strip_prefix name ''-'' = None" using assms(1) Some by (cases name) (auto simp: is_word_def)
    then show ?thesis
      using Some assms simple_words [of st "''header''" "[name, x]" n "Header name (Some x)" L]
      by (simp add: key_words_def plain_def simple_directive_def header_line_def arg_or_def)
  qed
qed

lemma run_directive:
  "printable L show_uri d \<Longrightarrow> container st \<Longrightarrow> run_words L n (dir_lines show_uri d) st = Inr (add_dirs [d] st)"
proof (induction d arbitrary: n st)
  case (ReverseProxy to ct rt up)
  then show ?case
  proof (cases "ct = None \<and> rt = None \<and> up = []")
    case True
    then show ?thesis
      using ReverseProxy simple_words [of st "''reverse_proxy''" "[to]" n "ReverseProxy to None None []" L]
      by (simp add: key_words_def plain_def simple_directive_def arg_or_def)
  next
    case False
    then show ?thesis using ReverseProxy run_reverse_proxy_block [of st to up L n ct rt] by auto
  qed
next
  case (HandlePath p ds)
  have "run_words L m (concat (map (dir_lines show_uri) ds)) st' = Inr (add_dirs ds st')" if "container st'" for m st'
    using HandlePath.IH HandlePath.prems(1) that by (intro run_dirs) (auto simp: list_all_iff)
  then have "run_words L n ((''handle_path'' # [p] @ [''{'']) # concat (map (dir_lines show_uri) ds) @ [[''}'']]) st
      = Inr (add_dirs [HandlePath p ds] st)"
    using HandlePath.prems by (intro run_block) (simp_all add: key_words_def finish_block_def block_of_def)
  then show ?case by simp
next
  case (UriReplace a b)
  then show ?case
    using simple_words [of st "''uri_replace''" "[a, b]" n "UriReplace a b" L]
    by (simp add: key_words_def plain_def simple_directive_def arg_or_def)
next
  case (Header name v)
  then show ?case by (rule run_header)
next
  case (Method ms ds)
  have "run_words L m (concat (map (dir_lines show_uri) ds)) st' = Inr (add_dirs ds st')" if "container st'" for m st'
    using Method.IH Method.prems(1) that by (intro run_dirs) (auto simp: list_all_iff)
  then have "run_words L n ((''method'' # ms @ [''{'']) # concat (map (dir_lines show_uri) ds) @ [[''}'']]) st
      = Inr (add_dirs [Method ms ds] st)"
    using Method.prems by (intro run_block) (simp_all add: key_words_def finish_block_def block_of_def)
  then show ?case by simp
next
  case (StripPrefix p)
  then show ?case
    using simple_words [of st "''strip_prefix''" "[p]" n "StripPrefix p" L]
    by (simp add: key_words_def plain_def simple_directive_def arg_or_def)
next
  case (Redirect status url)
  then show ?case
    using simple_words [of st "''redirect''" "[show_word status, url]" n "Redirect status url" L]
    by (simp add: key_words_def plain_def simple_directive_def redirect_line_def show_nat_word parse_u16_show_word)
next
  case (Respond status b)
  then show ?case
    using simple_words [of st "''respond''" "[show_word status] @ (if b = [] then [] else [b])" n "Respond status b" L]
    by (cases "b = []") (auto simp: key_words_def plain_def simple_directive_def show_nat_word parse_u16_show_word)
next
  case (ForwardAuth cfg)
  then show ?case using run_auth_block by blast
qed

lemma run_site:
  assumes p: "printable_site L show_uri s"
    and new: "map_of ss (address s) = None"
  shows "run_words L n (site_lines show_uri s) (init_state\<lparr>ps_sites := ss\<rparr>)
    = Inr (init_state\<lparr>ps_sites := ss @ [(address s, s)]\<rparr>)"
proof -
  let ?st0 = "init_state\<lparr>ps_sites := ss\<rparr> :: 'a parser_state"
  let ?st1 = "?st0\<lparr>ps_address := Some (address s)\<rparr>"
  let ?st2 = "?st1\<lparr>ps_tls := tls s\<rparr>"
  have addr: "is_word (address s)" "hd (address s) \<noteq> CHR ''#''" using p by (simp_all add: printable_site_def)
  have brace: "is_word ''{''" by (rule keyword_word) (simp add: key_words_def)
  have l1: "line_words [address s, ''{'']" using addr brace by (simp add: line_words_def)
  have o: "open_block [address s, ''{''] ?st0 = ?st1" by (simp add: open_block_def init_state_def)
  have s1: "run_words L m ([address s, ''{''] # wss) ?st0 = run_words L (m + 1) wss ?st1" for m wss
    unfolding run_words_Cons [OF l1] using o by simp
  have s2: "run_words L m ((case tls s of None \<Rightarrow> [] | Some t \<Rightarrow> [[''tls'', cert_path t, key_path t]]) @ wss) ?st1
      = run_words L (m + (if tls s = None then 0 else 1)) wss ?st2" for m wss
  proof (cases "tls s")
    case None
    then show ?thesis by (simp add: init_state_def)
  next
    case (Some t)
    have w: "is_word (cert_path t)" "plain (key_path t)" using p Some by (simp_all add: printable_site_def)
    have l: "line_words [''tls'', cert_path t, key_path t]"
      using w by (intro keyword_line) (simp_all add: key_words_def plain_def)
    have "directive_line (m + 1) ''tls'' [cert_path t, key_path t] ?st1 = Inr ?st2"
      using Some by (simp add: directive_line_def init_state_def simple_line_def tls_setting_def arg_or_def)
    then show ?thesis
      unfolding Some option.case append.simps run_words_Cons [OF l] using w by (simp add: plain_def)
  qed
  have c: "container ?st2" by (simp add: container_def init_state_def)
  have s3: "run_words L m (concat (map (dir_lines show_uri) (directives s))) ?st2 = Inr (add_dirs (directives s) ?st2)" for m
    using p by (intro run_dirs [OF _ c] run_directive) (auto simp: printable_site_def list_all_iff)
  have l4: "line_words [''}'']" by (rule keyword_line) (simp_all add: key_words_def)
  have "close_block L m (add_dirs (directives s) ?st2) = Inr (init_state\<lparr>ps_sites := ss @ [(address s, s)]\<rparr>)" for m
    using new by (simp add: close_block_def close_site_def add_dirs_def init_state_def)
  then have s4: "run_words L m [[''}'']] (add_dirs (directives s) ?st2) = Inr (init_state\<lparr>ps_sites := ss @ [(address s, s)]\<rparr>)" for m
    unfolding run_words_Cons [OF l4] by simp
  show ?thesis
    unfolding site_lines_def s1 s2 unfolding run_words_append s3 res_bind_simps s4 ..
qed

lemma run_sites:
  assumes "distinct (map fst ss @ map address ts)" "list_all (printable_site L show_uri) ts"
  shows "run_words L n (concat (map (site_lines show_uri) ts)) (init_state\<lparr>ps_sites := ss\<rparr>)
    = Inr (init_state\<lparr>ps_sites := ss @ map (\<lambda>t. (address t, t)) ts\<rparr>)"
  using assms
proof (induction ts arbitrary: n ss)
  case (Cons t ts)
  have "map_of ss (address t) = None" using Cons.prems(1) by (auto simp: map_of_eq_None_iff)
  then have "run_words L n (site_lines show_uri t) (init_state\<lparr>ps_sites := ss\<rparr>)
      = Inr (init_state\<lparr>ps_sites := ss @ [(address t, t)]\<rparr>)"
    using Cons.prems(2) by (intro run_site) simp_all
  then show ?case
    using Cons.IH [of "ss @ [(address t, t)]"] Cons.prems by (simp add: run_words_append)
qed simp

section \<open>The text\<close>

lemma dir_lines_words: "printable L show_uri d \<Longrightarrow> list_all (list_all is_word) (dir_lines show_uri d)"
proof (induction d)
  case (ReverseProxy to ct rt up)
  have "list_all is_word (header_up_line h)" if "header_up_ok h" for h
    using that keyword_word [of "''header_up''"]
    by (cases "hd_value h") (auto simp: header_up_line_def header_up_ok_def plain_def key_words_def is_word_def word_char_def)
  then show ?case
    using ReverseProxy show_nat_word(1) word_facts
    by (auto simp: list_all_iff timeout_line_def plain_def key_words_def split: option.splits)
next
  case (Header n v)
  then show ?case
    using word_facts by (cases v) (auto simp: plain_def is_word_def word_char_def)
next
  case (ForwardAuth cfg)
  have "is_word (mode_word (fa_failure_mode cfg))"
    using word_facts by (auto simp: mode_word_def split: failure_mode.split)
  then show ?case
    using ForwardAuth show_nat_word(1) word_facts by (auto simp: list_all_iff plain_def key_words_def)
qed (use word_facts in \<open>auto simp: list_all_iff plain_def key_words_def show_nat_word\<close>)

lemma site_lines_words: "printable_site L show_uri s \<Longrightarrow> list_all (list_all is_word) (site_lines show_uri s)"
  using dir_lines_words word_facts
  by (fastforce simp: site_lines_def printable_site_def list_all_iff plain_def key_words_def
      split: option.splits)

lemma join_chars:
  "list_all is_word ws \<Longrightarrow> c \<in> set (str_join '' '' ws) \<Longrightarrow> word_char c \<or> c = CHR '' ''"
  by (induction "'' ''" ws rule: str_join.induct) (auto simp: is_word_def list_all_iff)

lemma str_lines_concat:
  assumes "list_all (\<lambda>l. CHR 0x0A \<notin> set l \<and> CHR 0x0D \<notin> set l) ls"
  shows "str_lines (concat (map (\<lambda>l. l @ [CHR 0x0A]) ls)) = ls"
proof -
  have "split_on (CHR 0x0A) (concat (map (\<lambda>l. l @ [CHR 0x0A]) ls)) = ls @ [[]]"
    using assms by (induction ls) (simp_all add: split_on_append)
  moreover have "strip_cr l = l" if "CHR 0x0D \<notin> set l" for l
    using that by (cases "strip_suffix l [CHR 0x0D]") (auto simp: strip_cr_def strip_suffix_iff)
  then have "map strip_cr ls = ls" using assms by (induction ls) auto
  ultimately show ?thesis by (simp add: str_lines_def)
qed

lemma from_str_print:
  assumes "printable_config L show_uri c"
  shows "from_str L (print_config show_uri c) = Inr c"
proof -
  have ok: "distinct (map fst (sites c))" "\<And>k s. (k, s) \<in> set (sites c) \<Longrightarrow> address s = k \<and> printable_site L show_uri s"
    "sockets_ok (sites_values c)"
    using assms by (auto simp: printable_config_def list_all_iff)
  have keys: "map address (sites_values c) = map fst (sites c)" "map (\<lambda>t. (address t, t)) (sites_values c) = sites c"
    using ok(2) by (fastforce simp: sites_values_def intro!: map_idI)+
  have sites: "list_all (printable_site L show_uri) (sites_values c)"
    using ok(2) by (auto simp: sites_values_def list_all_iff)
  have words: "list_all (list_all is_word) (config_lines show_uri c)"
    using sites site_lines_words by (fastforce simp: config_lines_def list_all_iff)
  have chars: "word_char x \<or> x = CHR '' ''" if "ws \<in> set (config_lines show_uri c)" "x \<in> set (str_join '' '' ws)" for ws x
    using words that join_chars [of ws x] by (auto simp: list_all_iff [of "list_all is_word"])
  have "str_lines (concat (map (\<lambda>l. l @ [CHR 0x0A]) (map (str_join '' '') (config_lines show_uri c))))
      = map (str_join '' '') (config_lines show_uri c)"
  proof (intro str_lines_concat)
    have "\<not> word_char (CHR 0x0A)" "\<not> word_char (CHR 0x0D)" by (simp_all add: word_char_def)
    with chars have "CHR 0x0A \<notin> set (str_join '' '' ws)" "CHR 0x0D \<notin> set (str_join '' '' ws)"
      if "ws \<in> set (config_lines show_uri c)" for ws
      using that by blast+
    then show "list_all (\<lambda>l. CHR 0x0A \<notin> set l \<and> CHR 0x0D \<notin> set l) (map (str_join '' '') (config_lines show_uri c))"
      by (simp add: list_all_iff)
  qed
  then have lines: "str_lines (print_config show_uri c) = map (str_join '' '') (config_lines show_uri c)"
    by (simp add: print_config_def comp_def)
  have "run_words L 0 (config_lines show_uri c) (init_state\<lparr>ps_sites := []\<rparr>) = Inr (init_state\<lparr>ps_sites := sites c\<rparr>)"
    using run_sites [of "[]" "sites_values c" L show_uri 0] sites keys ok(1) by (simp add: config_lines_def)
  then have "parse_lines L 0 (str_lines (print_config show_uri c)) init_state = Inr (init_state\<lparr>ps_sites := sites c\<rparr>)"
    by (simp add: lines run_words_def init_state_def)
  moreover have "is_ok (validate_listen_sockets (map snd (sites c)))"
    using ok(3) check_sites_iff [of "[]" "(Map.empty, Map.empty)" "map snd (sites c)"]
    by (simp add: validate_listen_sockets_def tables_ok_def sites_values_def)
  ultimately show ?thesis by (auto simp: from_str_def is_ok_iff)
qed

text \<open>
  C15. Round trip of the configuration file: printing a configuration and parsing the text gives
  the same configuration back, sites, nested blocks, block settings, TLS paths, header templates
  and forward-auth settings included. It holds for every configuration whose arguments are words
  and whose sites may share the sockets they name.
\<close>

theorem from_str_print_config:
  assumes "printable_config L show_uri c"
  shows "from_str L (print_config show_uri c) = Inr c"
  by (rule from_str_print [OF assms])

definition sample_file :: "ref_uri config" where
  "sample_file =
     \<lparr>sites = [(''a.com:443'', \<lparr>address = ''a.com:443'',
        directives = [
          ForwardAuth \<lparr>endpoint = \<lparr>ru_scheme = Some ''http'', ru_authority = Some ''auth:9091'', ru_pq = Some ''/v''\<rparr>,
            request_headers = [''cookie''], response_headers = [''remote-user''], fa_failure_mode = Open, timeout_secs = 7\<rparr>,
          HandlePath ''/api/*'' [Method [''GET'', ''HEAD''] [ReverseProxy ''b:3'' None (Some 9)
            [\<lparr>hd_name = ''Via'', hd_value = Some ''x {uuid}''\<rparr>]], Respond 404 []],
          Header ''Server'' None, Redirect 301 ''https://b.com/''],
        tls = Some \<lparr>cert_path = ''c.pem'', key_path = ''k.pem''\<rparr>\<rparr>)]\<rparr>"

lemma sample_file_printable: "printable_config ref_lib show_ref_uri sample_file"
proof -
  have d: "list_all (\<lambda>(k, s). address s = k \<and> printable_site ref_lib show_ref_uri s) (sites sample_file)"
    by code_simp
  have "resolve_listen_addr ''a.com:443'' = Inr (socket_addr_new (V4 0 0 0 0) 443)"
    by (simp add: address_eval)
  then have "sockets_ok (sites_values sample_file)"
    by (simp add: sockets_ok_def sites_values_def sample_file_def site_socket_def)
  with d show ?thesis
    by (simp add: printable_config_def) (simp add: sample_file_def)
qed

theorem from_str_print_config_witness:
  "from_str ref_lib (print_config show_ref_uri sample_file) = Inr sample_file"
  by (rule from_str_print_config) (rule sample_file_printable)

theorem from_str_valid_witness:
  "valid_config ref_lib sample_file \<and> sockets_ok (sites_values sample_file)"
  using from_str_valid [OF ref_http.http_laws_axioms from_str_print [OF sample_file_printable]] by blast

section \<open>Durations\<close>

definition unit_seconds :: "(char \<times> nat) list" where
  "unit_seconds = [(CHR ''s'', 1), (CHR ''m'', 60), (CHR ''h'', 3600), (CHR ''d'', 86400)]"

lemma parse_u64_letter:
  assumes "\<not> is_dec_digit c" "d \<noteq> []" "list_all is_dec_digit d"
  shows "parse_u64 (d @ [c]) = None"
proof -
  obtain x xs where "d = x # xs" "is_dec_digit x" using assms(2,3) by (cases d) auto
  moreover from this have "x \<noteq> CHR ''+''" by (auto simp: is_dec_digit_def)
  ultimately show ?thesis using assms(1) by (auto simp: parse_u64_def parse_uint_def)
qed

lemma strip_suffix_char: "strip_suffix (d @ [c]) [x] = (if c = x then Some d else None)"
  by (cases "strip_suffix (d @ [c]) [x]") (auto simp: strip_suffix_iff strip_suffix_None_iff)

lemma duration_suffix_unit:
  "(c, m) \<in> set unit_seconds \<Longrightarrow> duration_suffix (d @ [c]) = Some (d, of_nat m)"
  by (auto simp: unit_seconds_def duration_suffix_def strip_suffix_char)

text \<open>
  C35. A duration is its number times the seconds of its unit, in 64-bit arithmetic that wraps
  around: it is the exact product when that fits and the product modulo two to the 64 when not.
\<close>

theorem parse_duration_units:
  assumes n: "n < 2 ^ 64" and u: "(c, m) \<in> set unit_seconds"
  shows "parse_duration (show_nat n) = Inr (of_nat n)
    \<and> (\<exists>d. parse_duration (show_nat n @ [c]) = Inr d \<and> unat d = n * m mod 2 ^ 64)"
proof -
  have dg: "list_all is_dec_digit (show_nat n)" "show_nat n \<noteq> []" using show_nat_digits [of n] by simp_all
  have num: "parse_u64 (show_nat n) = Some (of_nat n)"
    using parse_uint_show_nat [OF n] by (simp add: parse_u64_def)
  have plain: "parse_duration (show_nat n) = Inr (of_nat n)"
    using num dg(2) show_nat_word(1) by (simp add: parse_duration_def word_trim)
  have c: "\<not> is_dec_digit c" "word_char c"
    using u by (auto simp: unit_seconds_def is_dec_digit_def word_char_def)
  have w: "is_word (show_nat n @ [c])" using show_nat_word(1) [of n] c(2) by (simp add: is_word_def)
  have "parse_duration (show_nat n @ [c]) = Inr (of_nat n * of_nat m)"
    using num parse_u64_letter [OF c(1) dg(2,1)]
    by (simp add: parse_duration_def word_trim [OF w] duration_suffix_unit [OF u])
  moreover have "unat (of_nat n * of_nat m :: u64) = n * m mod 2 ^ 64"
    by (simp flip: of_nat_mult add: unsigned_of_nat take_bit_eq_mod)
  ultimately show ?thesis using plain by blast
qed

theorem parse_duration_units_witness:
  "(\<exists>d. parse_duration ''5m'' = Inr d \<and> unat d = 300)
   \<and> (\<exists>d. parse_duration (show_nat 213503982334602 @ ''d'') = Inr d \<and> unat d = 61184)"
proof -
  have u: "(CHR ''m'', 60) \<in> set unit_seconds" "(CHR ''d'', 86400) \<in> set unit_seconds"
    by (simp_all add: unit_seconds_def)
  have "show_nat 5 @ ''m'' = ''5m''" by (simp add: show_nat.simps)
  then have "\<exists>d. parse_duration ''5m'' = Inr d \<and> unat d = 300"
    using parse_duration_units [OF _ u(1), of 5] by simp
  moreover have "\<exists>d. parse_duration (show_nat 213503982334602 @ ''d'') = Inr d \<and> unat d = 61184"
    using parse_duration_units [OF _ u(2), of 213503982334602] by simp
  ultimately show ?thesis by blast
qed

end
