(* ===== verification/Effects.thy ===== *)
theory Effects
  imports Config_Models
begin

text \<open>
  The effects of request handling, as state that the operations thread: the outside
  world, the requests handed to the HTTP client, the metric updates
  (\<open>src/metrics/recorder.rs\<close>, with the \<open>metrics\<close> feature on) and the access-log lines.
  Durations are not modelled: a histogram update is recorded without its value.
\<close>

section \<open>State\<close>

datatype metric =
    HttpRequestsTotal string u16 string
  | HttpRequestDuration string u16
  | ActiveRequestsInc
  | ActiveRequestsDec
  | TlsHandshakesTotal string
  | AuthRequestsTotal string
  | AuthRequestDuration

record access_entry =
  le_request_id :: string
  le_remote :: string
  le_method :: string
  le_path :: string
  le_host :: string
  le_status :: u16
  le_bytes_sent :: string

record ('u, 'h, 'w) io =
  io_world :: 'w
  io_sent :: "('u, 'h) request list"
  io_metrics :: "metric list"
  io_log :: "access_entry list"

section \<open>Primitives\<close>

definition send_request ::
  "('u, 'h, 'w) lib \<Rightarrow> u64 \<Rightarrow> ('u, 'h) request \<Rightarrow> ('u, 'h, 'w) io \<Rightarrow> 'h client_outcome \<times> ('u, 'h, 'w) io" where
  "send_request L secs r s =
     (let (res, w) = client_request L (io_world s) secs r
      in (res, s\<lparr>io_world := w, io_sent := io_sent s @ [r]\<rparr>))"

definition new_uuid :: "('u, 'h, 'w) lib \<Rightarrow> ('u, 'h, 'w) io \<Rightarrow> string \<times> ('u, 'h, 'w) io" where
  "new_uuid L s = (let (u, w) = uuid_v4 L (io_world s) in (u, s\<lparr>io_world := w\<rparr>))"

definition emit :: "metric list \<Rightarrow> ('u, 'h, 'w) io \<Rightarrow> ('u, 'h, 'w) io" where
  "emit ms s = s\<lparr>io_metrics := io_metrics s @ ms\<rparr>"

section \<open>Metric recorders\<close>

definition record_request :: "string \<Rightarrow> u16 \<Rightarrow> string \<Rightarrow> ('u, 'h, 'w) io \<Rightarrow> ('u, 'h, 'w) io" where
  "record_request meth status site s =
     emit [HttpRequestsTotal meth status site, HttpRequestDuration meth status] s"

record metrics_guard =
  mg_method :: string
  mg_site :: string

definition metrics_guard_new ::
  "string \<Rightarrow> string \<Rightarrow> ('u, 'h, 'w) io \<Rightarrow> metrics_guard \<times> ('u, 'h, 'w) io" where
  "metrics_guard_new meth site s =
     (\<lparr>mg_method = meth, mg_site = site\<rparr>, emit [ActiveRequestsInc] s)"

definition metrics_guard_record :: "metrics_guard \<Rightarrow> u16 \<Rightarrow> ('u, 'h, 'w) io \<Rightarrow> ('u, 'h, 'w) io" where
  "metrics_guard_record g status s = record_request (mg_method g) status (mg_site g) s"

definition metrics_guard_drop :: "metrics_guard \<Rightarrow> ('u, 'h, 'w) io \<Rightarrow> ('u, 'h, 'w) io" where
  "metrics_guard_drop g s = emit [ActiveRequestsDec] s"

definition tls_handshake :: "string \<Rightarrow> ('u, 'h, 'w) io \<Rightarrow> ('u, 'h, 'w) io" where
  "tls_handshake status s = emit [TlsHandshakesTotal status] s"

definition record_auth :: "string \<Rightarrow> ('u, 'h, 'w) io \<Rightarrow> ('u, 'h, 'w) io" where
  "record_auth result s = emit [AuthRequestsTotal result, AuthRequestDuration] s"

lemmas metric_defs [model_defs] =
  emit_def record_request_def metrics_guard_new_def metrics_guard_record_def
  metrics_guard_drop_def tls_handshake_def record_auth_def

section \<open>Frame lemmas\<close>

lemma send_request_frame:
  assumes "send_request L secs r s = (res, s')"
  shows "io_sent s' = io_sent s @ [r]" "io_metrics s' = io_metrics s" "io_log s' = io_log s"
  using assms by (auto simp: send_request_def Let_def split: prod.splits)

lemma new_uuid_frame:
  assumes "new_uuid L s = (u, s')"
  shows "io_sent s' = io_sent s" "io_metrics s' = io_metrics s" "io_log s' = io_log s"
    "u = fst (uuid_v4 L (io_world s))"
  using assms by (auto simp: new_uuid_def Let_def split: prod.splits)

lemma emit_frame [simp]:
  "io_sent (emit ms s) = io_sent s" "io_log (emit ms s) = io_log s"
  "io_world (emit ms s) = io_world s" "io_metrics (emit ms s) = io_metrics s @ ms"
  by (simp_all add: emit_def)

lemma record_auth_frame [simp]:
  "io_sent (record_auth x s) = io_sent s" "io_log (record_auth x s) = io_log s"
  "io_world (record_auth x s) = io_world s"
  by (simp_all add: record_auth_def)

text \<open>An initial state over the concrete instance, for concrete runs.\<close>

definition ref_io :: "(string \<times> string) list \<Rightarrow> ref_headers client_outcome list
    \<Rightarrow> (ref_uri, ref_headers, ref_world) io" where
  "ref_io env replies =
     \<lparr>io_world = \<lparr>rw_env = env, rw_replies = replies\<rparr>, io_sent = [], io_metrics = [], io_log = []\<rparr>"

end
