(* ===== verification/Auth_Headers.thy ===== *)
theory Auth_Headers
  imports Effects
begin

text \<open>
  Header value templates (\<open>src/auth/headers.rs\<close>) and token validation
  (\<open>src/auth/validator.rs\<close>).

  The two placeholder loops search the text they have just rewritten, so they need not
  end; they are \<open>partial_function (option)\<close>, where \<open>None\<close> means that the loop does not
  return. \<open>subst_loop_returns\<close> gives a condition under which they do,
  \<open>process_upstream_substitution_expands\<close> the value of every well-formed template, and
  \<open>process_header_substitution_diverges\<close> a request on which the loop never ends.
\<close>

section \<open>Operations\<close>

text \<open>
  One placeholder loop: \<open>opn\<close> is the text that opens a placeholder, \<open>unclosed\<close> the error
  text for a start position, \<open>lookup\<close> the value of a name.
\<close>

partial_function (option) subst_loop ::
  "string \<Rightarrow> (nat \<Rightarrow> string) \<Rightarrow> (string \<Rightarrow> string option) \<Rightarrow> string \<Rightarrow> (string + string) option" where
  "subst_loop opn unclosed lookup result =
     (case str_find result opn of
        None \<Rightarrow> Some (Inr result)
      | Some start \<Rightarrow>
          (case str_find (drop start result) ''}'' of
             None \<Rightarrow> Some (Inl (unclosed start))
           | Some e \<Rightarrow>
               let stop = e + start;
                   name = take (stop - (start + length opn)) (drop (start + length opn) result)
               in (case lookup name of
                     Some v \<Rightarrow> subst_loop opn unclosed lookup (replace_range result start stop v)
                   | None \<Rightarrow> subst_loop opn unclosed lookup (replace_range result start stop []))))"

declare subst_loop.simps [code]

definition header_loop :: "('u, 'h, 'w) lib \<Rightarrow> 'h \<Rightarrow> string \<Rightarrow> (string + string) option" where
  "header_loop L h result =
     subst_loop ''{header.'' (\<lambda>i. ''Unclosed header substitution at position '' @ show_nat i)
       (\<lambda>n. Option.bind (hm_get L h n) (header_value_to_str L)) result"

definition env_loop :: "('u, 'h, 'w) lib \<Rightarrow> 'w \<Rightarrow> string \<Rightarrow> (string + string) option" where
  "env_loop L w result =
     subst_loop ''{env.'' (\<lambda>i. ''Unclosed environment variable substitution at position '' @ show_nat i)
       (env_var L w) result"

definition process_header_substitution ::
  "('u, 'h, 'w) lib \<Rightarrow> string \<Rightarrow> 'h \<Rightarrow> ('u, 'h, 'w) io \<Rightarrow> ((string + string) \<times> ('u, 'h, 'w) io) option" where
  "process_header_substitution L val h s =
     Option.bind (header_loop L h val) (\<lambda>r1.
       case r1 of Inl e \<Rightarrow> Some (Inl e, s)
       | Inr t1 \<Rightarrow> Option.bind (env_loop L (io_world s) t1) (\<lambda>r2.
           case r2 of Inl e \<Rightarrow> Some (Inl e, s)
           | Inr t2 \<Rightarrow> (let (u, s') = new_uuid L s in Some (Inr (str_replace t2 ''{uuid}'' u), s'))))"

definition process_upstream_substitution ::
  "('u, 'h, 'w) lib \<Rightarrow> string \<Rightarrow> 'h \<Rightarrow> string \<Rightarrow> string \<Rightarrow> string \<Rightarrow> ('u, 'h, 'w) io
     \<Rightarrow> ((string + string) \<times> ('u, 'h, 'w) io) option" where
  "process_upstream_substitution L val h upstream_host request_uri remote_ip s =
     Option.bind (process_header_substitution L val h s) (\<lambda>(r, s').
       case r of Inl e \<Rightarrow> Some (Inl e, s')
       | Inr t \<Rightarrow>
           let t1 = str_replace t ''{upstream_host}'' upstream_host;
               t2 = str_replace t1 ''{request.uri}'' request_uri;
               t3 = str_replace t2 ''{remote_ip}'' remote_ip
           in Some (Inr t3, s'))"

definition extract_remote_ip :: "('u, 'h, 'w) lib \<Rightarrow> 'h \<Rightarrow> string option" where
  "extract_remote_ip L h =
     (case Option.bind (hm_get L h ''X-Forwarded-For'') (header_value_to_str L) of
        Some xff \<Rightarrow> Some (str_trim (hd (split_on (CHR '','') xff)))
      | None \<Rightarrow>
          (case Option.bind (hm_get L h ''X-Real-IP'') (header_value_to_str L) of
             Some xri \<Rightarrow> Some xri
           | None \<Rightarrow> None))"

definition validate_token :: "('u, 'h, 'w) lib \<Rightarrow> ('u, 'h) request \<Rightarrow> string \<Rightarrow> string + bool" where
  "validate_token L r validator_url =
     (case Option.bind (hm_get L (req_headers r) ''Authorization'') (header_value_to_str L) of
        None \<Rightarrow> Inl ''Missing Authorization header''
      | Some auth_header \<Rightarrow> Inr True)"

definition validate_token_with_header ::
  "('u, 'h, 'w) lib \<Rightarrow> ('u, 'h) request \<Rightarrow> string \<Rightarrow> string \<Rightarrow> string + bool" where
  "validate_token_with_header L r validator_url header_name =
     (case Option.bind (hm_get L (req_headers r) header_name) (header_value_to_str L) of
        None \<Rightarrow> Inl (''Missing '' @ header_name @ '' header'')
      | Some auth_header \<Rightarrow> Inr True)"

section \<open>One iteration\<close>

definition brace_count :: "string \<Rightarrow> nat" where
  "brace_count s = length (filter (\<lambda>c. c = CHR ''{'') s)"

lemma brace_count_append [simp]: "brace_count (a @ b) = brace_count a + brace_count b"
  by (simp add: brace_count_def)

lemma brace_count_zero: "CHR ''{'' \<notin> set s \<Longrightarrow> brace_count s = 0"
  by (auto simp: brace_count_def filter_empty_conv)

lemma str_find_close_shape:
  assumes "str_find s ''}'' = Some e"
  shows "s = take e s @ ''}'' @ drop (Suc e) s"
proof -
  from str_find_SomeD [OF assms] obtain r where r: "s = take e s @ ''}'' @ r" and le: "e + 1 \<le> length s"
    by auto
  have "drop (Suc e) s = drop (Suc e) (take e s @ ''}'' @ r)" using r by simp
  also have "\<dots> = r" using le by (simp add: min_def)
  finally show ?thesis using r by simp
qed

lemma replace_range_brace_count:
  assumes f: "str_find s opn = Some i" and e: "str_find (drop i s) ''}'' = Some e"
    and opn: "opn = CHR ''{'' # q" and v: "CHR ''{'' \<notin> set v"
  shows "brace_count (replace_range s i (e + i) v) < brace_count s"
proof -
  from str_find_SomeD [OF f] obtain r where r: "s = take i s @ opn @ r" and le: "i + length opn \<le> length s"
    by blast
  have d: "drop i s = opn @ r" using r le by (metis append_eq_conv_conj length_take min.absorb4
        min.absorb2 add_leD1)
  have sh: "drop i s = take e (drop i s) @ ''}'' @ drop (Suc e) (drop i s)"
    by (rule str_find_close_shape [OF e])
  have "hd (drop i s) = CHR ''{''" using d opn by simp
  moreover have "hd (drop i s) = CHR ''}''" if "e = 0" using sh that by (metis append_Cons append_Nil list.sel(1) take0)
  ultimately have "e \<noteq> 0" by fastforce
  then have "CHR ''{'' \<in> set (take e (drop i s))" using d opn by (cases e) auto
  then have pos: "0 < brace_count (take e (drop i s))"
    by (auto simp: brace_count_def filter_empty_conv)
  have "brace_count s = brace_count (take i s) + brace_count (drop i s)"
    by (metis append_take_drop_id brace_count_append)
  also have "brace_count (drop i s)
      = brace_count (take e (drop i s)) + brace_count ''}'' + brace_count (drop (Suc e) (drop i s))"
    by (metis sh brace_count_append add.assoc)
  finally show ?thesis
    using pos v by (simp add: replace_range_def brace_count_zero add.commute)
qed

lemma subst_loop_returns:
  assumes opn: "opn = CHR ''{'' # q"
    and vals: "\<And>n v. lookup n = Some v \<Longrightarrow> CHR ''{'' \<notin> set v"
  shows "\<exists>r. subst_loop opn unclosed lookup s = Some r"
proof (induction "brace_count s" arbitrary: s rule: less_induct)
  case less
  show ?case
  proof (cases "str_find s opn")
    case None
    then show ?thesis by (simp add: subst_loop.simps [of _ _ _ s])
  next
    case (Some i)
    show ?thesis
    proof (cases "str_find (drop i s) ''}''")
      case None
      with Some show ?thesis by (simp add: subst_loop.simps [of _ _ _ s])
    next
      case e: (Some e)
      have "\<exists>r. subst_loop opn unclosed lookup (replace_range s i (e + i) v) = Some r"
        if "CHR ''{'' \<notin> set v" for v
        by (rule less) (rule replace_range_brace_count [OF Some e opn that])
      with Some e vals show ?thesis
        by (simp add: subst_loop.simps [of _ _ _ s] Let_def split: option.split)
    qed
  qed
qed

text \<open>A loop whose one iteration reproduces its input never returns.\<close>

lemma subst_loop_diverges:
  assumes f: "str_find t opn = Some i" and e: "str_find (drop i t) ''}'' = Some e"
    and l: "lookup (take (e + i - (i + length opn)) (drop (i + length opn) t)) = Some v"
    and same: "replace_range t i (e + i) v = t"
  shows "subst_loop opn unclosed lookup t = None"
proof (rule ccontr)
  assume "subst_loop opn unclosed lookup t \<noteq> None"
  then obtain r where ret: "subst_loop opn unclosed lookup t = Some r" by blast
  have "\<not> (opn = opn \<and> lookup = lookup \<and> t = t)"
  proof (rule subst_loop.raw_induct
      [where P = "\<lambda>o' u' l' s' r'. \<not> (o' = opn \<and> l' = lookup \<and> s' = t)", OF _ ret], goal_cases)
    case (1 f o' u' l' s' r')
    show ?case
    proof
      assume h: "o' = opn \<and> l' = lookup \<and> s' = t"
      then have "f o' u' l' s' = Some r'"
        using "1"(2) f e l same by (simp add: Let_def)
      from "1"(1) [OF this] h show False by blast
    qed
  qed
  then show False by blast
qed

section \<open>Templates\<close>

text \<open>
  The reference view of a template: literal text without an opening brace, and
  placeholders whose name has no brace.
\<close>

datatype seg = Lit string | Ph string

fun seg_text :: "seg \<Rightarrow> string" where
  "seg_text (Lit t) = t"
| "seg_text (Ph n) = ''{'' @ n @ ''}''"

fun seg_ok :: "seg \<Rightarrow> bool" where
  "seg_ok (Lit t) = (CHR ''{'' \<notin> set t)"
| "seg_ok (Ph n) = (CHR ''{'' \<notin> set n \<and> CHR ''}'' \<notin> set n)"

definition template_text :: "seg list \<Rightarrow> string" where
  "template_text segs = concat (map seg_text segs)"

definition placeholder_value ::
  "('u, 'h, 'w) lib \<Rightarrow> 'h \<Rightarrow> 'w \<Rightarrow> string \<Rightarrow> string \<Rightarrow> string \<Rightarrow> string \<Rightarrow> string \<Rightarrow> string" where
  "placeholder_value L h w uuid upstream_host request_uri remote_ip n =
     (case strip_prefix n ''header.'' of
        Some k \<Rightarrow> unwrap_or [] (Option.bind (hm_get L h k) (header_value_to_str L))
      | None \<Rightarrow>
          (case strip_prefix n ''env.'' of
             Some k \<Rightarrow> unwrap_or [] (env_var L w k)
           | None \<Rightarrow>
               if n = ''uuid'' then uuid
               else if n = ''upstream_host'' then upstream_host
               else if n = ''request.uri'' then request_uri
               else if n = ''remote_ip'' then remote_ip
               else ''{'' @ n @ ''}''))"

fun seg_value :: "(string \<Rightarrow> string) \<Rightarrow> seg \<Rightarrow> string" where
  "seg_value f (Lit t) = t"
| "seg_value f (Ph n) = f n"

text \<open>One stage: the placeholders it knows become literals.\<close>

fun seg_step :: "(string \<Rightarrow> string option) \<Rightarrow> seg \<Rightarrow> seg" where
  "seg_step f (Lit t) = Lit t"
| "seg_step f (Ph n) = (case f n of Some v \<Rightarrow> Lit v | None \<Rightarrow> Ph n)"

definition prefix_ph :: "string \<Rightarrow> (string \<Rightarrow> string option) \<Rightarrow> string \<Rightarrow> string option" where
  "prefix_ph q lookup n = map_option (\<lambda>k. unwrap_or [] (lookup k)) (strip_prefix n q)"

definition exact_ph :: "string \<Rightarrow> string \<Rightarrow> string \<Rightarrow> string option" where
  "exact_ph q v n = (if n = q then Some v else None)"

definition brace_free :: "string option \<Rightarrow> bool" where
  "brace_free v = (case v of None \<Rightarrow> True | Some t \<Rightarrow> CHR ''{'' \<notin> set t)"

lemma template_text_simps [simp]:
  "template_text [] = []" "template_text (x # xs) = seg_text x @ template_text xs"
  "template_text (xs @ ys) = template_text xs @ template_text ys"
  by (simp_all add: template_text_def)

lemma starts_with_stop: "c \<notin> set q \<Longrightarrow> starts_with (w @ c # t) q = starts_with w q"
proof (induction w q rule: strip_prefix.induct)
  case (1 s)
  then show ?case by (simp add: starts_with_def)
next
  case (2 p ps)
  then show ?case by (auto simp: starts_with_def)
next
  case (3 x s p ps)
  then show ?case by (auto simp: starts_with_def)
qed

lemma str_find_skip:
  "(\<And>k. k < length s \<Longrightarrow> \<not> starts_with (drop k s @ t) p) \<Longrightarrow>
     str_find (s @ t) p = map_option (\<lambda>i. length s + i) (str_find t p)"
proof (induction s)
  case Nil
  then show ?case by (simp add: option.map_ident)
next
  case (Cons c s)
  from Cons.prems [of 0] have "\<not> starts_with (c # s @ t) p" by simp
  moreover have "\<not> starts_with (drop k s @ t) p" if "k < length s" for k
    using Cons.prems [of "Suc k"] that by simp
  ultimately show ?case
    using Cons.IH by (simp add: option.map_comp comp_def)
qed

lemma replace_from_skip:
  "p \<noteq> [] \<Longrightarrow> (\<And>k. k < length s \<Longrightarrow> \<not> starts_with (drop k s @ t) p) \<Longrightarrow>
     replace_from p v (s @ t) = s @ replace_from p v t"
proof (induction s)
  case Nil
  then show ?case by simp
next
  case (Cons c s)
  from Cons.prems(2) [of 0] have "strip_prefix (c # s @ t) p = None" by (simp add: starts_with_def)
  moreover have "\<not> starts_with (drop k s @ t) p" if "k < length s" for k
    using Cons.prems(2) [of "Suc k"] that by simp
  ultimately show ?case
    using Cons.IH Cons.prems(1) by (simp add: replace_from.simps [of _ _ "c # s @ t"])
qed

text \<open>Inside a well-formed segment a pattern that starts with a brace matches at its start or not at all.\<close>

lemma seg_no_match:
  assumes ok: "seg_ok x" and p: "p = CHR ''{'' # q"
    and n: "\<And>w. x = Ph w \<Longrightarrow> \<not> starts_with (w @ ''}'' @ t) q"
    and k: "k < length (seg_text x)"
  shows "\<not> starts_with (drop k (seg_text x) @ t) p"
proof (cases x)
  case (Lit u)
  then have "CHR ''{'' \<notin> set u" using ok by simp
  moreover have "u ! k \<in> set u" using k Lit by simp
  ultimately show ?thesis
    using k Lit p by (metis Cons_nth_drop_Suc append_Cons list.inject seg_text.simps(1) starts_with_iff)
next
  case (Ph w)
  show ?thesis
  proof (cases k)
    case 0
    then show ?thesis using n [OF Ph] Ph p by (simp add: starts_with_def)
  next
    case (Suc j)
    then have "seg_text x ! k \<in> set (w @ ''}'')" using k Ph by (auto simp: nth_append)
    moreover have "CHR ''{'' \<notin> set (w @ ''}'')" using ok Ph by simp
    ultimately show ?thesis
      using k p by (metis Cons_nth_drop_Suc append_Cons list.inject starts_with_iff)
  qed
qed

lemma find_in_template:
  assumes ok: "list_all seg_ok pre" and q: "CHR ''}'' \<notin> set q"
    and n: "\<And>w. Ph w \<in> set pre \<Longrightarrow> \<not> starts_with w q"
  shows "str_find (template_text pre @ t) (CHR ''{'' # q)
           = map_option (\<lambda>i. length (template_text pre) + i) (str_find t (CHR ''{'' # q))"
  using ok n
proof (induction pre)
  case Nil
  then show ?case by (simp add: option.map_ident)
next
  case (Cons x xs)
  have "\<not> starts_with (w @ ''}'' @ u) q" if "x = Ph w" for w u
    using Cons.prems(2) [of w] that q by (simp add: starts_with_stop)
  with Cons.prems(1) have "str_find (seg_text x @ template_text xs @ t) (CHR ''{'' # q)
      = map_option (\<lambda>i. length (seg_text x) + i) (str_find (template_text xs @ t) (CHR ''{'' # q))"
    by (intro str_find_skip seg_no_match) auto
  with Cons show ?case by (simp add: option.map_comp comp_def add.assoc)
qed

lemma subst_loop_hit:
  assumes f: "str_find (a @ t) opn = Some (length a)" and t: "t = opn @ n @ ''}'' @ r"
    and c: "CHR ''}'' \<notin> set opn" "CHR ''}'' \<notin> set n"
  shows "subst_loop opn unclosed lookup (a @ t)
           = subst_loop opn unclosed lookup (a @ unwrap_or [] (lookup n) @ r)"
proof -
  have e: "str_find t ''}'' = Some (length opn + length n)"
    using c t by (simp add: str_find_char takeWhile_append)
  show ?thesis
    using f e t by (subst subst_loop.simps)
      (simp add: Let_def replace_range_def split: option.split)
qed

lemma subst_loop_template:
  assumes "list_all seg_ok segs" and q: "CHR ''{'' \<notin> set q" "CHR ''}'' \<notin> set q"
    and "\<And>k. Ph (q @ k) \<in> set segs \<Longrightarrow> brace_free (lookup k)"
  shows "subst_loop (CHR ''{'' # q) unclosed lookup (template_text segs)
           = Some (Inr (template_text (map (seg_step (prefix_ph q lookup)) segs)))"
  using assms(1,4)
proof (induction "length (filter (\<lambda>x. \<exists>k. x = Ph (q @ k)) segs)" arbitrary: segs rule: less_induct)
  case less
  let ?hit = "\<lambda>x. \<exists>k. x = Ph (q @ k)"
  show ?case
  proof (cases "\<exists>x \<in> set segs. ?hit x")
    case False
    then have nh: "\<not> starts_with w q" if "Ph w \<in> set segs" for w
      using that by (auto simp: starts_with_iff)
    have none: "str_find (template_text segs) (CHR ''{'' # q) = None"
      using find_in_template [OF less.prems(1) q(2) nh, of "[]"] by simp
    have "seg_step (prefix_ph q lookup) x = x" if "x \<in> set segs" for x
      using nh that by (cases x) (auto simp: prefix_ph_def starts_with_def)
    then have "map (seg_step (prefix_ph q lookup)) segs = segs" by (simp add: map_idI)
    with none show ?thesis by (simp add: subst_loop.simps)
  next
    case True
    then obtain pre x post where sp: "segs = pre @ x # post" and hx: "?hit x"
      and np: "\<forall>y \<in> set pre. \<not> ?hit y"
      using split_list_first_prop [of segs ?hit] by blast
    from hx obtain k where x: "x = Ph (q @ k)" by blast
    have okp: "list_all seg_ok pre" "CHR ''}'' \<notin> set k" using less.prems(1) sp x by auto
    have nw: "\<not> starts_with w q" if "Ph w \<in> set pre" for w
      using np that by (auto simp: starts_with_iff)
    let ?v = "unwrap_or [] (lookup k)"
    let ?segs' = "pre @ Lit ?v # post"
    have v: "CHR ''{'' \<notin> set ?v" using less.prems(2) [of k] sp x by (auto simp: brace_free_def split: option.splits)
    let ?t = "(CHR ''{'' # q) @ k @ ''}'' @ template_text post"
    have "str_find (template_text pre @ ?t) (CHR ''{'' # q) = Some (length (template_text pre))"
      using find_in_template [OF okp(1) q(2) nw, of ?t] by (simp add: starts_with_def)
    then have step: "subst_loop (CHR ''{'' # q) unclosed lookup (template_text segs)
        = subst_loop (CHR ''{'' # q) unclosed lookup (template_text ?segs')"
      using subst_loop_hit [of "template_text pre" ?t "CHR ''{'' # q" k "template_text post"] okp(2) q(2) sp x
      by simp
    have "subst_loop (CHR ''{'' # q) unclosed lookup (template_text ?segs')
        = Some (Inr (template_text (map (seg_step (prefix_ph q lookup)) ?segs')))"
      by (rule less.hyps) (use less.prems sp x v in auto)
    moreover have "seg_step (prefix_ph q lookup) x = Lit ?v" using x by (simp add: prefix_ph_def)
    ultimately show ?thesis using step sp by simp
  qed
qed

lemma str_replace_template:
  assumes "list_all seg_ok segs" and q: "CHR ''{'' \<notin> set q" "CHR ''}'' \<notin> set q"
  shows "str_replace (template_text segs) (''{'' @ q @ ''}'') v
           = template_text (map (seg_step (exact_ph q v)) segs)"
proof -
  have "replace_from (''{'' @ q @ ''}'') v (template_text segs)
      = template_text (map (seg_step (exact_ph q v)) segs)"
    using assms(1)
  proof (induction segs)
    case Nil
    then show ?case by (simp add: replace_from.simps [of _ _ "[]"])
  next
    case (Cons x xs)
    show ?case
    proof (cases "x = Ph q")
      case True
      have "replace_from (''{'' @ q @ ''}'') v ((''{'' @ q @ ''}'') @ template_text xs)
          = v @ replace_from (''{'' @ q @ ''}'') v (template_text xs)"
        by (rule replace_from_hit) simp
      with True Cons show ?thesis by (simp add: exact_ph_def)
    next
      case False
      have "\<not> starts_with (w @ ''}'' @ u) (q @ ''}'')" if "x = Ph w" for w u
      proof
        assume "starts_with (w @ ''}'' @ u) (q @ ''}'')"
        then obtain r where r: "w @ CHR ''}'' # u = q @ CHR ''}'' # r" by (auto simp: starts_with_iff)
        have "CHR ''}'' \<notin> set w" using Cons.prems that by simp
        from before_char_unique [OF r this q(2)] have "w = q" .
        with False that show False by simp
      qed
      then have "replace_from (''{'' @ q @ ''}'') v (seg_text x @ template_text xs)
          = seg_text x @ replace_from (''{'' @ q @ ''}'') v (template_text xs)"
        using Cons.prems by (intro replace_from_skip seg_no_match [where q = "q @ ''}''"]) auto
      moreover have "seg_step (exact_ph q v) x = x"
        using False by (cases x) (auto simp: exact_ph_def)
      ultimately show ?thesis using Cons by simp
    qed
  qed
  then show ?thesis by (simp add: str_replace_def)
qed

text \<open>The whole pipeline on a template, stage by stage.\<close>

definition all_stages ::
  "('u, 'h, 'w) lib \<Rightarrow> 'h \<Rightarrow> 'w \<Rightarrow> string \<Rightarrow> string \<Rightarrow> string \<Rightarrow> string \<Rightarrow> seg \<Rightarrow> seg" where
  "all_stages L h w uuid upstream_host request_uri remote_ip =
     seg_step (exact_ph ''remote_ip'' remote_ip) \<circ> seg_step (exact_ph ''request.uri'' request_uri)
     \<circ> seg_step (exact_ph ''upstream_host'' upstream_host) \<circ> seg_step (exact_ph ''uuid'' uuid)
     \<circ> seg_step (prefix_ph ''env.'' (env_var L w))
     \<circ> seg_step (prefix_ph ''header.'' (\<lambda>n. Option.bind (hm_get L h n) (header_value_to_str L)))"

lemma all_stages_text:
  "seg_text (all_stages L h w uuid uh ru ip x) = seg_value (placeholder_value L h w uuid uh ru ip) x"
  by (cases x) (auto simp: all_stages_def placeholder_value_def prefix_ph_def exact_ph_def split: option.splits)

lemma template_all_stages:
  "template_text (map (all_stages L h w uuid uh ru ip) segs)
     = concat (map (seg_value (placeholder_value L h w uuid uh ru ip)) segs)"
  by (simp add: template_text_def all_stages_text comp_def)

lemma seg_step_ok:
  assumes "seg_ok x" and "\<And>n v. x = Ph n \<Longrightarrow> f n = Some v \<Longrightarrow> CHR ''{'' \<notin> set v"
  shows "seg_ok (seg_step f x)"
  using assms by (cases x) (auto split: option.splits)

lemma seg_step_exact_ok: "list_all seg_ok xs \<Longrightarrow> CHR ''{'' \<notin> set v \<Longrightarrow>
  list_all seg_ok (map (seg_step (exact_ph q v)) xs)"
  unfolding list_all_iff by (auto intro!: seg_step_ok simp: exact_ph_def split: if_splits)

lemma seg_step_Ph: "Ph n \<in> set (map (seg_step f) xs) \<Longrightarrow> Ph n \<in> set xs"
proof -
  assume "Ph n \<in> set (map (seg_step f) xs)"
  then obtain x where x: "x \<in> set xs" "seg_step f x = Ph n" by auto
  then show ?thesis by (cases x rule: seg.exhaust) (auto split: option.splits)
qed

lemma seg_step_prefix_ok:
  assumes "list_all seg_ok xs" and "\<And>k. Ph (q @ k) \<in> set xs \<Longrightarrow> brace_free (lookup k)"
  shows "list_all seg_ok (map (seg_step (prefix_ph q lookup)) xs)"
proof -
  have "seg_ok (seg_step (prefix_ph q lookup) x)" if "x \<in> set xs" for x
  proof (rule seg_step_ok)
    show "seg_ok x" using assms(1) that by (simp add: list_all_iff)
    fix n v assume n: "x = Ph n" "prefix_ph q lookup n = Some v"
    then obtain k where "n = q @ k" "v = unwrap_or [] (lookup k)"
      by (auto simp: prefix_ph_def strip_prefix_iff)
    then show "CHR ''{'' \<notin> set v"
      using assms(2) [of k] that n by (auto simp: brace_free_def split: option.splits)
  qed
  then show ?thesis by (auto simp: list_all_iff)
qed

text \<open>
  C27. A well-formed template expands to its text with every placeholder replaced by its
  value: headers, environment variables, the UUID, the backend authority, the request
  target and the client address, in any mixture and order, unknown placeholders left as
  they are and missing ones removed. The values must have no opening brace.
\<close>

theorem process_upstream_substitution_expands:
  assumes laws: "http_laws L" and ok: "list_all seg_ok segs"
    and hdr: "\<forall>k. Ph (''header.'' @ k) \<in> set segs \<longrightarrow>
               brace_free (Option.bind (hm_get L h k) (header_value_to_str L))"
    and env: "\<forall>k. Ph (''env.'' @ k) \<in> set segs \<longrightarrow> brace_free (env_var L (io_world s) k)"
    and ctx: "CHR ''{'' \<notin> set upstream_host" "CHR ''{'' \<notin> set request_uri"
  shows "process_upstream_substitution L (template_text segs) h upstream_host request_uri remote_ip s
           = (let (u, s') = new_uuid L s
              in Some (Inr (concat (map (seg_value
                   (placeholder_value L h (io_world s) u upstream_host request_uri remote_ip)) segs)), s'))"
proof -
  obtain u s' where us: "new_uuid L s = (u, s')" by fastforce
  then have uc: "list_all is_uuid_char u"
    using http_laws.uuid_chars [OF laws, of "io_world s"] new_uuid_frame(4) [OF us] by simp
  then have u: "CHR ''{'' \<notin> set u" by (auto simp: list_all_iff is_uuid_char_def Let_def)
  define lk where "lk n = Option.bind (hm_get L h n) (header_value_to_str L)" for n
  define g1 where "g1 = map (seg_step (prefix_ph ''header.'' lk)) segs"
  define g2 where "g2 = map (seg_step (prefix_ph ''env.'' (env_var L (io_world s)))) g1"
  define g3 where "g3 = map (seg_step (exact_ph ''uuid'' u)) g2"
  define g4 where "g4 = map (seg_step (exact_ph ''upstream_host'' upstream_host)) g3"
  define g5 where "g5 = map (seg_step (exact_ph ''request.uri'' request_uri)) g4"
  have h1: "brace_free (lk k)" if "Ph (''header.'' @ k) \<in> set segs" for k
    using hdr that by (simp add: lk_def)
  have h2: "brace_free (env_var L (io_world s) k)" if "Ph (''env.'' @ k) \<in> set g1" for k
    using env seg_step_Ph that unfolding g1_def by blast
  have o1: "list_all seg_ok g1" unfolding g1_def by (rule seg_step_prefix_ok [OF ok h1])
  have o2: "list_all seg_ok g2" unfolding g2_def by (rule seg_step_prefix_ok [OF o1 h2])
  have o3: "list_all seg_ok g3" unfolding g3_def by (rule seg_step_exact_ok [OF o2 u])
  have o4: "list_all seg_ok g4" unfolding g4_def by (rule seg_step_exact_ok [OF o3 ctx(1)])
  have o5: "list_all seg_ok g5" unfolding g5_def by (rule seg_step_exact_ok [OF o4 ctx(2)])
  have l1: "header_loop L h (template_text segs) = Some (Inr (template_text g1))"
    using subst_loop_template [of segs "''header.''" lk] ok h1
    by (simp add: header_loop_def g1_def lk_def [abs_def])
  have l2: "env_loop L (io_world s) (template_text g1) = Some (Inr (template_text g2))"
    using subst_loop_template [of g1 "''env.''" "env_var L (io_world s)"] o1 h2
    by (simp add: env_loop_def g2_def)
  note rep = str_replace_template [OF o2, of "''uuid''" u] str_replace_template [OF o3, of "''upstream_host''" upstream_host]
    str_replace_template [OF o4, of "''request.uri''" request_uri] str_replace_template [OF o5, of "''remote_ip''" remote_ip]
  have "map (seg_step (exact_ph ''remote_ip'' remote_ip)) g5
      = map (all_stages L h (io_world s) u upstream_host request_uri remote_ip) segs"
    by (simp add: g5_def g4_def g3_def g2_def g1_def all_stages_def lk_def [abs_def])
  then show ?thesis
    using l1 l2 us rep template_all_stages [of L h "io_world s" u upstream_host request_uri remote_ip segs]
    by (simp add: process_upstream_substitution_def process_header_substitution_def Let_def
        g3_def [symmetric] g4_def [symmetric] g5_def [symmetric])
qed

theorem process_upstream_substitution_expands_witness:
  "process_upstream_substitution ref_lib ''h={upstream_host} t={header.X-Trace}'' [(''x-trace'', ''abc'')]
     ''b:80'' ''/x'' ''1.2.3.4'' (ref_io [] []) = Some (Inr ''h=b:80 t=abc'', ref_io [] [])"
proof -
  let ?segs = "[Lit ''h='', Ph ''upstream_host'', Lit '' t='', Ph ''header.X-Trace'']"
  have g: "hm_get ref_lib [(''x-trace'', ''abc'')] ''X-Trace'' = Some ''abc''"
    "header_value_to_str ref_lib ''abc'' = Some ''abc''"
    by code_simp+
  have u: "new_uuid ref_lib (ref_io [] []) = (ref_uuid, ref_io [] [])"
    by code_simp
  have b: "brace_free (Option.bind (hm_get ref_lib [(''x-trace'', ''abc'')] k) (header_value_to_str ref_lib))"
    if "''header.X-Trace'' = ''header.'' @ k" for k
  proof -
    have "k = ''X-Trace''" using that by simp
    then show ?thesis by (simp add: g brace_free_def)
  qed
  have "process_upstream_substitution ref_lib (template_text ?segs) [(''x-trace'', ''abc'')]
     ''b:80'' ''/x'' ''1.2.3.4'' (ref_io [] []) = Some (Inr ''h=b:80 t=abc'', ref_io [] [])"
    using process_upstream_substitution_expands [OF ref_http.http_laws_axioms, of ?segs "[(''x-trace'', ''abc'')]"
        "ref_io [] []" "''b:80''" "''/x''" "''1.2.3.4''"] b
    by (simp add: u g placeholder_value_def)
  then show ?thesis by simp
qed

text \<open>
  C28. A client can make the proxy loop for ever: when the configuration copies a request
  header with a placeholder, a request whose header value is that same placeholder is
  rewritten to itself at every iteration and the substitution never returns.
\<close>

theorem process_header_substitution_diverges:
  assumes laws: "http_laws L" and n: "list_all is_visible n" "CHR ''}'' \<notin> set n"
    and h: "hm_get L h n = Some (''{header.'' @ n @ ''}'')"
  shows "process_header_substitution L (''{header.'' @ n @ ''}'') h s = None"
proof -
  have v: "header_value_to_str L (''{header.'' @ n @ ''}'') = Some (''{header.'' @ n @ ''}'')"
    using n http_laws.axioms(1) [OF laws, THEN header_laws.to_str_eq] by (simp add: is_visible_def)
  have "header_loop L h (''{header.'' @ n @ ''}'') = None"
    unfolding header_loop_def
    by (rule subst_loop_diverges [where i = 0 and e = "8 + length n" and v = "''{header.'' @ n @ ''}''"])
      (use n h v in \<open>simp_all add: starts_with_def str_find_char takeWhile_append replace_range_def\<close>)
  then show ?thesis by (simp add: process_header_substitution_def)
qed

theorem process_header_substitution_diverges_witness:
  "process_header_substitution ref_lib ''{header.X-Id}'' [(''x-id'', ''{header.X-Id}'')] (ref_io [] []) = None"
proof -
  have "hm_get ref_lib [(''x-id'', ''{header.X-Id}'')] ''X-Id'' = Some (''{header.'' @ ''X-Id'' @ ''}'')"
    by code_simp
  moreover have "list_all is_visible ''X-Id''" by code_simp
  ultimately show ?thesis
    using process_header_substitution_diverges [OF ref_http.http_laws_axioms, of "''X-Id''"] by simp
qed

text \<open>
  Values copied from the request are expanded again by the later stages: an environment placeholder
  in a copied header is replaced by the variable's value.
\<close>

lemma copied_header_reads_environment:
  assumes laws: "http_laws L"
    and n: "CHR ''}'' \<notin> set n" and h: "hm_get L h n = Some (''{env.'' @ k @ ''}'')"
    and k: "list_all is_visible k" "CHR ''{'' \<notin> set k" "CHR ''}'' \<notin> set k"
    and e: "env_var L (io_world s) k = Some secret" "CHR ''{'' \<notin> set secret"
  shows "process_header_substitution L (''{header.'' @ n @ ''}'') h s = Some (Inr secret, snd (new_uuid L s))"
proof -
  let ?lk = "\<lambda>n. Option.bind (hm_get L h n) (header_value_to_str L)"
  let ?env = "[Ph (''env.'' @ k)]"
  have v: "?lk n = Some (template_text ?env)"
    using h k http_laws.axioms(1) [OF laws, THEN header_laws.to_str_eq] by (simp add: is_visible_def)
  have "header_loop L h (''{header.'' @ n @ ''}'')
      = subst_loop ''{header.'' (\<lambda>i. ''Unclosed header substitution at position '' @ show_nat i) ?lk (template_text ?env)"
    using subst_loop_hit [of "[]" "''{header.'' @ n @ ''}''" "''{header.''" n "[]" _ ?lk] n v
    by (simp add: header_loop_def starts_with_def)
  also have "\<dots> = Some (Inr (template_text ?env))"
    using subst_loop_template [of ?env "''header.''" ?lk] k by (simp add: prefix_ph_def)
  finally have l1: "header_loop L h (''{header.'' @ n @ ''}'') = Some (Inr (template_text ?env))" .
  have l2: "env_loop L (io_world s) (template_text ?env) = Some (Inr secret)"
    using subst_loop_template [of ?env "''env.''" "env_var L (io_world s)"] k e
    by (simp add: env_loop_def prefix_ph_def brace_free_def)
  obtain u s' where us: "new_uuid L s = (u, s')" by fastforce
  have "str_replace secret ''{uuid}'' u = secret"
    using str_replace_template [of "[Lit secret]" "''uuid''" u] e by simp
  with l1 l2 us show ?thesis by (simp add: process_header_substitution_def)
qed

end
