(* ===== verification/Directives.thy ===== *)
theory Directives
  imports Auth_Headers
begin

text \<open>
  Directive handlers (\<open>src/proxy/directives.rs\<close>) and the result of directive processing
  (\<open>src/proxy/types.rs\<close>). A handler whose template does not return yields \<open>None\<close>.
\<close>

section \<open>Operations\<close>

datatype action_result =
    AR_Respond u16 string
  | AR_ReverseProxy string string "u64 option" "u64 option" "header_directive list"
  | AR_Redirect u16 string
  | AR_AuthDenied u16 "string option"

datatype header_error = BadHeaderName | BadTemplate string | BadHeaderValue

definition handle_reverse_proxy ::
  "string \<Rightarrow> string \<Rightarrow> u64 option \<Rightarrow> u64 option \<Rightarrow> header_directive list \<Rightarrow> action_result" where
  "handle_reverse_proxy to path connect_timeout read_timeout header_up =
     AR_ReverseProxy to path connect_timeout read_timeout header_up"

definition handle_respond :: "u16 \<Rightarrow> string \<Rightarrow> action_result" where
  "handle_respond status body = AR_Respond status body"

definition handle_redirect :: "u16 \<Rightarrow> string \<Rightarrow> action_result" where
  "handle_redirect status url = AR_Redirect status url"

definition set_header :: "('u, 'h, 'w) lib \<Rightarrow> string \<Rightarrow> string \<Rightarrow> ('u, 'h) request \<Rightarrow> ('u, 'h) request" where
  "set_header L n v r = r\<lparr>req_headers := hm_insert L (req_headers r) n v\<rparr>"

definition del_header :: "('u, 'h, 'w) lib \<Rightarrow> string \<Rightarrow> ('u, 'h) request \<Rightarrow> ('u, 'h) request" where
  "del_header L n r = r\<lparr>req_headers := hm_remove L (req_headers r) n\<rparr>"

definition handle_header ::
  "('u, 'h, 'w) lib \<Rightarrow> string \<Rightarrow> string option \<Rightarrow> ('u, 'h) request \<Rightarrow> ('u, 'h, 'w) io
     \<Rightarrow> ((header_error + ('u, 'h) request) \<times> ('u, 'h, 'w) io) option" where
  "handle_header L name val r s =
     (case header_name_from_bytes L name of
        None \<Rightarrow> Some (Inl BadHeaderName, s)
      | Some header_name \<Rightarrow>
          (case val of
             Some v \<Rightarrow>
               Option.bind (process_header_substitution L v (req_headers r) s) (\<lambda>(p, s').
                 case p of Inl e \<Rightarrow> Some (Inl (BadTemplate e), s')
                 | Inr processed \<Rightarrow>
                     (case header_value_from_str L processed of
                        None \<Rightarrow> Some (Inl BadHeaderValue, s')
                      | Some hv \<Rightarrow> Some (Inr (set_header L header_name hv r), s')))
           | None \<Rightarrow> Some (Inr (del_header L header_name r), s)))"

definition apply_header_up_one ::
  "('u, 'h, 'w) lib \<Rightarrow> header_directive \<Rightarrow> ('u, 'h) request \<Rightarrow> string \<Rightarrow> string \<Rightarrow> string
     \<Rightarrow> ('u, 'h, 'w) io \<Rightarrow> (('u, 'h) request \<times> ('u, 'h, 'w) io) option" where
  "apply_header_up_one L d r upstream_host request_uri remote_ip s =
     (case header_name_from_bytes L (hd_name d) of
        None \<Rightarrow> Some (r, s)
      | Some header_name \<Rightarrow>
          (case hd_value d of
             Some val \<Rightarrow>
               Option.bind (process_upstream_substitution L val (req_headers r) upstream_host request_uri remote_ip s)
                 (\<lambda>(p, s').
                    case p of Inl e \<Rightarrow> Some (r, s')
                    | Inr processed \<Rightarrow>
                        (case header_value_from_str L processed of
                           None \<Rightarrow> Some (r, s')
                         | Some hv \<Rightarrow> Some (set_header L header_name hv r, s')))
           | None \<Rightarrow> Some (del_header L header_name r, s)))"

fun apply_header_up ::
  "('u, 'h, 'w) lib \<Rightarrow> header_directive list \<Rightarrow> ('u, 'h) request \<Rightarrow> string \<Rightarrow> string \<Rightarrow> string
     \<Rightarrow> ('u, 'h, 'w) io \<Rightarrow> (('u, 'h) request \<times> ('u, 'h, 'w) io) option" where
  "apply_header_up L [] r upstream_host request_uri remote_ip s = Some (r, s)"
| "apply_header_up L (d # ds) r upstream_host request_uri remote_ip s =
     (case apply_header_up_one L d r upstream_host request_uri remote_ip s of
        None \<Rightarrow> None
      | Some (r', s') \<Rightarrow> apply_header_up L ds r' upstream_host request_uri remote_ip s')"

definition handle_uri_replace :: "string \<Rightarrow> string \<Rightarrow> string \<Rightarrow> string" where
  "handle_uri_replace find_s replace_s path = str_replace path find_s replace_s"

definition handle_strip_prefix :: "string \<Rightarrow> string \<Rightarrow> string" where
  "handle_strip_prefix prefix path =
     (case strip_prefix path prefix of
        None \<Rightarrow> path
      | Some stripped \<Rightarrow>
          if stripped = [] \<or> \<not> starts_with stripped ''/'' then ''/'' @ stripped else stripped)"

definition handle_method :: "string list \<Rightarrow> ('u, 'h) request \<Rightarrow> bool" where
  "handle_method methods r = list_ex (\<lambda>m. eq_ignore_ascii_case m (req_method r)) methods"

section \<open>Frame properties\<close>

lemma set_header_frame [simp]:
  "req_method (set_header L n v r) = req_method r" "req_uri (set_header L n v r) = req_uri r"
  "req_body (set_header L n v r) = req_body r"
  "req_headers (set_header L n v r) = hm_insert L (req_headers r) n v"
  by (simp_all add: set_header_def)

lemma del_header_frame [simp]:
  "req_method (del_header L n r) = req_method r" "req_uri (del_header L n r) = req_uri r"
  "req_body (del_header L n r) = req_body r"
  "req_headers (del_header L n r) = hm_remove L (req_headers r) n"
  by (simp_all add: del_header_def)

text \<open>Template expansion draws a UUID and changes nothing else.\<close>

definition same_effects :: "('u, 'h, 'w) io \<Rightarrow> ('u, 'h, 'w) io \<Rightarrow> bool" where
  "same_effects s s' \<longleftrightarrow> io_sent s' = io_sent s \<and> io_metrics s' = io_metrics s \<and> io_log s' = io_log s"

lemma same_effects_refl [simp]: "same_effects s s"
  by (simp add: same_effects_def)

lemma same_effects_trans: "same_effects s t \<Longrightarrow> same_effects t u \<Longrightarrow> same_effects s u"
  by (simp add: same_effects_def)

lemma process_header_substitution_effects:
  "process_header_substitution L v h s = Some (p, s') \<Longrightarrow> same_effects s s'"
  by (auto simp: process_header_substitution_def same_effects_def Let_def
      split: Option.bind_splits sum.splits prod.splits dest: new_uuid_frame)

lemma process_upstream_substitution_effects:
  "process_upstream_substitution L v h a b c s = Some (p, s') \<Longrightarrow> same_effects s s'"
  by (auto simp: process_upstream_substitution_def Let_def
      split: Option.bind_splits sum.splits prod.splits dest: process_header_substitution_effects)

text \<open>What a header operation may touch: only the header it names.\<close>

definition only_header :: "('u, 'h, 'w) lib \<Rightarrow> string set \<Rightarrow> ('u, 'h) request \<Rightarrow> ('u, 'h) request \<Rightarrow> bool" where
  "only_header L names r r' \<longleftrightarrow>
     req_method r' = req_method r \<and> req_uri r' = req_uri r \<and> req_body r' = req_body r \<and>
     (\<forall>n. to_ascii_lowercase n \<notin> to_ascii_lowercase ` names \<longrightarrow>
        hm_all L (req_headers r') n = hm_all L (req_headers r) n)"

lemma only_header_refl [simp]: "only_header L N r r"
  by (simp add: only_header_def)

lemma only_header_trans: "only_header L N r r1 \<Longrightarrow> only_header L M r1 r2 \<Longrightarrow> only_header L (N \<union> M) r r2"
  by (simp add: only_header_def image_Un)

lemma only_header_mono: "only_header L N r r' \<Longrightarrow> N \<subseteq> M \<Longrightarrow> only_header L M r r'"
  unfolding only_header_def by blast

lemma only_header_set:
  assumes "header_laws L" "header_name_from_bytes L n = Some k"
  shows "only_header L {n} r (set_header L k v r)"
  by (simp add: only_header_def header_laws.all_insert_name [OF assms])

lemma only_header_del:
  assumes "header_laws L" "header_name_from_bytes L n = Some k"
  shows "only_header L {n} r (del_header L k r)"
  using header_laws.name_lower [OF assms] by (simp add: only_header_def header_laws.all_remove [OF assms(1)])

lemma handle_header_frame:
  assumes "header_laws L" and h: "handle_header L n v r s = Some (Inr r', s')"
  shows "only_header L {n} r r'"
proof -
  from h obtain k where k: "header_name_from_bytes L n = Some k"
    by (auto simp: handle_header_def split: option.splits)
  with h show ?thesis
    by (auto simp: handle_header_def split: Option.bind_splits option.splits sum.splits
        intro: only_header_set [OF assms(1) k] only_header_del [OF assms(1) k])
qed

lemma handle_header_effects: "handle_header L n v r s = Some (p, s') \<Longrightarrow> same_effects s s'"
  by (auto simp: handle_header_def split: Option.bind_splits option.splits sum.splits
      dest: process_header_substitution_effects)

lemma apply_header_up_one_frame:
  assumes "header_laws L" and h: "apply_header_up_one L d r a b c s = Some (r', s')"
  shows "only_header L {hd_name d} r r' \<and> same_effects s s'"
proof (cases "header_name_from_bytes L (hd_name d)")
  case None
  then show ?thesis using h by (simp add: apply_header_up_one_def)
next
  case (Some k)
  then show ?thesis using h
    by (auto simp: apply_header_up_one_def split: Option.bind_splits option.splits sum.splits
        intro: only_header_set [OF assms(1)] only_header_del [OF assms(1)]
        dest: process_upstream_substitution_effects)
qed

lemma apply_header_up_frame:
  assumes "header_laws L"
  shows "apply_header_up L ds r a b c s = Some (r', s') \<Longrightarrow>
     only_header L (hd_name ` set ds) r r' \<and> same_effects s s'"
proof (induction ds arbitrary: r s)
  case Nil
  then show ?case by simp
next
  case (Cons d ds)
  then obtain r1 s1 where one: "apply_header_up_one L d r a b c s = Some (r1, s1)"
    and rest: "apply_header_up L ds r1 a b c s1 = Some (r', s')"
    by (auto split: option.splits)
  from apply_header_up_one_frame [OF assms one] Cons.IH [OF rest] show ?case
    using only_header_trans same_effects_trans by fastforce
qed

lemma only_header_get:
  assumes "header_laws L" "only_header L N r r'" "to_ascii_lowercase n \<notin> to_ascii_lowercase ` N"
  shows "hm_get L (req_headers r') n = hm_get L (req_headers r) n"
  using assms by (simp add: only_header_def header_laws.get_all [OF assms(1)])

section \<open>Path rewriting\<close>

text \<open>
  \<open>strip_prefix\<close> leaves a path alone unless it has the prefix, and otherwise returns
  the rest as an absolute path: the result starts with a slash and is the rest with at
  most one slash added in front.
\<close>

lemma handle_strip_prefix_absolute:
  "handle_strip_prefix prefix path =
     (if \<exists>rest. path = prefix @ rest
      then (let rest = drop (length prefix) path in if starts_with rest ''/'' then rest else ''/'' @ rest)
      else path)
   \<and> (starts_with path prefix \<longrightarrow> starts_with (handle_strip_prefix prefix path) ''/'')"
proof (cases "strip_prefix path prefix")
  case None
  then have "\<not> (\<exists>rest. path = prefix @ rest)" "\<not> starts_with path prefix"
    by (simp_all add: strip_prefix_None_iff starts_with_def)
  with None show ?thesis by (simp add: handle_strip_prefix_def)
next
  case (Some rest)
  then have p: "path = prefix @ rest" by (simp add: strip_prefix_iff)
  show ?thesis unfolding p by (auto simp: handle_strip_prefix_def starts_with_def)
qed

section \<open>Environment placeholders from clients\<close>

text \<open>
  C29. A client can choose an environment variable that the proxy copies into the request for the
  backend: with a directive \<open>header name {header.n}\<close>, a client that sends \<open>{env.k}\<close> as the value of
  \<open>n\<close> makes the proxy set the header to the value of the variable \<open>k\<close> of its own process.
\<close>

theorem client_header_reads_environment:
  assumes laws: "http_laws L"
    and n: "CHR ''}'' \<notin> set n" and h: "hm_get L (req_headers r) n = Some (''{env.'' @ k @ ''}'')"
    and k: "list_all is_visible k" "CHR ''{'' \<notin> set k" "CHR ''}'' \<notin> set k"
    and e: "env_var L (io_world s) k = Some secret" "CHR ''{'' \<notin> set secret" "list_all is_visible secret"
    and name: "header_name_from_bytes L name = Some hn"
  shows "\<exists>r' s'. handle_header L name (Some (''{header.'' @ n @ ''}'')) r s = Some (Inr r', s')
     \<and> hm_all L (req_headers r') name = [secret]"
proof -
  note hl = http_laws.axioms(1) [OF laws]
  let ?r = "set_header L hn secret r"
  have "handle_header L name (Some (''{header.'' @ n @ ''}'')) r s = Some (Inr ?r, snd (new_uuid L s))"
    using copied_header_reads_environment [OF laws n h k e(1,2)] header_laws.value_visible [OF hl e(3)]
    by (simp add: handle_header_def name)
  moreover have "hm_all L (req_headers ?r) name = [secret]"
    using header_laws.all_insert_name [OF hl name] by simp
  ultimately show ?thesis by blast
qed

theorem client_header_reads_environment_witness:
  "\<exists>r' s'. handle_header ref_lib ''X-Copy'' (Some ''{header.X-Id}'')
       \<lparr>req_method = ''GET'', req_uri = \<lparr>ru_scheme = None, ru_authority = None, ru_pq = Some ''/''\<rparr>,
        req_headers = [(''x-id'', ''{env.KEY}'')], req_body = []\<rparr> (ref_io [(''KEY'', ''s3cret'')] []) = Some (Inr r', s')
     \<and> hm_all ref_lib (req_headers r') ''X-Copy'' = [''s3cret'']"
proof -
  let ?r = "\<lparr>req_method = ''GET'', req_uri = \<lparr>ru_scheme = None, ru_authority = None, ru_pq = Some ''/''\<rparr>,
        req_headers = [(''x-id'', ''{env.KEY}'')], req_body = []\<rparr>"
  have h: "hm_get ref_lib (req_headers ?r) ''X-Id'' = Some (''{env.'' @ ''KEY'' @ ''}'')"
    and v: "list_all is_visible ''KEY''" "list_all is_visible ''s3cret''"
    and e: "env_var ref_lib (io_world (ref_io [(''KEY'', ''s3cret'')] [])) ''KEY'' = Some ''s3cret''"
    and nm: "header_name_from_bytes ref_lib ''X-Copy'' = Some ''x-copy''"
    by code_simp+
  from client_header_reads_environment [OF ref_http.http_laws_axioms _ h v(1) _ _ e _ v(2) nm] show ?thesis by simp
qed

end
