(* ===== verification/Forward_Auth.thy ===== *)
theory Forward_Auth
  imports Directives
begin

text \<open>
  Forward authentication (\<open>src/proxy/forward_auth.rs\<close>): scrubbing of identity headers, the
  authorization subrequest, the classification of its outcome and the copying of trusted
  identity headers.
\<close>

section \<open>Operations\<close>

record auth_ctx =
  ctx_original_uri :: string
  ctx_remote_addr :: socket_addr
  ctx_is_tls :: bool

datatype auth_failure =
    Connect string
  | Timeout
  | ServerError u16
  | Malformed string

datatype 'h auth_result =
    Allowed 'h
  | Denied u16 "string option"
  | Failed auth_failure

fun remove_all :: "('u, 'h, 'w) lib \<Rightarrow> string list \<Rightarrow> ('u, 'h) request \<Rightarrow> ('u, 'h) request" where
  "remove_all L [] r = r"
| "remove_all L (n # ns) r = remove_all L ns (del_header L n r)"

definition scrub_identity_headers ::
  "('u, 'h, 'w) lib \<Rightarrow> ('u, 'h) request \<Rightarrow> 'u forward_auth_config \<Rightarrow> ('u, 'h) request" where
  "scrub_identity_headers L r cfg = remove_all L (response_headers cfg) r"

fun insert_all :: "('u, 'h, 'w) lib \<Rightarrow> (string \<times> string) list \<Rightarrow> ('u, 'h) request \<Rightarrow> ('u, 'h) request" where
  "insert_all L [] r = r"
| "insert_all L ((n, v) # xs) r = insert_all L xs (set_header L n v r)"

definition apply_identity_headers ::
  "('u, 'h, 'w) lib \<Rightarrow> ('u, 'h) request \<Rightarrow> 'h \<Rightarrow> ('u, 'h) request" where
  "apply_identity_headers L r identity = insert_all L (hm_iter L identity) r"

definition empty_request_body :: body where
  "empty_request_body = []"

definition box_incoming :: "body \<Rightarrow> body" where
  "box_incoming b = b"

text \<open>\<open>for name in names: if let Some(value) = from.get(name): into.insert(name, value)\<close>\<close>

fun copy_headers :: "('u, 'h, 'w) lib \<Rightarrow> string list \<Rightarrow> 'h \<Rightarrow> 'h \<Rightarrow> 'h" where
  "copy_headers L [] src into = into"
| "copy_headers L (n # ns) src into =
     copy_headers L ns src
       (case hm_get L src n of Some v \<Rightarrow> hm_insert L into n v | None \<Rightarrow> into)"

definition put_header :: "('u, 'h, 'w) lib \<Rightarrow> string \<Rightarrow> string \<Rightarrow> 'h \<Rightarrow> 'h" where
  "put_header L n v h =
     (case header_value_from_str L v of Some hv \<Rightarrow> hm_insert L h n hv | None \<Rightarrow> h)"

definition insert_opt :: "('u, 'h, 'w) lib \<Rightarrow> string \<Rightarrow> string option \<Rightarrow> 'h \<Rightarrow> 'h" where
  "insert_opt L n v h = (case v of Some x \<Rightarrow> hm_insert L h n x | None \<Rightarrow> h)"

definition build_auth_headers ::
  "('u, 'h, 'w) lib \<Rightarrow> string \<Rightarrow> socket_addr \<Rightarrow> bool \<Rightarrow> ('u, 'h) request \<Rightarrow> 'u forward_auth_config \<Rightarrow> 'h" where
  "build_auth_headers L original_uri remote_addr is_tls r cfg =
     (let h0 = copy_headers L (request_headers cfg) (req_headers r) (hm_new L);
          h1 = insert_opt L ''host''
                 (Option.bind (uri_authority L (endpoint cfg)) (header_value_from_str L)) h0;
          h2 = put_header L ''x-original-uri'' original_uri h1;
          h3 = put_header L ''x-original-method'' (req_method r) h2;
          h4 = put_header L ''x-forwarded-for'' (show_ip (sa_ip remote_addr)) h3;
          h5 = insert_opt L ''x-forwarded-host'' (hm_get L (req_headers r) ''host'') h4;
          h6 = put_header L ''x-forwarded-proto'' (if is_tls then ''https'' else ''http'') h5
      in insert_opt L ''x-request-id'' (hm_get L (req_headers r) ''x-request-id'') h6)"

definition build_auth_request ::
  "('u, 'h, 'w) lib \<Rightarrow> string \<Rightarrow> socket_addr \<Rightarrow> bool \<Rightarrow> ('u, 'h) request \<Rightarrow> 'u forward_auth_config
     \<Rightarrow> string + ('u, 'h) request" where
  \<comment> \<open>the builder is given a typed method and a typed URI, so its error case cannot arise\<close>
  "build_auth_request L original_uri remote_addr is_tls r cfg =
     Inr \<lparr>req_method = ''GET'', req_uri = endpoint cfg,
          req_headers = build_auth_headers L original_uri remote_addr is_tls r cfg,
          req_body = empty_request_body\<rparr>"

fun drain_body :: "body \<Rightarrow> string option" where
  "drain_body [] = None"
| "drain_body (Frame _ # fs) = drain_body fs"
| "drain_body (FrameErr e # fs) = Some e"

definition classify_auth ::
  "('u, 'h, 'w) lib \<Rightarrow> 'u forward_auth_config \<Rightarrow> 'h client_outcome \<Rightarrow> 'h auth_result" where
  "classify_auth L cfg res =
     (case res of
        Answer a \<Rightarrow>
          (let status = resp_status a;
               www_authenticate = hm_get L (resp_headers a) ''www-authenticate'';
               identity = (if status_is_success L status
                           then copy_headers L (response_headers cfg) (resp_headers a) (hm_new L)
                           else hm_new L);
               body_err = drain_body (resp_body a)
           in if status_is_success L status
              then (case body_err of Some e \<Rightarrow> Failed (Malformed e) | None \<Rightarrow> Allowed identity)
              else if status_is_client_error L status then Denied status www_authenticate
              else Failed (ServerError status))
      | ClientErr is_connect e \<Rightarrow> Failed (if is_connect then Connect e else Malformed e)
      | Elapsed \<Rightarrow> Failed Timeout)"

definition auth_label :: "'h auth_result \<Rightarrow> string" where
  "auth_label r = (case r of Allowed _ \<Rightarrow> ''allowed'' | Denied _ _ \<Rightarrow> ''denied'' | Failed _ \<Rightarrow> ''error'')"

definition resolve_auth ::
  "('u, 'h, 'w) lib \<Rightarrow> auth_ctx \<Rightarrow> ('u, 'h) request \<Rightarrow> 'u forward_auth_config \<Rightarrow> ('u, 'h, 'w) io
     \<Rightarrow> 'h auth_result \<times> ('u, 'h, 'w) io" where
  "resolve_auth L ctx r cfg s =
     (case build_auth_request L (ctx_original_uri ctx) (ctx_remote_addr ctx) (ctx_is_tls ctx) r cfg of
        Inl e \<Rightarrow> (Failed (Malformed e), record_auth ''error'' s)
      | Inr auth_req \<Rightarrow>
          (let (res, s1) = send_request L (timeout_secs cfg) auth_req s;
               outcome = classify_auth L cfg res
           in (outcome, record_auth (auth_label outcome) s1)))"

section \<open>Lemmas under the header laws\<close>

context header_laws
begin

lemma all_remove_all:
  "hm_all L (req_headers (remove_all L ns r)) m
     = (if to_ascii_lowercase m \<in> to_ascii_lowercase ` set ns then [] else hm_all L (req_headers r) m)"
  by (induction ns arbitrary: r) (auto simp: all_remove)

lemma remove_all_frame:
  "req_method (remove_all L ns r) = req_method r" "req_uri (remove_all L ns r) = req_uri r"
  "req_body (remove_all L ns r) = req_body r"
  by (induction ns arbitrary: r) auto

lemma insert_all_frame:
  "req_method (insert_all L xs r) = req_method r" "req_uri (insert_all L xs r) = req_uri r"
  "req_body (insert_all L xs r) = req_body r"
  by (induction xs arbitrary: r) auto

lemma all_insert_all:
  assumes "\<And>n v. (n, v) \<in> set xs \<Longrightarrow> header_name_from_bytes L n = Some n"
  shows "hm_all L (req_headers (insert_all L xs r)) m
     = (case map snd (filter (\<lambda>(k, _). k = to_ascii_lowercase m) xs) of
          [] \<Rightarrow> hm_all L (req_headers r) m | vs \<Rightarrow> [last vs])"
  using assms
proof (induction xs arbitrary: r)
  case Nil
  then show ?case by simp
next
  case (Cons x xs)
  obtain n v where x: "x = (n, v)" by fastforce
  then have nm: "header_name_from_bytes L n = Some n" using Cons.prems [of n v] by simp
  then have ln: "to_ascii_lowercase n = n" using name_lower by metis
  have "header_name_from_bytes L n \<noteq> None" using nm by simp
  then have ins: "hm_all L (req_headers (set_header L n v r)) m
      = (if to_ascii_lowercase m = n then [v] else hm_all L (req_headers r) m)"
    using ln by (simp add: all_insert)
  have ih: "hm_all L (req_headers (insert_all L xs (set_header L n v r))) m
      = (case map snd (filter (\<lambda>(k, _). k = to_ascii_lowercase m) xs) of
          [] \<Rightarrow> hm_all L (req_headers (set_header L n v r)) m | vs \<Rightarrow> [last vs])"
    by (rule Cons.IH) (rule Cons.prems, rule list.set_intros(2))
  show ?case
    using ih ins unfolding x by (auto split: list.splits)
qed

lemma copy_headers_all:
  assumes "\<And>n. n \<in> set ns \<Longrightarrow> header_name_from_bytes L n \<noteq> None"
  shows "hm_all L (copy_headers L ns src into) m
     = (if to_ascii_lowercase m \<in> to_ascii_lowercase ` set ns \<and> hm_get L src m \<noteq> None
        then [the (hm_get L src m)] else hm_all L into m)"
  using assms
proof (induction ns arbitrary: into)
  case Nil
  then show ?case by simp
next
  case (Cons n ns)
  have n: "header_name_from_bytes L n \<noteq> None" using Cons.prems by simp
  show ?case
  proof (cases "hm_get L src n")
    case None
    then show ?thesis using Cons get_cong [of n m src] by auto
  next
    case (Some v)
    show ?thesis
      using Cons.IH [of "hm_insert L into n v"] Cons.prems Some get_cong [of n m src]
        all_insert [OF n, of into v m]
      by auto
  qed
qed

lemma put_header_all:
  assumes "is_token n"
  shows "hm_all L (put_header L n v h) m
     = (if to_ascii_lowercase m = to_ascii_lowercase n \<and> header_value_from_str L v \<noteq> None
        then [v] else hm_all L h m)"
  using assms name_token [OF assms] value_same by (auto simp: put_header_def all_insert split: option.splits)

lemma insert_opt_all:
  assumes "is_token n"
  shows "hm_all L (insert_opt L n v h) m
     = (if to_ascii_lowercase m = to_ascii_lowercase n \<and> v \<noteq> None then [the v] else hm_all L h m)"
  using assms name_token [OF assms] by (auto simp: insert_opt_def all_insert split: option.splits)

end

section \<open>Identity headers\<close>

definition identity_names :: "'u forward_auth_config \<Rightarrow> string set" where
  "identity_names cfg = to_ascii_lowercase ` set (response_headers cfg)"

lemma valid_names_ne_None:
  "valid_header_names L ns \<Longrightarrow> n \<in> set ns \<Longrightarrow> header_name_from_bytes L n \<noteq> None"
  by (auto simp: valid_header_names_def list_all_iff)

text \<open>
  Spoofing protection: after the scrub no configured identity header is left, and every
  other header, the method, the target and the body are as the client sent them.
\<close>

lemma scrub_identity_headers_removes:
  assumes laws: "http_laws L"
  shows "hm_all L (req_headers (scrub_identity_headers L r cfg)) n
           = (if to_ascii_lowercase n \<in> identity_names cfg then [] else hm_all L (req_headers r) n)
         \<and> req_method (scrub_identity_headers L r cfg) = req_method r
         \<and> req_uri (scrub_identity_headers L r cfg) = req_uri r
         \<and> req_body (scrub_identity_headers L r cfg) = req_body r"
  using header_laws.all_remove_all [OF http_laws.axioms(1) [OF laws]]
    header_laws.remove_all_frame [OF http_laws.axioms(1) [OF laws]]
  by (simp add: scrub_identity_headers_def identity_names_def)

text \<open>A forward-auth block and a client request for concrete runs.\<close>

definition sample_auth :: "ref_uri forward_auth_config" where
  "sample_auth =
     \<lparr>endpoint = \<lparr>ru_scheme = Some ''http'', ru_authority = Some ''auth:9091'', ru_pq = Some ''/verify''\<rparr>,
      request_headers = [''cookie'', ''host''], response_headers = [''remote-user''],
      fa_failure_mode = Closed, timeout_secs = 5\<rparr>"

definition sample_request :: "(ref_uri, ref_headers) request" where
  "sample_request =
     \<lparr>req_method = ''POST'', req_uri = \<lparr>ru_scheme = None, ru_authority = None, ru_pq = Some ''/app?x=1''\<rparr>,
      req_headers = [(''host'', ''site''), (''remote-user'', ''root''), (''cookie'', ''c=1''), (''secret'', ''s'')],
      req_body = [Frame ''data'']\<rparr>"

lemma copy_headers_iter_single:
  assumes hl: "header_laws L" and v: "\<And>n. n \<in> set ns \<Longrightarrow> header_name_from_bytes L n \<noteq> None"
  shows "map snd (filter (\<lambda>(k, _). k = to_ascii_lowercase m) (hm_iter L (copy_headers L ns src (hm_new L))))
     = (if to_ascii_lowercase m \<in> to_ascii_lowercase ` set ns \<and> hm_get L src m \<noteq> None
        then [the (hm_get L src m)] else [])"
  using header_laws.copy_headers_all [OF hl v, of ns src "hm_new L" m] header_laws.all_new [OF hl]
  by (simp add: hm_all_def)

text \<open>
  The headers of a request after a successful authorization: identity headers hold what
  the auth service answered and nothing else, all other headers are unchanged.
\<close>

lemma allowed_identity_headers:
  assumes hl: "header_laws L" and v: "valid_header_names L (response_headers cfg)"
  shows "hm_all L (req_headers (apply_identity_headers L (scrub_identity_headers L r cfg)
             (copy_headers L (response_headers cfg) ans (hm_new L)))) n
     = (if to_ascii_lowercase n \<in> identity_names cfg
        then (case hm_get L ans n of Some x \<Rightarrow> [x] | None \<Rightarrow> [])
        else hm_all L (req_headers r) n)"
proof -
  note vn = valid_names_ne_None [OF v]
  have "hm_all L (req_headers (insert_all L (hm_iter L (copy_headers L (response_headers cfg) ans (hm_new L)))
          (remove_all L (response_headers cfg) r))) n
      = (case map snd (filter (\<lambda>(k, _). k = to_ascii_lowercase n)
            (hm_iter L (copy_headers L (response_headers cfg) ans (hm_new L)))) of
          [] \<Rightarrow> hm_all L (req_headers (remove_all L (response_headers cfg) r)) n | vs \<Rightarrow> [last vs])"
    by (rule header_laws.all_insert_all [OF hl]) (rule header_laws.iter_names [OF hl])
  moreover have "map snd (filter (\<lambda>(k, _). k = to_ascii_lowercase n)
            (hm_iter L (copy_headers L (response_headers cfg) ans (hm_new L))))
      = (if to_ascii_lowercase n \<in> to_ascii_lowercase ` set (response_headers cfg) \<and> hm_get L ans n \<noteq> None
         then [the (hm_get L ans n)] else [])"
    by (rule copy_headers_iter_single [OF hl vn])
  ultimately show ?thesis
    unfolding apply_identity_headers_def scrub_identity_headers_def identity_names_def
    by (auto simp: header_laws.all_remove_all [OF hl] split: option.splits)
qed

section \<open>The subrequest\<close>

definition system_headers :: "string set" where
  "system_headers = {''host'', ''x-original-uri'', ''x-original-method'', ''x-forwarded-for'',
     ''x-forwarded-host'', ''x-forwarded-proto'', ''x-request-id''}"

lemma system_tokens:
  "is_token ''host''" "is_token ''x-original-uri''" "is_token ''x-original-method''"
  "is_token ''x-forwarded-for''" "is_token ''x-forwarded-host''" "is_token ''x-forwarded-proto''"
  "is_token ''x-request-id''"
  by code_simp+

lemma system_lower:
  "to_ascii_lowercase ''host'' = ''host''" "to_ascii_lowercase ''x-original-uri'' = ''x-original-uri''"
  "to_ascii_lowercase ''x-original-method'' = ''x-original-method''"
  "to_ascii_lowercase ''x-forwarded-for'' = ''x-forwarded-for''"
  "to_ascii_lowercase ''x-forwarded-host'' = ''x-forwarded-host''"
  "to_ascii_lowercase ''x-forwarded-proto'' = ''x-forwarded-proto''"
  "to_ascii_lowercase ''x-request-id'' = ''x-request-id''"
  by code_simp+

text \<open>
  C26. The authorization subrequest is a body-less GET of the configured endpoint. A header
  of it that is not one of the proxy's own is a whitelisted header of the client with
  the client's value, and the \<open>Host\<close> header is the endpoint's authority even when the
  client's \<open>Host\<close> is whitelisted.
\<close>

theorem build_auth_request_whitelist:
  assumes laws: "http_laws L" and valid: "valid_forward_auth L cfg"
    and req: "build_auth_request L original_uri remote_addr is_tls r cfg = Inr a"
  shows "req_method a = ''GET'' \<and> req_uri a = endpoint cfg \<and> req_body a = []
     \<and> (\<forall>n. to_ascii_lowercase n \<notin> system_headers \<longrightarrow>
          hm_all L (req_headers a) n
            = (if to_ascii_lowercase n \<in> to_ascii_lowercase ` set (request_headers cfg)
               then (case hm_get L (req_headers r) n of Some x \<Rightarrow> [x] | None \<Rightarrow> []) else []))
     \<and> (\<forall>auth. uri_authority L (endpoint cfg) = Some auth \<longrightarrow> list_all is_visible auth \<longrightarrow>
          hm_all L (req_headers a) ''host'' = [auth])"
proof -
  note hl = http_laws.axioms(1) [OF laws]
  have vn: "header_name_from_bytes L n \<noteq> None" if "n \<in> set (request_headers cfg)" for n
    using valid that by (auto simp: valid_forward_auth_def dest: valid_names_ne_None)
  note all = header_laws.insert_opt_all [OF hl] header_laws.put_header_all [OF hl]
    header_laws.copy_headers_all [OF hl vn] header_laws.all_new [OF hl] system_tokens system_lower
  have a: "a = \<lparr>req_method = ''GET'', req_uri = endpoint cfg,
      req_headers = build_auth_headers L original_uri remote_addr is_tls r cfg, req_body = []\<rparr>"
    using req by (simp add: build_auth_request_def empty_request_body_def)
  have other: "hm_all L (req_headers a) n
      = (if to_ascii_lowercase n \<in> to_ascii_lowercase ` set (request_headers cfg)
         then (case hm_get L (req_headers r) n of Some x \<Rightarrow> [x] | None \<Rightarrow> []) else [])"
    if "to_ascii_lowercase n \<notin> system_headers" for n
    using that unfolding a build_auth_headers_def Let_def system_headers_def
    by (simp add: all split: option.split)
  have host: "hm_all L (req_headers a) ''host'' = [auth]"
    if "uri_authority L (endpoint cfg) = Some auth" "list_all is_visible auth" for auth
    using that header_laws.value_visible [OF hl that(2)] unfolding a build_auth_headers_def Let_def
    by (simp add: all)
  show ?thesis using other host by (simp add: a)
qed

theorem build_auth_request_whitelist_witness:
  "\<exists>a. build_auth_request ref_lib ''/app?x=1'' (socket_addr_new (V4 10 0 0 1) 5000) True sample_request sample_auth = Inr a
     \<and> req_method a = ''GET'' \<and> req_body a = [] \<and> hm_all ref_lib (req_headers a) ''host'' = [''auth:9091'']
     \<and> hm_all ref_lib (req_headers a) ''cookie'' = [''c=1''] \<and> hm_all ref_lib (req_headers a) ''secret'' = []"
proof -
  obtain a where a: "build_auth_request ref_lib ''/app?x=1'' (socket_addr_new (V4 10 0 0 1) 5000) True
      sample_request sample_auth = Inr a"
    by (simp add: build_auth_request_def)
  have v: "valid_forward_auth ref_lib sample_auth" by code_simp
  have facts: "to_ascii_lowercase ''cookie'' \<notin> system_headers" "to_ascii_lowercase ''secret'' \<notin> system_headers"
    "to_ascii_lowercase ''cookie'' \<in> to_ascii_lowercase ` set (request_headers sample_auth)"
    "to_ascii_lowercase ''secret'' \<notin> to_ascii_lowercase ` set (request_headers sample_auth)"
    "hm_get ref_lib (req_headers sample_request) ''cookie'' = Some ''c=1''"
    "uri_authority ref_lib (endpoint sample_auth) = Some ''auth:9091''" "list_all is_visible ''auth:9091''"
    by code_simp+
  have c: "hm_all ref_lib (req_headers a) ''cookie'' = [''c=1'']"
    and s: "hm_all ref_lib (req_headers a) ''secret'' = []"
    using build_auth_request_whitelist [OF ref_http.http_laws_axioms v a] facts by simp_all
  show ?thesis
    using build_auth_request_whitelist [OF ref_http.http_laws_axioms v a] facts(6,7) a c s by auto
qed

section \<open>Classification\<close>

text \<open>
  C14. What the code decides about each answer, over all status ranges: a 2xx answer whose body
  drained completely, within the time limit, allows the request, as documented; 4xx denies it with
  the service's status and challenge, as documented; everything else is a failure, on which the
  configured failure mode decides: connect error, other client error, time-out, broken 2xx body and
  5xx, which the documentation calls infrastructure failures, and also 1xx and 3xx, of which it
  does not speak. Each outcome is counted once, under its own label, and exactly
  one subrequest is sent.
\<close>

theorem resolve_auth_decision:
  assumes laws: "http_laws L" and res: "resolve_auth L ctx r cfg s = (outcome, s')"
  shows "\<exists>a w' result.
     build_auth_request L (ctx_original_uri ctx) (ctx_remote_addr ctx) (ctx_is_tls ctx) r cfg = Inr a
     \<and> client_request L (io_world s) (timeout_secs cfg) a = (result, w')
     \<and> io_world s' = w' \<and> io_sent s' = io_sent s @ [a] \<and> io_log s' = io_log s
     \<and> io_metrics s' = io_metrics s @ [AuthRequestsTotal (auth_label outcome), AuthRequestDuration]
     \<and> outcome = (case result of
         Answer x \<Rightarrow>
           if 200 \<le> resp_status x \<and> resp_status x < 300
           then (case drain_body (resp_body x) of
                   None \<Rightarrow> Allowed (copy_headers L (response_headers cfg) (resp_headers x) (hm_new L))
                 | Some e \<Rightarrow> Failed (Malformed e))
           else if 400 \<le> resp_status x \<and> resp_status x < 500
           then Denied (resp_status x) (hm_get L (resp_headers x) ''www-authenticate'')
           else Failed (ServerError (resp_status x))
       | ClientErr c e \<Rightarrow> Failed (if c then Connect e else Malformed e)
       | Elapsed \<Rightarrow> Failed Timeout)"
proof -
  note st = http_laws.is_success [OF laws] http_laws.is_client_error [OF laws]
  obtain a where a: "build_auth_request L (ctx_original_uri ctx) (ctx_remote_addr ctx) (ctx_is_tls ctx) r cfg = Inr a"
    by (simp add: build_auth_request_def)
  obtain result w' where c: "client_request L (io_world s) (timeout_secs cfg) a = (result, w')" by fastforce
  have o: "outcome = classify_auth L cfg result"
    and s': "s' = record_auth (auth_label outcome) (s\<lparr>io_world := w', io_sent := io_sent s @ [a]\<rparr>)"
    using res a c by (auto simp: resolve_auth_def send_request_def Let_def)
  have "classify_auth L cfg result = (case result of
         Answer x \<Rightarrow>
           if 200 \<le> resp_status x \<and> resp_status x < 300
           then (case drain_body (resp_body x) of
                   None \<Rightarrow> Allowed (copy_headers L (response_headers cfg) (resp_headers x) (hm_new L))
                 | Some e \<Rightarrow> Failed (Malformed e))
           else if 400 \<le> resp_status x \<and> resp_status x < 500
           then Denied (resp_status x) (hm_get L (resp_headers x) ''www-authenticate'')
           else Failed (ServerError (resp_status x))
       | ClientErr c e \<Rightarrow> Failed (if c then Connect e else Malformed e)
       | Elapsed \<Rightarrow> Failed Timeout)"
    by (cases result) (auto simp: classify_auth_def Let_def st split: option.split)
  with a c s' o show ?thesis
    by (intro exI [of _ a] exI [of _ w'] exI [of _ result]) (simp add: record_auth_def)
qed

theorem resolve_auth_decision_witness:
  "\<exists>s'. resolve_auth ref_lib
        \<lparr>ctx_original_uri = ''/app?x=1'', ctx_remote_addr = socket_addr_new (V4 10 0 0 1) 5000, ctx_is_tls = True\<rparr>
        sample_request sample_auth
        (ref_io [] [Answer \<lparr>resp_status = 401, resp_headers = [(''www-authenticate'', ''Basic'')], resp_body = []\<rparr>])
      = (Denied 401 (Some ''Basic''), s')
     \<and> io_metrics s' = [AuthRequestsTotal ''denied'', AuthRequestDuration] \<and> length (io_sent s') = 1"
proof -
  let ?s = "ref_io [] [Answer \<lparr>resp_status = 401, resp_headers = [(''www-authenticate'', ''Basic'')], resp_body = []\<rparr>]"
  let ?ctx = "\<lparr>ctx_original_uri = ''/app?x=1'', ctx_remote_addr = socket_addr_new (V4 10 0 0 1) 5000, ctx_is_tls = True\<rparr>"
  obtain out s' where r: "resolve_auth ref_lib ?ctx sample_request sample_auth ?s = (out, s')" by fastforce
  have c: "client_request ref_lib (io_world ?s) n a
      = (Answer \<lparr>resp_status = 401, resp_headers = [(''www-authenticate'', ''Basic'')], resp_body = []\<rparr>,
         \<lparr>rw_env = [], rw_replies = []\<rparr>)" for n a
    by (simp add: ref_lib_def ref_client_def ref_io_def)
  have h: "hm_get ref_lib [(''www-authenticate'', ''Basic'')] ''www-authenticate'' = Some ''Basic''" by code_simp
  have "out = Denied 401 (Some ''Basic'') \<and> io_metrics s' = [AuthRequestsTotal ''denied'', AuthRequestDuration]
      \<and> length (io_sent s') = 1"
    using resolve_auth_decision [OF ref_http.http_laws_axioms r] unfolding c
    by (auto simp: h auth_label_def) (simp_all add: ref_io_def)
  with r show ?thesis by auto
qed

end
