(* ===== verification/Access_Log.thy ===== *)
theory Access_Log
  imports Effects
begin

text \<open>
  Request identifiers and the access-log guard (\<open>src/proxy/access_log.rs\<close>, with the
  \<open>logging\<close> feature on). The guard's start time and the logged duration are not modelled.
\<close>

section \<open>Request identifiers\<close>

definition ensure_request_id ::
  "('u, 'h, 'w) lib \<Rightarrow> ('u, 'h) request \<Rightarrow> ('u, 'h, 'w) io
     \<Rightarrow> string \<times> ('u, 'h) request \<times> ('u, 'h, 'w) io" where
  "ensure_request_id L r s =
     (case Option.bind (hm_get L (req_headers r) ''X-Request-ID'') (header_value_to_str L) of
        Some rid \<Rightarrow> (rid, r, s)
      | None \<Rightarrow>
          (let (rid, s') = new_uuid L s
           in case header_value_from_str L rid of
                Some v \<Rightarrow> (rid, r\<lparr>req_headers := hm_insert L (req_headers r) ''X-Request-ID'' v\<rparr>, s')
              | None \<Rightarrow> (rid, r, s')))"

definition final_request_id :: "('u, 'h, 'w) lib \<Rightarrow> ('u, 'h) request \<Rightarrow> string \<Rightarrow> string" where
  "final_request_id L r fallback =
     unwrap_or fallback (Option.bind (hm_get L (req_headers r) ''X-Request-ID'') (header_value_to_str L))"

section \<open>The access log\<close>

definition log_access ::
  "string \<Rightarrow> socket_addr \<Rightarrow> string \<Rightarrow> string \<Rightarrow> string \<Rightarrow> u16 \<Rightarrow> nat option
     \<Rightarrow> ('u, 'h, 'w) io \<Rightarrow> ('u, 'h, 'w) io" where
  "log_access request_id remote_addr meth path host status bytes_sent s =
     s\<lparr>io_log := io_log s @ [\<lparr>le_request_id = request_id, le_remote = show_ip (sa_ip remote_addr),
        le_method = meth, le_path = path, le_host = host, le_status = status,
        le_bytes_sent = (case bytes_sent of None \<Rightarrow> ''-'' | Some n \<Rightarrow> show_nat n)\<rparr>]\<rparr>"

record access_log_guard =
  lg_request_id :: string
  lg_remote_addr :: socket_addr
  lg_method :: string
  lg_path :: string
  lg_host :: string
  lg_status :: "u16 option"
  lg_bytes_sent :: "nat option"

definition access_log_guard_new ::
  "string \<Rightarrow> socket_addr \<Rightarrow> string \<Rightarrow> string \<Rightarrow> string \<Rightarrow> access_log_guard" where
  "access_log_guard_new request_id remote_addr meth path host =
     \<lparr>lg_request_id = request_id, lg_remote_addr = remote_addr, lg_method = meth, lg_path = path,
      lg_host = host, lg_status = None, lg_bytes_sent = None\<rparr>"

definition guard_finish :: "u16 \<Rightarrow> access_log_guard \<Rightarrow> access_log_guard" where
  "guard_finish status g = g\<lparr>lg_status := Some status\<rparr>"

definition guard_set_bytes_sent :: "nat \<Rightarrow> access_log_guard \<Rightarrow> access_log_guard" where
  "guard_set_bytes_sent bytes g = g\<lparr>lg_bytes_sent := Some bytes\<rparr>"

definition guard_set_request_id :: "string \<Rightarrow> access_log_guard \<Rightarrow> access_log_guard" where
  "guard_set_request_id rid g = g\<lparr>lg_request_id := rid\<rparr>"

definition guard_drop :: "access_log_guard \<Rightarrow> ('u, 'h, 'w) io \<Rightarrow> ('u, 'h, 'w) io" where
  "guard_drop g s =
     log_access (lg_request_id g) (lg_remote_addr g) (lg_method g) (lg_path g) (lg_host g)
       (unwrap_or 500 (lg_status g)) (lg_bytes_sent g) s"

lemmas access_log_defs [model_defs] =
  log_access_def access_log_guard_new_def guard_finish_def guard_set_bytes_sent_def
  guard_set_request_id_def guard_drop_def

section \<open>Properties\<close>

lemma x_request_id_valid:
  assumes "header_laws L"
  shows "header_name_from_bytes L ''X-Request-ID'' \<noteq> None"
proof -
  have "is_token ''X-Request-ID''" by code_simp
  then show ?thesis using header_laws.name_token [OF assms] by simp
qed

text \<open>
  After \<open>ensure_request_id\<close> the request carries the identifier it returns, and it is
  printable; nothing else of the request changes.
\<close>

lemma ensure_request_id_spec:
  assumes laws: "http_laws L" and e: "ensure_request_id L r s = (rid, r', s')"
  shows "hm_get L (req_headers r') ''X-Request-ID'' = Some rid"
    and "list_all is_visible rid"
    and "req_method r' = req_method r" "req_uri r' = req_uri r" "req_body r' = req_body r"
    and "to_ascii_lowercase n \<noteq> ''x-request-id'' \<Longrightarrow> hm_all L (req_headers r') n = hm_all L (req_headers r) n"
    and "io_sent s' = io_sent s" "io_metrics s' = io_metrics s" "io_log s' = io_log s"
proof -
  note hl = http_laws.axioms(1) [OF laws]
  have low: "to_ascii_lowercase ''X-Request-ID'' = ''x-request-id''" by code_simp
  let ?get = "Option.bind (hm_get L (req_headers r) ''X-Request-ID'') (header_value_to_str L)"
  have "hm_get L (req_headers r') ''X-Request-ID'' = Some rid \<and> list_all is_visible rid
      \<and> req_method r' = req_method r \<and> req_uri r' = req_uri r \<and> req_body r' = req_body r
      \<and> (to_ascii_lowercase n \<noteq> ''x-request-id'' \<longrightarrow> hm_all L (req_headers r') n = hm_all L (req_headers r) n)
      \<and> io_sent s' = io_sent s \<and> io_metrics s' = io_metrics s \<and> io_log s' = io_log s"
  proof (cases ?get)
    case None
    obtain u t where u: "new_uuid L s = (u, t)" by fastforce
    note uf = new_uuid_frame [OF u]
    have "header_value_from_str L u = Some u" "list_all is_visible u"
      using uf(4) http_laws.uuid_value [OF laws] http_laws.uuid_visible [OF laws] by simp_all
    then show ?thesis
      using e None u uf low x_request_id_valid [OF hl]
      by (auto simp: ensure_request_id_def header_laws.get_insert [OF hl] header_laws.all_insert [OF hl])
  next
    case (Some a)
    then show ?thesis
      using e by (auto simp: ensure_request_id_def header_laws.to_str_eq [OF hl] bind_eq_Some_conv split: if_splits)
  qed
  then show "hm_get L (req_headers r') ''X-Request-ID'' = Some rid"
    and "list_all is_visible rid"
    and "req_method r' = req_method r" "req_uri r' = req_uri r" "req_body r' = req_body r"
    and "to_ascii_lowercase n \<noteq> ''x-request-id'' \<Longrightarrow> hm_all L (req_headers r') n = hm_all L (req_headers r) n"
    and "io_sent s' = io_sent s" "io_metrics s' = io_metrics s" "io_log s' = io_log s"
    by blast+
qed

lemma final_request_id_visible:
  assumes "header_laws L" "list_all is_visible fallback"
  shows "list_all is_visible (final_request_id L r fallback)"
  using assms(2) header_laws.to_str_eq [OF assms(1)]
  by (auto simp: final_request_id_def unwrap_or_def split: option.splits if_splits bind_splits)

end
