(* ===== verification/Handler.thy ===== *)
theory Handler
  imports Forward_Auth Access_Log Config_Address
begin

text \<open>
  The request handler (\<open>src/proxy/handler.rs\<close>): the directive pipeline, site lookup, error
  pages and the handling of one request from its identifier to its access-log line, with
  the \<open>logging\<close> and \<open>metrics\<close> features on. \<open>None\<close> as the result of a definition means that
  a header template did not return.
\<close>

section \<open>Pipeline\<close>

definition is_hop_header :: "string \<Rightarrow> bool" where
  "is_hop_header name =
     (name \<in> {''connection'', ''upgrade'', ''te'', ''trailer'', ''proxy-authenticate'', ''proxy-authorization''})"

definition match_pattern :: "string \<Rightarrow> string \<Rightarrow> string option" where
  "match_pattern pattern path =
     (case strip_suffix pattern ''/*'' of
        Some prefix \<Rightarrow>
          if starts_with path prefix then Some (unwrap_or path (strip_prefix path prefix)) else None
      | None \<Rightarrow> if pattern = path then Some ''/'' else None)"

definition no_action_error :: "string \<Rightarrow> string" where
  "no_action_error current_path =
     ''No action directive (respond or reverse_proxy) found in configuration for path: '' @ current_path"

type_synonym ('u, 'h, 'w) pipeline_result =
  "((string + action_result) \<times> ('u, 'h) request \<times> ('u, 'h, 'w) io) option"

text \<open>The loop of \<open>process_directives\<close>: \<open>cur\<close> is the path it was called with, \<open>path\<close> the path so far.\<close>

fun run_directives ::
  "('u, 'h, 'w) lib \<Rightarrow> string \<Rightarrow> 'u directive list \<Rightarrow> ('u, 'h) request \<Rightarrow> string \<Rightarrow> auth_ctx
     \<Rightarrow> ('u, 'h, 'w) io \<Rightarrow> ('u, 'h, 'w) pipeline_result" where
  "run_directives L cur [] r path ctx s = Some (Inl (no_action_error cur), r, s)"
| "run_directives L cur (Header name val # ds) r path ctx s =
     (case handle_header L name val r s of
        None \<Rightarrow> None
      | Some (Inl e, s') \<Rightarrow> run_directives L cur ds r path ctx s'
      | Some (Inr r', s') \<Rightarrow> run_directives L cur ds r' path ctx s')"
| "run_directives L cur (UriReplace find_s replace_s # ds) r path ctx s =
     run_directives L cur ds r (handle_uri_replace find_s replace_s path) ctx s"
| "run_directives L cur (StripPrefix prefix # ds) r path ctx s =
     run_directives L cur ds r (handle_strip_prefix prefix path) ctx s"
| "run_directives L cur (HandlePath pattern nested # ds) r path ctx s =
     (case match_pattern pattern path of
        Some remaining_path \<Rightarrow> run_directives L remaining_path nested r remaining_path ctx s
      | None \<Rightarrow> run_directives L cur ds r path ctx s)"
| "run_directives L cur (Method methods nested # ds) r path ctx s =
     (if handle_method methods r then run_directives L path nested r path ctx s
      else run_directives L cur ds r path ctx s)"
| "run_directives L cur (Redirect status url # ds) r path ctx s =
     Some (Inr (handle_redirect status url), r, s)"
| "run_directives L cur (Respond status body # ds) r path ctx s =
     Some (Inr (handle_respond status body), r, s)"
| "run_directives L cur (ReverseProxy to connect_timeout read_timeout header_up # ds) r path ctx s =
     Some (Inr (handle_reverse_proxy to path connect_timeout read_timeout header_up), r, s)"
| "run_directives L cur (ForwardAuth auth_cfg # ds) r path ctx s =
     (let r1 = scrub_identity_headers L r auth_cfg
      in case resolve_auth L ctx r1 auth_cfg s of
           (Allowed identity, s') \<Rightarrow>
             run_directives L cur ds (apply_identity_headers L r1 identity) path ctx s'
         | (Denied status www_authenticate, s') \<Rightarrow>
             Some (Inr (AR_AuthDenied status www_authenticate), r1, s')
         | (Failed _, s') \<Rightarrow>
             (case fa_failure_mode auth_cfg of
                Closed \<Rightarrow> Some (Inr (AR_AuthDenied 503 None), r1, s')
              | Open \<Rightarrow> run_directives L cur ds r1 path ctx s'))"

definition process_directives ::
  "('u, 'h, 'w) lib \<Rightarrow> 'u directive list \<Rightarrow> ('u, 'h) request \<Rightarrow> string \<Rightarrow> auth_ctx
     \<Rightarrow> ('u, 'h, 'w) io \<Rightarrow> ('u, 'h, 'w) pipeline_result" where
  "process_directives L ds r current_path ctx s = run_directives L current_path ds r current_path ctx s"

section \<open>Site lookup\<close>

definition host_has_port :: "string \<Rightarrow> bool" where
  "host_has_port host =
     (if starts_with host ''[''
      then (case str_find host '']'' of
              Some bracket_end \<Rightarrow> str_contains (drop bracket_end host) '':''
            | None \<Rightarrow> False)
      else str_contains host '':'')"

definition sni_matches :: "'u config \<Rightarrow> string \<Rightarrow> 'u site_config list" where
  "sni_matches config host =
     filter (\<lambda>s. tls s \<noteq> None \<and> eq_ignore_ascii_case (extract_hostname (address s)) host)
       (sites_values config)"

definition strip_host_port :: "string \<Rightarrow> string" where
  "strip_host_port host =
     (if starts_with host ''[''
      then take (unwrap_or (length host) (str_find host '']'') - 1) (drop 1 host)
      else (case rsplit_once (CHR '':'') host of Some (name, _) \<Rightarrow> name | None \<Rightarrow> host))"

definition find_site :: "'u config \<Rightarrow> string \<Rightarrow> bool \<Rightarrow> 'u site_config option" where
  "find_site config host is_tls =
     (case sites_get config host of
        Some site \<Rightarrow> Some site
      | None \<Rightarrow>
          if \<not> host_has_port host then
            (case sites_get config (host @ '':'' @ show_nat (if is_tls then 443 else 80)) of
               Some site \<Rightarrow> Some site
             | None \<Rightarrow>
                 if is_tls then
                   (case sni_matches config host of [site] \<Rightarrow> Some site | _ \<Rightarrow> None)
                 else None)
          else sites_get config (strip_host_port host))"

section \<open>Responses\<close>

datatype proxy_failure =
    InvalidResponseHeader
  | InvalidBackendUri string
  | InvalidPath string
  | InvalidUriParts string

definition response_builder :: "('u, 'h, 'w) lib \<Rightarrow> u16 \<Rightarrow> 'h response" where
  "response_builder L status = \<lparr>resp_status = status, resp_headers = hm_new L, resp_body = []\<rparr>"

definition builder_header_value :: "('u, 'h, 'w) lib \<Rightarrow> string \<Rightarrow> string \<Rightarrow> 'h response \<Rightarrow> 'h response" where
  \<comment> \<open>\<open>builder.header(name, value)\<close> with a value that is already a \<open>HeaderValue\<close>\<close>
  "builder_header_value L n v b = b\<lparr>resp_headers := hm_append L (resp_headers b) n v\<rparr>"

definition builder_header ::
  "('u, 'h, 'w) lib \<Rightarrow> string \<Rightarrow> string \<Rightarrow> proxy_failure + 'h response \<Rightarrow> proxy_failure + 'h response" where
  \<comment> \<open>\<open>builder.header(name, &str)\<close>: the value is checked, the error is kept until \<open>body()\<close>\<close>
  "builder_header L n v b =
     res_bind b (\<lambda>resp.
       case header_value_from_str L v of
         Some hv \<Rightarrow> Inr (builder_header_value L n hv resp)
       | None \<Rightarrow> Inl InvalidResponseHeader)"

definition builder_body :: "body \<Rightarrow> proxy_failure + 'h response \<Rightarrow> proxy_failure + 'h response" where
  "builder_body bd b = res_bind b (\<lambda>resp. Inr (resp\<lparr>resp_body := bd\<rparr>))"

definition full_body :: "string \<Rightarrow> body" where
  "full_body t = (if t = [] then [] else [Frame t])"

abbreviation newline :: string where
  "newline \<equiv> [CHR 0x0A]"

definition error_page :: "string \<Rightarrow> string \<Rightarrow> string \<Rightarrow> string" where
  "error_page code reason message =
     ''<!DOCTYPE html>'' @ newline @ ''        <html>'' @ newline
     @ ''        <head><title>'' @ code @ '' '' @ reason @ ''</title></head>'' @ newline
     @ ''        <body>'' @ newline
     @ ''        <h1>'' @ code @ '' '' @ reason @ ''</h1>'' @ newline
     @ ''        <p>'' @ message @ ''</p>'' @ newline
     @ ''        <hr>'' @ newline
     @ ''        <p><em>Rust Proxy Server</em></p>'' @ newline
     @ ''        </body>'' @ newline @ ''        </html>''"

definition error_response_with_id ::
  "('u, 'h, 'w) lib \<Rightarrow> u16 \<Rightarrow> string \<Rightarrow> string \<Rightarrow> 'h response \<times> nat" where
  "error_response_with_id L status message request_id =
     (let body = error_page (show_word status) (unwrap_or ''Error'' (status_canonical_reason L status)) message;
          b0 = builder_header L ''Content-Type'' ''text/html; charset=utf-8'' (Inr (response_builder L status));
          b1 = (case header_value_from_str L request_id of
                  Some val \<Rightarrow> res_bind b0 (\<lambda>resp. Inr (builder_header_value L ''X-Request-ID'' val resp))
                | None \<Rightarrow> b0);
          response = (case builder_body (full_body body) b1 of
                        Inr resp \<Rightarrow> resp
                      | Inl _ \<Rightarrow> (response_builder L 200)\<lparr>resp_body := full_body ''Internal Server Error''\<rparr>)
      in (response, length body))"

section \<open>Ending a request\<close>

text \<open>
  The guards of a request. \<open>conclude\<close> is the end of every branch that returns a response:
  body size if known, status, metrics, then the guards are dropped, the log guard first.
  \<open>abandon\<close> is an early return through \<open>?\<close>: the guards are dropped as they are.
\<close>

definition conclude ::
  "metrics_guard \<Rightarrow> access_log_guard \<Rightarrow> nat option \<Rightarrow> u16 \<Rightarrow> ('u, 'h, 'w) io \<Rightarrow> ('u, 'h, 'w) io" where
  "conclude mg lg bytes status s =
     (let lg1 = (case bytes of Some n \<Rightarrow> guard_set_bytes_sent n lg | None \<Rightarrow> lg);
          lg2 = guard_finish status lg1
      in metrics_guard_drop mg (guard_drop lg2 (metrics_guard_record mg status s)))"

definition abandon :: "metrics_guard \<Rightarrow> access_log_guard \<Rightarrow> ('u, 'h, 'w) io \<Rightarrow> ('u, 'h, 'w) io" where
  "abandon mg lg s = metrics_guard_drop mg (guard_drop lg s)"

type_synonym ('u, 'h, 'w) proxy_result = "((proxy_failure + 'h response) \<times> ('u, 'h, 'w) io) option"

definition finish_built ::
  "metrics_guard \<Rightarrow> access_log_guard \<Rightarrow> nat option \<Rightarrow> proxy_failure + 'h response \<Rightarrow> ('u, 'h, 'w) io
     \<Rightarrow> ('u, 'h, 'w) proxy_result" where
  \<comment> \<open>\<open>let response = builder.body(..)?;\<close> followed by the guard calls\<close>
  "finish_built mg lg bytes b s =
     (case b of
        Inl e \<Rightarrow> Some (Inl e, abandon mg lg s)
      | Inr resp \<Rightarrow> Some (Inr resp, conclude mg lg bytes (resp_status resp) s))"

definition finish_error ::
  "('u, 'h, 'w) lib \<Rightarrow> metrics_guard \<Rightarrow> access_log_guard \<Rightarrow> u16 \<Rightarrow> string \<Rightarrow> string \<Rightarrow> ('u, 'h, 'w) io
     \<Rightarrow> ('u, 'h, 'w) proxy_result" where
  "finish_error L mg lg status message request_id s =
     (let (resp, n) = error_response_with_id L status message request_id
      in Some (Inr resp, conclude mg lg (Some n) status s))"

section \<open>Executing the action\<close>

definition execute_redirect ::
  "('u, 'h, 'w) lib \<Rightarrow> metrics_guard \<Rightarrow> access_log_guard \<Rightarrow> string \<Rightarrow> u16 \<Rightarrow> string \<Rightarrow> ('u, 'h, 'w) io
     \<Rightarrow> ('u, 'h, 'w) proxy_result" where
  "execute_redirect L mg lg request_id status url s =
     (let status_code = unwrap_or 302 (status_from_u16 L status);
          b = builder_body (full_body [])
                (builder_header L ''X-Request-ID'' request_id
                  (builder_header L ''Location'' url (Inr (response_builder L status_code))))
      in finish_built mg lg (Some 0) b s)"

definition execute_respond ::
  "('u, 'h, 'w) lib \<Rightarrow> metrics_guard \<Rightarrow> access_log_guard \<Rightarrow> string \<Rightarrow> u16 \<Rightarrow> string \<Rightarrow> ('u, 'h, 'w) io
     \<Rightarrow> ('u, 'h, 'w) proxy_result" where
  "execute_respond L mg lg request_id status body s =
     (let status_code = unwrap_or 200 (status_from_u16 L status);
          b = builder_body (full_body body)
                (builder_header L ''X-Request-ID'' request_id (Inr (response_builder L status_code)))
      in finish_built mg lg (Some (length body)) b s)"

definition execute_auth_denied ::
  "('u, 'h, 'w) lib \<Rightarrow> metrics_guard \<Rightarrow> access_log_guard \<Rightarrow> string \<Rightarrow> u16 \<Rightarrow> string option
     \<Rightarrow> ('u, 'h, 'w) io \<Rightarrow> ('u, 'h, 'w) proxy_result" where
  "execute_auth_denied L mg lg request_id status www_authenticate s =
     (let status_code = unwrap_or 403 (status_from_u16 L status);
          body = (if status_code = 503 then ''Authorization service unavailable'' else []);
          b0 = builder_header L ''X-Request-ID'' request_id (Inr (response_builder L status_code));
          b1 = (case www_authenticate of
                  Some challenge \<Rightarrow>
                    res_bind b0 (\<lambda>resp. Inr (builder_header_value L ''WWW-Authenticate'' challenge resp))
                | None \<Rightarrow> b0)
      in finish_built mg lg (Some (length body)) (builder_body (full_body body) b1) s)"

definition backend_with_proto :: "string \<Rightarrow> string" where
  "backend_with_proto backend_url =
     (if starts_with backend_url ''http://'' \<or> starts_with backend_url ''https://'' then backend_url
      else ''http://'' @ backend_url)"

definition path_with_query :: "string \<Rightarrow> string option \<Rightarrow> string" where
  "path_with_query path_to_send query =
     (case query of
        Some q \<Rightarrow> if \<not> str_contains path_to_send ''?'' then path_to_send @ ''?'' @ q else path_to_send
      | None \<Rightarrow> path_to_send)"

definition upstream_uri ::
  "('u, 'h, 'w) lib \<Rightarrow> string \<Rightarrow> string \<Rightarrow> 'u \<Rightarrow> proxy_failure + 'u" where
  "upstream_uri L backend_url path_to_send request_target =
     res_bind (map_err InvalidBackendUri (uri_parse L (backend_with_proto backend_url))) (\<lambda>u.
     res_bind (map_err InvalidPath
        (path_and_query_parse L (path_with_query path_to_send (uri_query L request_target)))) (\<lambda>pq.
     map_err InvalidUriParts
       (uri_from_parts L ((uri_into_parts L u)\<lparr>parts_path_and_query := Some pq\<rparr>))))"

definition upstream_request ::
  "('u, 'h, 'w) lib \<Rightarrow> socket_addr \<Rightarrow> bool \<Rightarrow> 'u \<Rightarrow> ('u, 'h) request \<Rightarrow> ('u, 'h) request" where
  \<comment> \<open>the outbound request before \<open>header_up\<close>: new target, Host, X-Forwarded-*, dropped headers\<close>
  "upstream_request L remote_addr is_tls new_uri r =
     (let r0 = r\<lparr>req_uri := new_uri\<rparr>;
          original_host_header = hm_get L (req_headers r0) ''host'';
          r1 = del_header L ''host'' r0;
          r2 = (case Option.bind (uri_authority L new_uri) (header_value_from_str L) of
                  Some host_value \<Rightarrow> set_header L ''host'' host_value r1 | None \<Rightarrow> r1);
          r3 = (case original_host_header of
                  Some host_value \<Rightarrow> set_header L ''X-Forwarded-Host'' host_value r2 | None \<Rightarrow> r2);
          r4 = set_header L ''X-Forwarded-Proto'' (if is_tls then ''https'' else ''http'') r3;
          r5 = (case header_value_from_str L (show_ip (sa_ip remote_addr)) of
                  Some ip_value \<Rightarrow> set_header L ''X-Forwarded-For'' ip_value r4 | None \<Rightarrow> r4);
          r6 = del_header L ''connection'' r5
      in del_header L ''accept-encoding'' r6)"

definition copy_response_headers :: "('u, 'h, 'w) lib \<Rightarrow> 'h \<Rightarrow> 'h response \<Rightarrow> 'h response" where
  "copy_response_headers L from_h b =
     fold (\<lambda>(n, v) b. if \<not> is_hop_header n \<and> n \<noteq> ''content-length'' then builder_header_value L n v b else b)
       (hm_iter L from_h) b"

definition relay_response ::
  "('u, 'h, 'w) lib \<Rightarrow> string \<Rightarrow> 'h response \<Rightarrow> proxy_failure + 'h response" where
  "relay_response L request_id a =
     builder_body (resp_body a)
       (builder_header L ''X-Request-ID'' request_id
         (Inr (copy_response_headers L (resp_headers a) (response_builder L (resp_status a)))))"

text \<open>
  The request for the backend, up to the point where it is handed to the client: an error of the
  target ends the request; \<open>None\<close> when a template of \<open>header_up\<close> does not return.
\<close>

definition outbound_request ::
  "('u, 'h, 'w) lib \<Rightarrow> socket_addr \<Rightarrow> bool \<Rightarrow> string \<Rightarrow> string \<Rightarrow> header_directive list
     \<Rightarrow> ('u, 'h) request \<Rightarrow> ('u, 'h, 'w) io \<Rightarrow> (proxy_failure + ('u, 'h) request \<times> ('u, 'h, 'w) io) option" where
  "outbound_request L remote_addr is_tls backend_url path_to_send header_up r s =
     (case upstream_uri L backend_url path_to_send (req_uri r) of
        Inl e \<Rightarrow> Some (Inl e)
      | Inr new_uri \<Rightarrow>
          (let original_request_uri = unwrap_or [] (uri_path_and_query L (req_uri r));
               upstream_host = unwrap_or [] (uri_authority L new_uri);
               remote_ip = unwrap_or (show_ip (sa_ip remote_addr)) (extract_remote_ip L (req_headers r));
               r1 = upstream_request L remote_addr is_tls new_uri r
           in map_option (\<lambda>(r2, s1). Inr (r2\<lparr>req_body := box_incoming (req_body r2)\<rparr>, s1))
                (apply_header_up L header_up r1 upstream_host original_request_uri remote_ip s)))"

definition execute_reverse_proxy ::
  "('u, 'h, 'w) lib \<Rightarrow> metrics_guard \<Rightarrow> access_log_guard \<Rightarrow> string \<Rightarrow> socket_addr \<Rightarrow> bool
     \<Rightarrow> string \<Rightarrow> string \<Rightarrow> u64 option \<Rightarrow> header_directive list \<Rightarrow> ('u, 'h) request
     \<Rightarrow> ('u, 'h, 'w) io \<Rightarrow> ('u, 'h, 'w) proxy_result" where
  "execute_reverse_proxy L mg lg request_id remote_addr is_tls backend_url path_to_send read_timeout header_up r s =
     (case outbound_request L remote_addr is_tls backend_url path_to_send header_up r s of
        None \<Rightarrow> None
      | Some (Inl e) \<Rightarrow> Some (Inl e, abandon mg lg s)
      | Some (Inr (send_req, s1)) \<Rightarrow>
          (let backend_timeout = unwrap_or 30 read_timeout;
               (res, s2) = send_request L backend_timeout send_req s1
           in case res of
                Answer a \<Rightarrow> finish_built mg lg None (relay_response L request_id a) s2
              | ClientErr is_connect e \<Rightarrow>
                  finish_error L mg lg 502 ''Backend service unavailable'' request_id s2
              | Elapsed \<Rightarrow>
                  finish_error L mg lg 504 ''Backend request timed out'' request_id s2))"

definition execute_action ::
  "('u, 'h, 'w) lib \<Rightarrow> metrics_guard \<Rightarrow> access_log_guard \<Rightarrow> string \<Rightarrow> socket_addr \<Rightarrow> bool
     \<Rightarrow> action_result \<Rightarrow> ('u, 'h) request \<Rightarrow> ('u, 'h, 'w) io \<Rightarrow> ('u, 'h, 'w) proxy_result" where
  "execute_action L mg lg request_id remote_addr is_tls action r s =
     (case action of
        AR_Redirect status url \<Rightarrow> execute_redirect L mg lg request_id status url s
      | AR_Respond status body \<Rightarrow> execute_respond L mg lg request_id status body s
      | AR_AuthDenied status www \<Rightarrow> execute_auth_denied L mg lg request_id status www s
      | AR_ReverseProxy backend_url path_to_send connect_timeout read_timeout header_up \<Rightarrow>
          execute_reverse_proxy L mg lg request_id remote_addr is_tls backend_url path_to_send
            read_timeout header_up r s)"

section \<open>One request\<close>

definition proxy ::
  "('u, 'h, 'w) lib \<Rightarrow> ('u, 'h) request \<Rightarrow> 'u config \<Rightarrow> socket_addr \<Rightarrow> bool \<Rightarrow> ('u, 'h, 'w) io
     \<Rightarrow> ('u, 'h, 'w) proxy_result" where
  "proxy L req config remote_addr is_tls s0 =
     (let (initial_request_id, r, s) = ensure_request_id L req s0;
          path = uri_path L (req_uri r);
          original_uri = unwrap_or [] (uri_path_and_query L (req_uri r));
          host = unwrap_or ''localhost'' (Option.bind (hm_get L (req_headers r) ''host'') (header_value_to_str L));
          (mg, s1) = metrics_guard_new (req_method r) host s;
          lg = access_log_guard_new initial_request_id remote_addr (req_method r) path host
      in case find_site config host is_tls of
           None \<Rightarrow>
             finish_error L mg lg 404 (''No configuration found for host: '' @ host) initial_request_id s1
         | Some site_config \<Rightarrow>
             (let auth_ctx = \<lparr>ctx_original_uri = original_uri, ctx_remote_addr = remote_addr, ctx_is_tls = is_tls\<rparr>
              in case process_directives L (directives site_config) r path auth_ctx s1 of
                   None \<Rightarrow> None
                 | Some (Inl e, r2, s2) \<Rightarrow>
                     (let final_id = final_request_id L r2 initial_request_id
                      in finish_error L mg (guard_set_request_id final_id lg) 500 e final_id s2)
                 | Some (Inr action, r2, s2) \<Rightarrow>
                     (let request_id = final_request_id L r2 initial_request_id
                      in execute_action L mg (guard_set_request_id request_id lg) request_id
                           remote_addr is_tls action r2 s2)))"

end
