(* ===== verification/Site_Lookup.thy ===== *)
theory Site_Lookup
  imports Handler "HOL-Library.Multiset"
begin

text \<open>
  Correctness of site lookup and path matching of \<open>Handler\<close>: what a wildcard pattern
  matches, which site serves a \<open>Host\<close> header, and that the answer does not depend on the
  iteration order of the site map.
\<close>

section \<open>Path patterns\<close>

text \<open>
  C32. A pattern that ends in \<open>/*\<close> matches exactly the paths that start with what precedes
  the suffix and hands on the rest of the path, byte for byte; any other pattern matches only
  itself and hands on the root path. In particular the wildcard does not stop at a segment
  boundary: the rest need not start with a slash.
\<close>

theorem match_pattern_iff:
  "match_pattern pattern path = Some rest \<longleftrightarrow>
     (\<exists>prefix. pattern = prefix @ ''/*'' \<and> path = prefix @ rest)
     \<or> (\<nexists>prefix. pattern = prefix @ ''/*'') \<and> pattern = path \<and> rest = ''/''"
proof (cases "strip_suffix pattern ''/*''")
  case None
  then have no: "\<nexists>prefix. pattern = prefix @ ''/*''" by (simp add: strip_suffix_None_iff)
  with None show ?thesis by (auto simp: match_pattern_def)
next
  case (Some prefix)
  then have p: "pattern = prefix @ ''/*''" by (simp add: strip_suffix_iff)
  show ?thesis
  proof (cases "strip_prefix path prefix")
    case None
    then show ?thesis
      using Some p by (auto simp: match_pattern_def starts_with_def strip_prefix_None_iff)
  next
    case r: (Some r)
    then have "path = prefix @ r" by (simp add: strip_prefix_iff)
    with r Some p show ?thesis by (auto simp: match_pattern_def starts_with_def)
  qed
qed

section \<open>Hosts and ports\<close>

lemma host_port_plain:
  assumes "CHR '':'' \<notin> set h" "\<not> starts_with h ''[''" "h \<noteq> []"
  shows "\<not> host_has_port h" "host_has_port (h @ '':'' @ p)"
    "CHR '':'' \<notin> set p \<Longrightarrow> strip_host_port (h @ '':'' @ p) = h"
proof -
  have s: "\<not> starts_with (h @ '':'' @ p) ''[''"
    using assms(2,3) by (cases h) (auto simp: starts_with_def split: if_splits)
  show "\<not> host_has_port h" using assms by (simp add: host_has_port_def)
  show "host_has_port (h @ '':'' @ p)" using s by (simp add: host_has_port_def)
  show "strip_host_port (h @ '':'' @ p) = h" if "CHR '':'' \<notin> set p"
    using s that by (simp add: strip_host_port_def)
qed

lemma host_port_bracket:
  assumes "CHR '']'' \<notin> set v6" "CHR '':'' \<notin> set p"
  shows "\<not> host_has_port (''['' @ v6 @ '']'')" "host_has_port (''['' @ v6 @ '']:'' @ p)"
    "strip_host_port (''['' @ v6 @ '']:'' @ p) = v6"
  using assms by (simp_all add: host_has_port_def strip_host_port_def starts_with_def str_find_char takeWhile_append)

section \<open>Site lookup\<close>

abbreviation site_keys_distinct :: "'u config \<Rightarrow> bool" where
  "site_keys_distinct c \<equiv> distinct (map fst (sites c))"

lemma sites_get_iff:
  "site_keys_distinct c \<Longrightarrow> sites_get c k = Some s \<longleftrightarrow> (k, s) \<in> set (sites c)"
  by (simp add: sites_get_def)

lemma sites_get_perm:
  assumes "site_keys_distinct c" "mset (sites c) = mset (sites d)"
  shows "sites_get c k = sites_get d k"
proof -
  have "distinct (map fst (sites d))"
    using assms by (metis mset_eq_imp_distinct_iff mset_map)
  moreover have "set (sites c) = set (sites d)" using assms(2) by (rule mset_eq_setD)
  ultimately have "map_of (sites c) = map_of (sites d)" using assms(1) by (simp add: map_of_inject_set)
  then show ?thesis by (simp add: sites_get_def)
qed

lemma single_perm:
  assumes "mset xs = mset ys"
  shows "(case xs of [x] \<Rightarrow> Some x | _ \<Rightarrow> None) = (case ys of [y] \<Rightarrow> Some y | _ \<Rightarrow> None)"
proof -
  have "length xs = length ys" using assms by (rule mset_eq_length)
  with assms show ?thesis
    by (cases xs; cases ys; cases "tl xs"; cases "tl ys") auto
qed

text \<open>
  C31. Site lookup does not depend on the iteration order of the site map, although one of its
  steps iterates over it: two maps with the same entries give the same answer to every
  \<open>Host\<close>.
\<close>

theorem find_site_order_independent:
  assumes "site_keys_distinct c" "mset (sites c) = mset (sites d)"
  shows "find_site c host is_tls = find_site d host is_tls"
proof -
  have "mset (sni_matches c host) = mset (sni_matches d host)"
    using assms(2) by (simp add: sni_matches_def sites_values_def)
  note single = single_perm [OF this]
  have get: "sites_get c = sites_get d" by (rule ext) (rule sites_get_perm [OF assms])
  show ?thesis unfolding find_site_def get single ..
qed

definition sample_site :: "string \<Rightarrow> bool \<Rightarrow> string \<times> ref_uri site_config" where
  "sample_site addr secure =
     (addr, \<lparr>address = addr, directives = [Respond 200 addr],
             tls = (if secure then Some \<lparr>cert_path = ''c'', key_path = ''k''\<rparr> else None)\<rparr>)"

theorem find_site_order_independent_witness:
  "find_site \<lparr>sites = [sample_site ''a:8443'' True, sample_site ''b:8443'' True]\<rparr> ''A'' True
     = Some (snd (sample_site ''a:8443'' True))
   \<and> find_site \<lparr>sites = [sample_site ''b:8443'' True, sample_site ''a:8443'' True]\<rparr> ''A'' True
     = Some (snd (sample_site ''a:8443'' True))"
proof -
  let ?c = "\<lparr>sites = [sample_site ''a:8443'' True, sample_site ''b:8443'' True]\<rparr>"
  let ?d = "\<lparr>sites = [sample_site ''b:8443'' True, sample_site ''a:8443'' True]\<rparr>"
  have "find_site ?c ''A'' True = find_site ?d ''A'' True"
    by (rule find_site_order_independent) (simp_all add: sample_site_def)
  moreover have "eq_ignore_ascii_case ''a'' ''A''" "\<not> eq_ignore_ascii_case ''b'' ''A''" by code_simp+
  then have "find_site ?c ''A'' True = Some (snd (sample_site ''a:8443'' True))"
    by (simp add: find_site_def sites_get_def sni_matches_def sites_values_def sample_site_def host_has_port_def
        starts_with_def extract_hostname_def rsplit_back_takeWhile show_nat.simps)
  ultimately show ?thesis by simp
qed

text \<open>
  C30. Which site answers. An exact key always wins. Any other site that answers is reached in
  one of three ways: the host has no port and the key is the host with the default port of
  the connection (443 for TLS, 80 otherwise); the host has no port, the connection is TLS and
  the site is the only TLS site with that host name, upper and lower case being the same; or
  the host has a port and the key is the host without it.
\<close>

theorem find_site_answers:
  assumes "site_keys_distinct c"
  shows "find_site c host is_tls = Some s \<longleftrightarrow>
     (host, s) \<in> set (sites c)
     \<or> host \<notin> fst ` set (sites c) \<and>
       (if host_has_port host then (strip_host_port host, s) \<in> set (sites c)
        else let key = host @ (if is_tls then '':443'' else '':80'')
             in (key, s) \<in> set (sites c)
                \<or> key \<notin> fst ` set (sites c) \<and> is_tls \<and> sni_matches c host = [s])"
proof -
  have key: "host @ '':'' @ show_nat (if is_tls then 443 else 80) = host @ (if is_tls then '':443'' else '':80'')"
    by (simp add: show_nat.simps)
  have none: "sites_get c k = None \<longleftrightarrow> k \<notin> fst ` set (sites c)" for k
    by (simp add: sites_get_def map_of_eq_None_iff)
  have single: "(case xs of [x] \<Rightarrow> Some x | _ \<Rightarrow> None) = Some s \<longleftrightarrow> xs = [s]" for xs
    by (auto split: list.splits)
  have cases2: "(case a of Some x \<Rightarrow> Some x | None \<Rightarrow> b) = Some s \<longleftrightarrow> a = Some s \<or> a = None \<and> b = Some s" for a b
    by (cases a) auto
  show ?thesis
    unfolding find_site_def key
    by (simp add: cases2 single none sites_get_iff [OF assms] Let_def)
qed

theorem find_site_answers_witness:
  "find_site \<lparr>sites = [sample_site ''a:80'' False, sample_site ''a:443'' True]\<rparr> ''a'' True
     = Some (snd (sample_site ''a:443'' True))
   \<and> find_site \<lparr>sites = [sample_site ''a:80'' False]\<rparr> ''a'' True = None"
proof
  show "find_site \<lparr>sites = [sample_site ''a:80'' False, sample_site ''a:443'' True]\<rparr> ''a'' True
     = Some (snd (sample_site ''a:443'' True))"
    by (subst find_site_answers) (simp_all add: sample_site_def host_has_port_def starts_with_def)
  have "find_site \<lparr>sites = [sample_site ''a:80'' False]\<rparr> ''a'' True \<noteq> Some s" for s
    by (subst find_site_answers) (simp_all add: sample_site_def host_has_port_def starts_with_def
        sni_matches_def sites_values_def)
  then show "find_site \<lparr>sites = [sample_site ''a:80'' False]\<rparr> ''a'' True = None" by blast
qed

end
