(* ===== verification/Routing.thy ===== *)
theory Routing
  imports Handler
begin

text \<open>
  Correctness of the directive pipeline of \<open>Handler\<close>. \<open>route\<close> is the abstract
  specification: which middleware steps a request meets and which terminal directive it
  reaches, as a function of its method and path alone. \<open>run_steps\<close> executes middleware
  steps. The pipeline refines their composition, and the authorization properties are
  proved on the steps.
\<close>

section \<open>Specification\<close>

datatype 'u step =
    SHeader string "string option"
  | SAuth "'u forward_auth_config"

fun route :: "'u directive list \<Rightarrow> string \<Rightarrow> string \<Rightarrow> string \<Rightarrow> 'u step list \<times> (string + action_result)" where
  "route [] meth cur path = ([], Inl (no_action_error cur))"
| "route (Header n v # ds) meth cur path = (let (ss, f) = route ds meth cur path in (SHeader n v # ss, f))"
| "route (ForwardAuth cfg # ds) meth cur path = (let (ss, f) = route ds meth cur path in (SAuth cfg # ss, f))"
| "route (UriReplace a b # ds) meth cur path = route ds meth cur (str_replace path a b)"
| "route (StripPrefix p # ds) meth cur path = route ds meth cur (handle_strip_prefix p path)"
| "route (HandlePath pat ns # ds) meth cur path =
     (case match_pattern pat path of Some rest \<Rightarrow> route ns meth rest rest | None \<Rightarrow> route ds meth cur path)"
| "route (Method ms ns # ds) meth cur path =
     (if \<exists>m \<in> set ms. eq_ignore_ascii_case m meth then route ns meth path path else route ds meth cur path)"
| "route (Redirect st url # ds) meth cur path = ([], Inr (AR_Redirect st url))"
| "route (Respond st b # ds) meth cur path = ([], Inr (AR_Respond st b))"
| "route (ReverseProxy to ct rt up # ds) meth cur path = ([], Inr (AR_ReverseProxy to path ct rt up))"

fun run_steps ::
  "('u, 'h, 'w) lib \<Rightarrow> auth_ctx \<Rightarrow> 'u step list \<Rightarrow> (string + action_result) \<Rightarrow> ('u, 'h) request
     \<Rightarrow> ('u, 'h, 'w) io \<Rightarrow> ('u, 'h, 'w) pipeline_result" where
  "run_steps L ctx [] fin r s = Some (fin, r, s)"
| "run_steps L ctx (SHeader n v # ss) fin r s =
     (case handle_header L n v r s of
        None \<Rightarrow> None
      | Some (Inl _, s') \<Rightarrow> run_steps L ctx ss fin r s'
      | Some (Inr r', s') \<Rightarrow> run_steps L ctx ss fin r' s')"
| "run_steps L ctx (SAuth cfg # ss) fin r s =
     (let r1 = scrub_identity_headers L r cfg
      in case resolve_auth L ctx r1 cfg s of
           (Allowed identity, s') \<Rightarrow> run_steps L ctx ss fin (apply_identity_headers L r1 identity) s'
         | (Denied st www, s') \<Rightarrow> Some (Inr (AR_AuthDenied st www), r1, s')
         | (Failed _, s') \<Rightarrow>
             if fa_failure_mode cfg = Closed then Some (Inr (AR_AuthDenied 503 None), r1, s')
             else run_steps L ctx ss fin r1 s')"

fun step_auth :: "'u step \<Rightarrow> 'u forward_auth_config list" where
  "step_auth (SAuth cfg) = [cfg]"
| "step_auth (SHeader _ _) = []"

definition auths :: "'u step list \<Rightarrow> 'u forward_auth_config list" where
  "auths ss = concat (map step_auth ss)"

lemma auths_simps [simp]:
  "auths [] = []" "auths (SAuth cfg # ss) = cfg # auths ss" "auths (SHeader n v # ss) = auths ss"
  "auths (xs @ ys) = auths xs @ auths ys"
  by (simp_all add: auths_def)

text \<open>The forward-auth settings a request meets are among the configured ones.\<close>

lemma route_all_auth:
  "list_all (all_auth P) ds \<Longrightarrow> list_all P (auths (fst (route ds meth cur path)))"
  by (induction ds meth cur path rule: route.induct) (auto split: option.splits prod.splits)

lemma route_final: "snd (route ds meth cur path) \<noteq> Inr (AR_AuthDenied st www)"
  by (induction ds meth cur path rule: route.induct) (auto split: option.splits prod.splits)

section \<open>Refinement\<close>

lemma handle_header_method: "handle_header L n v r s = Some (Inr r', s') \<Longrightarrow> req_method r' = req_method r"
  by (auto simp: handle_header_def split: Option.bind_splits option.splits sum.splits)

lemma remove_all_method [simp]: "req_method (remove_all L ns r) = req_method r"
  by (induction ns arbitrary: r) auto

lemma insert_all_method [simp]: "req_method (insert_all L xs r) = req_method r"
  by (induction xs arbitrary: r) auto

lemma scrub_method [simp]: "req_method (scrub_identity_headers L r cfg) = req_method r"
  by (simp add: scrub_identity_headers_def)

lemma apply_identity_method [simp]: "req_method (apply_identity_headers L r h) = req_method r"
  by (simp add: apply_identity_headers_def)

lemma run_directives_route:
  "run_directives L cur ds r path ctx s
     = (let (ss, fin) = route ds (req_method r) cur path in run_steps L ctx ss fin r s)"
proof (induction L cur ds r path ctx s rule: run_directives.induct)
  case (2 L cur name val ds r path ctx s)
  then show ?case
    by (auto simp: Let_def handle_header_method split: option.splits sum.splits prod.splits)
next
  case (10 L cur auth_cfg ds r path ctx s)
  obtain out s' where o: "resolve_auth L ctx (scrub_identity_headers L r auth_cfg) auth_cfg s = (out, s')" by fastforce
  show ?case
  proof (cases out)
    case (Failed x)
    then show ?thesis
      using 10 o by (cases "fa_failure_mode auth_cfg") (auto simp: Let_def split: prod.splits)
  qed (use 10 o in \<open>auto simp: Let_def split: prod.splits\<close>)
qed (auto simp: Let_def handle_uri_replace_def handle_method_def list_ex_iff handle_redirect_def
    handle_respond_def handle_reverse_proxy_def split: option.splits prod.splits)

text \<open>
  C13. Routing is a function of method and path: whatever the headers, the authorization
  outcomes and the outside world are, a request meets exactly the middleware steps and
  reaches exactly the terminal directive that \<open>route\<close> computes from the directive tree,
  the method and the path, and the pipeline is the execution of those steps.
\<close>

theorem process_directives_refines_route:
  "process_directives L ds r p ctx s
     = (let (steps, fin) = route ds (req_method r) p p in run_steps L ctx steps fin r s)"
  by (simp add: process_directives_def run_directives_route)

section \<open>The authorization gate\<close>

text \<open>
  A step lets a request through when the service allowed it, or when it failed and the
  block is configured to fail open.
\<close>

definition passes :: "'u forward_auth_config \<Rightarrow> string \<Rightarrow> bool" where
  "passes cfg label = (label = ''allowed'' \<or> label = ''error'' \<and> fa_failure_mode cfg = Open)"

text \<open>
  A service ends the request with what it answered to the subrequest \<open>q\<close>, a 4xx status and its
  challenge, or with 503 when it failed and the block is configured to fail closed. \<open>w'\<close> is the
  world after the answer.
\<close>

definition stops ::
  "('u, 'h, 'w) lib \<Rightarrow> 'u forward_auth_config \<Rightarrow> ('u, 'h) request \<Rightarrow> 'w \<Rightarrow> string \<Rightarrow> u16 \<Rightarrow> string option \<Rightarrow> bool" where
  "stops L cfg q w' label st www =
     (label = ''denied'' \<and>
        (\<exists>w a. client_request L w (timeout_secs cfg) q = (Answer a, w') \<and> st = resp_status a \<and> 400 \<le> st \<and> st < 500
           \<and> www = hm_get L (resp_headers a) ''www-authenticate'') \<or>
      label = ''error'' \<and> fa_failure_mode cfg = Closed \<and> st = 503 \<and> www = None)"

text \<open>The label under which the outcome of a subrequest is counted.\<close>

definition outcome_label :: "'h client_outcome \<Rightarrow> string" where
  "outcome_label out =
     (case out of
        Answer a \<Rightarrow>
          if 200 \<le> resp_status a \<and> resp_status a < 300
          then (if drain_body (resp_body a) = None then ''allowed'' else ''error'')
          else if 400 \<le> resp_status a \<and> resp_status a < 500 then ''denied'' else ''error''
      | _ \<Rightarrow> ''error'')"

definition auth_call :: "'u forward_auth_config \<Rightarrow> ('u, 'h) request \<Rightarrow> bool" where
  "auth_call cfg q = (req_method q = ''GET'' \<and> req_uri q = endpoint cfg \<and> req_body q = [])"

definition auth_metrics :: "string list \<Rightarrow> metric list" where
  "auth_metrics labels = concat (map (\<lambda>l. [AuthRequestsTotal l, AuthRequestDuration]) labels)"

lemma auth_metrics_simps [simp]:
  "auth_metrics [] = []"
  "auth_metrics (l # ls) = AuthRequestsTotal l # AuthRequestDuration # auth_metrics ls"
  by (simp_all add: auth_metrics_def)

text \<open>The labels are those of the answers to the subrequests \<open>qs\<close>, made to the first services in order.\<close>

fun answered ::
  "('u, 'h, 'w) lib \<Rightarrow> 'u forward_auth_config list \<Rightarrow> ('u, 'h) request list \<Rightarrow> string list \<Rightarrow> bool" where
  "answered L cfgs [] [] = True"
| "answered L (cfg # cfgs) (q # qs) (l # ls) =
     (auth_call cfg q \<and> (\<exists>w. l = outcome_label (fst (client_request L w (timeout_secs cfg) q))) \<and> answered L cfgs qs ls)"
| "answered L _ _ _ = False"

lemma answered_calls: "answered L cfgs qs ls \<Longrightarrow> list_all2 auth_call (take (length ls) cfgs) qs"
  by (induction L cfgs qs ls rule: answered.induct) auto

definition gate ::
  "('u, 'h, 'w) lib \<Rightarrow> 'u forward_auth_config list \<Rightarrow> string + action_result \<Rightarrow> ('u, 'h) request list \<Rightarrow> 'w
     \<Rightarrow> string list \<Rightarrow> string + action_result \<Rightarrow> bool" where
  \<comment> \<open>how the labels of the subrequests made, in order, decide the result\<close>
  "gate L cfgs fin qs w' labels res =
     (list_all2 passes cfgs labels \<and> res = fin \<or>
      (\<exists>pre cfg post ls l st www. cfgs = pre @ cfg # post \<and> labels = ls @ [l] \<and> list_all2 passes pre ls
         \<and> qs \<noteq> [] \<and> stops L cfg (last qs) w' l st www \<and> res = Inr (AR_AuthDenied st www)))"

lemma gate_Nil: "gate L [] fin [] w' [] fin"
  by (simp add: gate_def)

lemma gate_pass: "passes cfg l \<Longrightarrow> gate L cfgs fin qs w' ls res \<Longrightarrow> gate L (cfg # cfgs) fin (q # qs) w' (l # ls) res"
proof (unfold gate_def, elim disjE exE conjE, goal_cases)
  case 1
  then show ?case by simp
next
  case (2 pre c post ls' l' st www)
  then show ?case
    by (intro disjI2 exI [of _ "cfg # pre"] exI [of _ c] exI [of _ post] exI [of _ "l # ls'"] exI [of _ l']
        exI [of _ st] exI [of _ www]) simp
qed

lemma gate_stop: "stops L cfg q w' l st www \<Longrightarrow> gate L (cfg # cfgs) fin [q] w' [l] (Inr (AR_AuthDenied st www))"
  unfolding gate_def by (metis append_Nil last.simps list.distinct(1) list.rel_intros(1))

text \<open>Whatever the result, every service called before the last one passed.\<close>

lemma gate_passed:
  assumes "gate L cfgs fin qs w' labels res"
  shows "list_all2 passes (take (length labels - 1) cfgs) (take (length labels - 1) labels)"
proof -
  consider "list_all2 passes cfgs labels"
    | pre cfg post ls l where "cfgs = pre @ cfg # post" "labels = ls @ [l]" "list_all2 passes pre ls"
    using assms by (auto simp: gate_def)
  then show ?thesis
  proof cases
    case 2
    then show ?thesis using list_all2_lengthD [OF 2(3)] by simp
  qed (simp add: list_all2_takeI)
qed

lemma resolve_auth_effects:
  assumes laws: "http_laws L" and res: "resolve_auth L ctx r cfg s = (out, s')"
  obtains q where "io_sent s' = io_sent s @ [q]" "auth_call cfg q"
    "io_metrics s' = io_metrics s @ auth_metrics [auth_label out]" "io_log s' = io_log s"
    "auth_label out = outcome_label (fst (client_request L (io_world s) (timeout_secs cfg) q))"
    "\<And>st www. out = Denied st www \<Longrightarrow> stops L cfg q (io_world s') (auth_label out) st www"
proof -
  obtain q where q: "build_auth_request L (ctx_original_uri ctx) (ctx_remote_addr ctx) (ctx_is_tls ctx) r cfg = Inr q"
    and call: "auth_call cfg q"
    by (simp add: build_auth_request_def auth_call_def empty_request_body_def)
  obtain x w' where x: "client_request L (io_world s) (timeout_secs cfg) q = (x, w')" by fastforce
  have out: "out = classify_auth L cfg x"
    and s': "s' = record_auth (auth_label out) (s\<lparr>io_world := w', io_sent := io_sent s @ [q]\<rparr>)"
    using res q x by (auto simp: resolve_auth_def send_request_def Let_def)
  note st = http_laws.is_success [OF laws] http_laws.is_client_error [OF laws]
  have "auth_label out = outcome_label x"
    unfolding out by (auto simp: classify_auth_def auth_label_def outcome_label_def Let_def st split: client_outcome.split option.split)
  moreover have "stops L cfg q w' (auth_label out) st www" if "out = Denied st www" for st www
    using that out x
    by (auto simp: stops_def classify_auth_def auth_label_def Let_def st split: client_outcome.splits option.splits if_splits)
  ultimately show ?thesis
    using that [OF _ call] x s' by (simp add: record_auth_def emit_def)
qed

lemma run_steps_gate:
  assumes laws: "http_laws L"
  shows "run_steps L ctx ss fin r s = Some (res, r', s') \<Longrightarrow>
     \<exists>labels qs. io_sent s' = io_sent s @ qs \<and> io_metrics s' = io_metrics s @ auth_metrics labels
       \<and> io_log s' = io_log s \<and> answered L (auths ss) qs labels \<and> gate L (auths ss) fin qs (io_world s') labels res"
proof (induction ss arbitrary: r s)
  case Nil
  then show ?case by (intro exI [of _ "[]"]) (simp add: gate_Nil)
next
  case (Cons st ss)
  show ?case
  proof (cases st)
    case (SHeader n v)
    with Cons.prems obtain p s1 where h: "handle_header L n v r s = Some (p, s1)"
      and rest: "run_steps L ctx ss fin (case p of Inl _ \<Rightarrow> r | Inr r1 \<Rightarrow> r1) s1 = Some (res, r', s')"
      by (auto split: option.splits sum.splits)
    from handle_header_effects [OF h] Cons.IH [OF rest] SHeader show ?thesis
      by (auto simp: same_effects_def)
  next
    case (SAuth cfg)
    let ?r1 = "scrub_identity_headers L r cfg"
    obtain out s1 where o: "resolve_auth L ctx ?r1 cfg s = (out, s1)" by fastforce
    obtain q where q: "io_sent s1 = io_sent s @ [q]" "auth_call cfg q"
      "io_metrics s1 = io_metrics s @ auth_metrics [auth_label out]" "io_log s1 = io_log s"
      "auth_label out = outcome_label (fst (client_request L (io_world s) (timeout_secs cfg) q))"
      and denied: "\<And>st www. out = Denied st www \<Longrightarrow> stops L cfg q (io_world s1) (auth_label out) st www"
      using resolve_auth_effects [OF laws o] by metis
    show ?thesis
    proof (cases "passes cfg (auth_label out)")
      case True
      then have "\<exists>r2. run_steps L ctx ss fin r2 s1 = Some (res, r', s')"
        using Cons.prems SAuth o by (cases out) (auto simp: passes_def auth_label_def Let_def split: if_splits)
      then obtain labels qs where "io_sent s' = io_sent s1 @ qs" "io_metrics s' = io_metrics s1 @ auth_metrics labels"
        "io_log s' = io_log s1" "answered L (auths ss) qs labels" "gate L (auths ss) fin qs (io_world s') labels res"
        using Cons.IH by blast
      with q(1-4) gate_pass [OF True] show ?thesis
        by (intro exI [of _ "auth_label out # labels"] exI [of _ "q # qs"]) (use q(5) in \<open>auto simp: SAuth\<close>)
    next
      case False
      then have "s' = s1 \<and> (\<exists>st www. stops L cfg q (io_world s1) (auth_label out) st www \<and> res = Inr (AR_AuthDenied st www))"
        using Cons.prems SAuth o denied
        by (cases out; cases "fa_failure_mode cfg") (auto simp: passes_def stops_def auth_label_def Let_def)
      with q SAuth gate_stop show ?thesis
        by (intro exI [of _ "[auth_label out]"] exI [of _ "[q]"]) fastforce
    qed
  qed
qed

text \<open>
  C2. The gate. The pipeline calls the authorization services a request meets in order,
  each by one body-less GET of its endpoint, each counted under the label of what it answered:
  allowed for 2xx with a complete body, denied for 4xx, else an error. It reaches the
  terminal directive only if every one of them passed: it was allowed, or it failed and
  is configured to fail open. Otherwise the first that did not pass ends the request, a denial
  with the very status and \<open>WWW-Authenticate\<close> challenge of the answer to that subrequest, a
  failure of a block that fails closed with 503 and no challenge; no later service is called.
\<close>

theorem process_directives_auth_gate:
  assumes "http_laws L" and "process_directives L ds r p ctx s = Some (res, r', s')"
    and "route ds (req_method r) p p = (steps, fin)"
  shows "\<exists>labels qs. io_sent s' = io_sent s @ qs \<and> io_metrics s' = io_metrics s @ auth_metrics labels
     \<and> io_log s' = io_log s \<and> list_all2 auth_call (take (length labels) (auths steps)) qs
     \<and> answered L (auths steps) qs labels
     \<and> (list_all2 passes (auths steps) labels \<and> res = fin \<or>
        (\<exists>pre cfg post ls l st www. auths steps = pre @ cfg # post \<and> labels = ls @ [l]
           \<and> list_all2 passes pre ls \<and> qs \<noteq> [] \<and> stops L cfg (last qs) (io_world s') l st www
           \<and> res = Inr (AR_AuthDenied st www)))"
  using run_steps_gate [OF assms(1), of ctx steps fin r s res r' s'] assms(2,3)
  by (fastforce simp: process_directives_def run_directives_route gate_def dest: answered_calls)

text \<open>The site of the concrete runs: forward-auth, an identity header, then a backend.\<close>

definition sample_directives :: "ref_uri directive list" where
  "sample_directives =
     [HandlePath ''/static/*'' [Respond 200 ''file''],
      ForwardAuth sample_auth, Header ''X-Served-By'' (Some ''proxy''),
      ReverseProxy ''backend:3000'' None (Some 10) []]"

definition sample_ctx :: auth_ctx where
  "sample_ctx = \<lparr>ctx_original_uri = ''/app?x=1'', ctx_remote_addr = socket_addr_new (V4 10 0 0 1) 5000, ctx_is_tls = True\<rparr>"

lemma sample_route:
  "route sample_directives ''POST'' ''/app'' ''/app''
     = ([SAuth sample_auth, SHeader ''X-Served-By'' (Some ''proxy'')],
        Inr (AR_ReverseProxy ''backend:3000'' ''/app'' None (Some 10) []))"
  by (simp add: sample_directives_def match_pattern_def strip_suffix_def starts_with_def)

definition sample_denial :: "ref_headers client_outcome" where
  "sample_denial = Answer \<lparr>resp_status = 401, resp_headers = [(''www-authenticate'', ''Basic'')], resp_body = []\<rparr>"

theorem process_directives_auth_gate_witness:
  "\<exists>r' s' q w a. process_directives ref_lib sample_directives sample_request ''/app'' sample_ctx (ref_io [] [sample_denial])
       = Some (Inr (AR_AuthDenied 401 (Some ''Basic'')), r', s')
     \<and> io_metrics s' = auth_metrics [''denied''] \<and> io_sent s' = [q] \<and> auth_call sample_auth q
     \<and> client_request ref_lib w (timeout_secs sample_auth) q = (Answer a, io_world s') \<and> resp_status a = 401"
proof -
  let ?run = "process_directives ref_lib sample_directives sample_request ''/app'' sample_ctx (ref_io [] [sample_denial])"
  have "(case ?run of Some (res, _, _) \<Rightarrow> res = Inr (AR_AuthDenied 401 (Some ''Basic'')) | None \<Rightarrow> False)" by code_simp
  then obtain r' s' where run: "?run = Some (Inr (AR_AuthDenied 401 (Some ''Basic'')), r', s')"
    by (auto split: option.splits prod.splits)
  have m: "req_method sample_request = ''POST''"
    "io_sent (ref_io [] [sample_denial]) = []" "io_metrics (ref_io [] [sample_denial]) = []"
    by (simp_all add: sample_request_def ref_io_def)
  obtain l where metrics: "io_metrics s' = auth_metrics [l]"
    and g: "list_all2 auth_call [sample_auth] (io_sent s')"
      "stops ref_lib sample_auth (last (io_sent s')) (io_world s') l 401 (Some ''Basic'')"
    using process_directives_auth_gate [OF ref_http.http_laws_axioms run] sample_route
    by (auto simp: m Cons_eq_append_conv)
  from g(1) obtain q where q: "io_sent s' = [q]" "auth_call sample_auth q" by (auto simp: list_all2_Cons1)
  from g(2) have "l = ''denied''" by (auto simp: stops_def)
  with q g(2) run metrics show ?thesis by (auto simp: stops_def)
qed

section \<open>Headers through the pipeline\<close>

text \<open>The header names a step may change.\<close>

fun step_names :: "'u step \<Rightarrow> string set" where
  "step_names (SHeader n v) = {to_ascii_lowercase n}"
| "step_names (SAuth cfg) = identity_names cfg"

definition names_valid :: "('u, 'h, 'w) lib \<Rightarrow> 'u step list \<Rightarrow> bool" where
  "names_valid L ss = list_all (\<lambda>cfg. valid_header_names L (response_headers cfg)) (auths ss)"

lemma names_valid_simps [simp]:
  "names_valid L (SHeader n v # ss) = names_valid L ss"
  "names_valid L (SAuth cfg # ss) = (valid_header_names L (response_headers cfg) \<and> names_valid L ss)"
  "names_valid L (xs @ ys) = (names_valid L xs \<and> names_valid L ys)"
  by (simp_all add: names_valid_def)

lemma scrub_all:
  assumes "header_laws L"
  shows "hm_all L (req_headers (scrub_identity_headers L r cfg)) n
    = (if to_ascii_lowercase n \<in> identity_names cfg then [] else hm_all L (req_headers r) n)"
  by (simp add: scrub_identity_headers_def identity_names_def header_laws.all_remove_all [OF assms])

lemma resolve_auth_allowed:
  assumes "http_laws L" and res: "resolve_auth L ctx r cfg s = (Allowed identity, s')"
  obtains q a w' where "io_sent s' = io_sent s @ [q]" "auth_call cfg q"
    "client_request L (io_world s) (timeout_secs cfg) q = (Answer a, w')"
    "200 \<le> resp_status a" "resp_status a < 300"
    "identity = copy_headers L (response_headers cfg) (resp_headers a) (hm_new L)"
proof -
  obtain q where q: "build_auth_request L (ctx_original_uri ctx) (ctx_remote_addr ctx) (ctx_is_tls ctx) r cfg = Inr q"
    and c: "auth_call cfg q"
    by (simp add: build_auth_request_def auth_call_def empty_request_body_def)
  obtain x w' where x: "client_request L (io_world s) (timeout_secs cfg) q = (x, w')" by fastforce
  have "classify_auth L cfg x = Allowed identity" and s': "io_sent s' = io_sent s @ [q]"
    using res q x by (auto simp: resolve_auth_def send_request_def Let_def)
  then obtain a where "x = Answer a" "200 \<le> resp_status a" "resp_status a < 300"
    "identity = copy_headers L (response_headers cfg) (resp_headers a) (hm_new L)"
    using http_laws.is_success [OF assms(1)]
    by (auto simp: classify_auth_def Let_def split: client_outcome.splits if_splits option.splits)
  with that [OF s' c] x show ?thesis by blast
qed

lemma auth_step_all:
  fixes L :: "('a, 'b, 'c) lib"
  assumes laws: "http_laws L" and v: "valid_header_names L (response_headers cfg)"
    and res: "resolve_auth L ctx (scrub_identity_headers L r cfg) cfg s = (Allowed identity, s')"
    and n: "to_ascii_lowercase n \<notin> identity_names cfg"
  shows "hm_all L (req_headers (apply_identity_headers L (scrub_identity_headers L r cfg) identity)) n
    = hm_all L (req_headers r) n"
proof -
  obtain a :: "'b response" where "identity = copy_headers L (response_headers cfg) (resp_headers a) (hm_new L)"
    using resolve_auth_allowed [OF laws res] by metis
  then show ?thesis
    using allowed_identity_headers [OF http_laws.axioms(1) [OF laws] v] n by simp
qed

lemma run_steps_untouched:
  assumes laws: "http_laws L"
  shows "run_steps L ctx ss fin r s = Some (res, r', s') \<Longrightarrow> names_valid L ss \<Longrightarrow>
     to_ascii_lowercase n \<notin> \<Union> (step_names ` set ss) \<Longrightarrow>
     hm_all L (req_headers r') n = hm_all L (req_headers r) n"
proof (induction ss arbitrary: r s)
  case Nil
  then show ?case by simp
next
  case (Cons st ss)
  note hl = http_laws.axioms(1) [OF laws]
  show ?case
  proof (cases st)
    case (SHeader m v)
    with Cons.prems obtain p s1 where h: "handle_header L m v r s = Some (p, s1)"
      and rest: "run_steps L ctx ss fin (case p of Inl _ \<Rightarrow> r | Inr r1 \<Rightarrow> r1) s1 = Some (res, r', s')"
      by (auto split: option.splits sum.splits)
    have "hm_all L (req_headers (case p of Inl _ \<Rightarrow> r | Inr r1 \<Rightarrow> r1)) n = hm_all L (req_headers r) n"
      using h Cons.prems(3) SHeader handle_header_frame [OF hl]
      by (cases p) (auto simp: only_header_def)
    with Cons.IH [OF rest] Cons.prems SHeader show ?thesis by simp
  next
    case (SAuth cfg)
    let ?r1 = "scrub_identity_headers L r cfg"
    have n: "to_ascii_lowercase n \<notin> identity_names cfg" using Cons.prems(3) SAuth by simp
    obtain out s1 where o: "resolve_auth L ctx ?r1 cfg s = (out, s1)" by fastforce
    have "hm_all L (req_headers ?r1) n = hm_all L (req_headers r) n" using n scrub_all [OF hl] by simp
    moreover have "hm_all L (req_headers (apply_identity_headers L ?r1 i)) n = hm_all L (req_headers r) n"
      if "out = Allowed i" for i
      using auth_step_all [OF laws _ _ n] o that Cons.prems(2) SAuth by auto
    ultimately show ?thesis
      using Cons SAuth o by (cases out) (auto simp: Let_def split: if_splits)
  qed
qed

lemma run_steps_append:
  "run_steps L ctx (pre @ post) fin r s = Some (res, r', s') \<Longrightarrow> \<forall>st www. res \<noteq> Inr (AR_AuthDenied st www) \<Longrightarrow>
     \<exists>r1 s1. run_steps L ctx pre fin r s = Some (fin, r1, s1) \<and> run_steps L ctx post fin r1 s1 = Some (res, r', s')"
proof (induction pre arbitrary: r s)
  case Nil
  then show ?case by simp
next
  case (Cons st ss)
  show ?case
  proof (cases st)
    case (SHeader m v)
    with Cons show ?thesis by (auto split: option.splits sum.splits)
  next
    case (SAuth cfg)
    obtain out s1 where "resolve_auth L ctx (scrub_identity_headers L r cfg) cfg s = (out, s1)" by fastforce
    with Cons SAuth show ?thesis by (cases out) (auto simp: Let_def split: if_splits)
  qed
qed

text \<open>
  C3. Identity headers cannot be forged. If a request passes a forward-auth block and no later
  step names the header, then the value of an identity header of that block, as the terminal
  directive sees it, is absent or is the value in the 2xx answer to the subrequest the proxy
  sent to that block's endpoint, whatever the client put into its request.
\<close>

theorem identity_headers_trusted:
  assumes laws: "http_laws L"
    and run: "process_directives L ds r p ctx s = Some (res, r', s')"
    and pass: "\<forall>st www. res \<noteq> Inr (AR_AuthDenied st www)"
    and route: "route ds (req_method r) p p = (pre @ SAuth cfg # post, fin)"
    and valid: "names_valid L (pre @ SAuth cfg # post)"
    and n: "to_ascii_lowercase n \<in> identity_names cfg"
    and later: "to_ascii_lowercase n \<notin> \<Union> (step_names ` set post)"
  shows "hm_all L (req_headers r') n = [] \<or>
     (\<exists>q w a w' x. q \<in> set (drop (length (io_sent s)) (io_sent s')) \<and> auth_call cfg q
        \<and> client_request L w (timeout_secs cfg) q = (Answer a, w')
        \<and> 200 \<le> resp_status a \<and> resp_status a < 300
        \<and> hm_get L (resp_headers a) n = Some x \<and> hm_all L (req_headers r') n = [x])"
proof -
  note hl = http_laws.axioms(1) [OF laws]
  have "run_steps L ctx (pre @ SAuth cfg # post) fin r s = Some (res, r', s')"
    using run route by (simp add: process_directives_def run_directives_route)
  then obtain r1 s1 where before: "run_steps L ctx pre fin r s = Some (fin, r1, s1)"
    and rest: "run_steps L ctx (SAuth cfg # post) fin r1 s1 = Some (res, r', s')"
    using run_steps_append pass by blast
  let ?r2 = "scrub_identity_headers L r1 cfg"
  obtain out s2 where o: "resolve_auth L ctx ?r2 cfg s1 = (out, s2)" by fastforce
  obtain qs1 where sent1: "io_sent s1 = io_sent s @ qs1" using run_steps_gate [OF laws before] by blast
  show ?thesis
  proof (cases out)
    case (Allowed identity)
    let ?r3 = "apply_identity_headers L ?r2 identity"
    have post: "run_steps L ctx post fin ?r3 s2 = Some (res, r', s')" using rest o Allowed by simp
    then obtain qs2 where sent2: "io_sent s' = io_sent s2 @ qs2" using run_steps_gate [OF laws] by blast
    obtain q a w' where q: "io_sent s2 = io_sent s1 @ [q]" "auth_call cfg q"
      "client_request L (io_world s1) (timeout_secs cfg) q = (Answer a, w')"
      "200 \<le> resp_status a" "resp_status a < 300"
      "identity = copy_headers L (response_headers cfg) (resp_headers a) (hm_new L)"
      using resolve_auth_allowed [OF laws] o Allowed by metis
    have "hm_all L (req_headers r') n = hm_all L (req_headers ?r3) n"
      using run_steps_untouched [OF laws post _ later] valid by simp
    also have "\<dots> = (case hm_get L (resp_headers a) n of Some x \<Rightarrow> [x] | None \<Rightarrow> [])"
      using allowed_identity_headers [OF hl, of cfg r1 "resp_headers a" n] valid n q(6) by simp
    finally show ?thesis
      using q sent1 sent2 by (auto split: option.splits)
  next
    case (Denied st www)
    then have "res = Inr (AR_AuthDenied st www)" using rest o by simp
    then show ?thesis using pass by blast
  next
    case (Failed e)
    then have post: "run_steps L ctx post fin ?r2 s2 = Some (res, r', s')"
      using rest o pass by (auto simp: Let_def split: if_splits)
    have "hm_all L (req_headers r') n = hm_all L (req_headers ?r2) n"
      using run_steps_untouched [OF laws post _ later] valid by simp
    then show ?thesis using scrub_all [OF hl] n by simp
  qed
qed

theorem identity_headers_trusted_witness:
  "\<exists>r' s'. process_directives ref_lib [ForwardAuth sample_auth, Respond 200 ''ok''] sample_request ''/app'' sample_ctx
        (ref_io [] [Answer \<lparr>resp_status = 200, resp_headers = [(''remote-user'', ''alice'')], resp_body = []\<rparr>])
      = Some (Inr (AR_Respond 200 ''ok''), r', s')
     \<and> hm_all ref_lib (req_headers r') ''Remote-User'' = [''alice''] \<and> (\<exists>q \<in> set (io_sent s'). auth_call sample_auth q)"
proof -
  let ?s = "ref_io [] [Answer \<lparr>resp_status = 200, resp_headers = [(''remote-user'', ''alice'')], resp_body = []\<rparr>]"
  let ?ds = "[ForwardAuth sample_auth, Respond 200 ''ok'']"
  let ?run = "process_directives ref_lib ?ds sample_request ''/app'' sample_ctx ?s"
  have "(case ?run of Some (res, r', s') \<Rightarrow>
      res = Inr (AR_Respond 200 ''ok'') \<and> hm_all ref_lib (req_headers r') ''Remote-User'' = [''alice'']
    | None \<Rightarrow> False)" by code_simp
  then obtain r' s' where run: "?run = Some (Inr (AR_Respond 200 ''ok''), r', s')"
    and h: "hm_all ref_lib (req_headers r') ''Remote-User'' = [''alice'']"
    by (auto split: option.splits prod.splits)
  have rt: "route ?ds (req_method sample_request) ''/app'' ''/app'' = ([] @ SAuth sample_auth # [], Inr (AR_Respond 200 ''ok''))"
    by simp
  have v: "names_valid ref_lib ([] @ SAuth sample_auth # [])"
    and n: "to_ascii_lowercase ''Remote-User'' \<in> identity_names sample_auth"
    by code_simp+
  have "hm_all ref_lib (req_headers r') ''Remote-User'' = [] \<or>
     (\<exists>q w a w' x. q \<in> set (drop (length (io_sent ?s)) (io_sent s')) \<and> auth_call sample_auth q
        \<and> client_request ref_lib w (timeout_secs sample_auth) q = (Answer a, w')
        \<and> 200 \<le> resp_status a \<and> resp_status a < 300
        \<and> hm_get ref_lib (resp_headers a) ''Remote-User'' = Some x \<and> hm_all ref_lib (req_headers r') ''Remote-User'' = [x])"
    by (rule identity_headers_trusted [OF ref_http.http_laws_axioms run _ rt v n]) auto
  then have "\<exists>q \<in> set (io_sent s'). auth_call sample_auth q" using h by (auto dest: in_set_dropD)
  with run h show ?thesis by blast
qed

end
