(* ===== verification/Request_Flow.thy ===== *)
theory Request_Flow
  imports Routing
begin

text \<open>
  Correctness of the handling of one request (\<open>proxy\<close> of \<open>Handler\<close>): every request that
  returns is accounted for exactly once, the backend is contacted only behind the
  authorization gate and with the headers the proxy promises, and the backend's response is
  relayed unchanged up to hop-by-hop headers.
\<close>

section \<open>Printable addresses\<close>

lemma digit_visible: "is_dec_digit c \<Longrightarrow> is_visible c"
  by (auto simp: is_dec_digit_def is_visible_def Let_def)

lemma show_nat_visible: "list_all is_visible (show_nat n)"
  using show_nat_digits [of n] digit_visible by (auto simp: list_all_iff)

lemma show_ipv4_visible: "list_all is_visible (show_ipv4 a b c d)"
  using show_nat_visible by (simp add: show_ipv4_def) (simp add: is_visible_def)

lemma hex_char_visible: "d < 16 \<Longrightarrow> is_visible (hex_char d)"
  by (simp add: hex_char_def is_visible_def Let_def take_bit_eq_mod)

lemma show_hex_visible: "list_all is_visible (show_hex n)"
proof (induction n rule: show_hex.induct)
  case (1 n)
  then show ?case by (subst show_hex.simps) (auto simp: hex_char_visible)
qed

lemma join_visible:
  "list_all is_visible sep \<Longrightarrow> list_all (list_all is_visible) xs \<Longrightarrow> list_all is_visible (str_join sep xs)"
  by (induction sep xs rule: str_join.induct) auto

lemma show_ip_visible: "list_all is_visible (show_ip ip)"
proof (cases ip)
  case (V6 g)
  have "list_all is_visible '':''" "list_all is_visible ''::''" "list_all is_visible ''::ffff:''"
    by (simp_all add: is_visible_def)
  moreover have "list_all (list_all is_visible) (map show_hex gs)" for gs
    by (induction gs) (simp_all add: show_hex_visible)
  then have "list_all is_visible (str_join '':'' (map show_hex gs))" for gs
    by (intro join_visible) (simp_all add: is_visible_def)
  ultimately show ?thesis
    using V6 show_ipv4_visible by (simp add: show_ipv6_def split: prod.split)
qed (simp add: show_ipv4_visible)

section \<open>Responses\<close>

lemma visible_consts: "list_all is_visible ''text/html; charset=utf-8''"
  by code_simp

lemma header_tokens:
  "is_token ''X-Request-ID''" "is_token ''Content-Type''" "is_token ''Location''" "is_token ''WWW-Authenticate''"
  "is_token ''X-Forwarded-Host''" "is_token ''X-Forwarded-Proto''" "is_token ''X-Forwarded-For''"
  "is_token ''host''" "is_token ''connection''" "is_token ''accept-encoding''"
  by code_simp+

lemma header_lower:
  "to_ascii_lowercase ''X-Request-ID'' = ''x-request-id''" "to_ascii_lowercase ''Content-Type'' = ''content-type''"
  "to_ascii_lowercase ''Location'' = ''location''" "to_ascii_lowercase ''WWW-Authenticate'' = ''www-authenticate''"
  "to_ascii_lowercase ''X-Forwarded-Host'' = ''x-forwarded-host''"
  "to_ascii_lowercase ''X-Forwarded-Proto'' = ''x-forwarded-proto''"
  "to_ascii_lowercase ''X-Forwarded-For'' = ''x-forwarded-for''"
  "to_ascii_lowercase ''host'' = ''host''" "to_ascii_lowercase ''connection'' = ''connection''"
  "to_ascii_lowercase ''accept-encoding'' = ''accept-encoding''" "to_ascii_lowercase ''x-request-id'' = ''x-request-id''"
  by code_simp+

context header_laws
begin

lemma token_name: "is_token n \<Longrightarrow> header_name_from_bytes L n \<noteq> None"
  using name_token by simp

lemma builder_value_all:
  assumes "header_name_from_bytes L n \<noteq> None"
  shows "hm_all L (resp_headers (builder_header_value L n v b)) m
    = (if to_ascii_lowercase m = to_ascii_lowercase n then hm_all L (resp_headers b) m @ [v] else hm_all L (resp_headers b) m)"
  using assms by (simp add: builder_header_value_def all_append)

lemma builder_header_visible:
  assumes "list_all is_visible v"
  shows "builder_header L n v (Inr b) = Inr (builder_header_value L n v b)"
  using value_visible [OF assms] by (simp add: builder_header_def)

lemma builder_header_Inr:
  "builder_header L n v x = Inr y \<Longrightarrow> \<exists>b. x = Inr b \<and> y = builder_header_value L n v b"
  using value_same by (auto simp: builder_header_def res_bind_def split: sum.splits option.splits)

end

lemma builder_value_frame [simp]:
  "resp_status (builder_header_value L n v b) = resp_status b"
  "resp_body (builder_header_value L n v b) = resp_body b"
  by (simp_all add: builder_header_value_def)

lemma builder_body_Inr:
  "builder_body bd x = Inr y \<longleftrightarrow> (\<exists>b. x = Inr b \<and> y = b\<lparr>resp_body := bd\<rparr>)"
  by (cases x) (auto simp: builder_body_def)

text \<open>A response carries the request identifier as the last value of its header.\<close>

definition carries_id :: "('u, 'h, 'w) lib \<Rightarrow> string \<Rightarrow> 'h response \<Rightarrow> bool" where
  "carries_id L rid resp = (\<exists>vs. hm_all L (resp_headers resp) ''x-request-id'' = vs @ [rid])"

lemma carries_id_header:
  assumes "header_laws L"
  shows "carries_id L rid (builder_header_value L ''X-Request-ID'' rid b)"
  using header_laws.builder_value_all [OF assms header_laws.token_name [OF assms header_tokens(1)]]
  by (simp add: carries_id_def header_lower)

lemma carries_id_other:
  assumes "header_laws L" "is_token n" "to_ascii_lowercase n \<noteq> ''x-request-id''" "carries_id L rid b"
  shows "carries_id L rid (builder_header_value L n v b)"
  using assms header_laws.builder_value_all [OF assms(1) header_laws.token_name [OF assms(1,2)]]
  by (simp add: carries_id_def header_lower)

lemma carries_id_body [simp]: "carries_id L rid (b\<lparr>resp_body := x\<rparr>) = carries_id L rid b"
  by (simp add: carries_id_def)

lemma error_response_ok:
  assumes hl: "header_laws L" and rid: "list_all is_visible rid"
    and e: "error_response_with_id L st msg rid = (resp, n)"
  shows "resp_status resp = st" "carries_id L rid resp"
    "resp_body resp = [Frame (error_page (show_word st) (unwrap_or ''Error'' (status_canonical_reason L st)) msg)]"
    "n = length (error_page (show_word st) (unwrap_or ''Error'' (status_canonical_reason L st)) msg)"
proof -
  let ?page = "error_page (show_word st) (unwrap_or ''Error'' (status_canonical_reason L st)) msg"
  have b: "builder_header L ''Content-Type'' ''text/html; charset=utf-8'' (Inr (response_builder L st))
      = Inr (builder_header_value L ''Content-Type'' ''text/html; charset=utf-8'' (response_builder L st))"
    by (rule header_laws.builder_header_visible [OF hl visible_consts])
  have ne: "?page \<noteq> []" by (simp add: error_page_def)
  have r: "resp = (builder_header_value L ''X-Request-ID'' rid
      (builder_header_value L ''Content-Type'' ''text/html; charset=utf-8'' (response_builder L st)))\<lparr>resp_body := [Frame ?page]\<rparr>"
    and "n = length ?page"
    using e header_laws.value_visible [OF hl rid] ne
    by (simp_all add: error_response_with_id_def Let_def b builder_body_def full_body_def)
  then show "resp_status resp = st" "carries_id L rid resp" "resp_body resp = [Frame ?page]" "n = length ?page"
    by (simp_all add: carries_id_header [OF hl] response_builder_def)
qed

section \<open>Accounting\<close>

definition body_length :: "body \<Rightarrow> nat" where
  "body_length b = sum_list (map (\<lambda>f. case f of Frame x \<Rightarrow> length x | FrameErr _ \<Rightarrow> 0) b)"

lemma body_length_full [simp]: "body_length (full_body t) = length t"
  by (simp add: body_length_def full_body_def)

fun result_status :: "proxy_failure + 'h response \<Rightarrow> u16" where
  "result_status (Inr resp) = resp_status resp"
| "result_status (Inl _) = 500"

fun result_metrics :: "metrics_guard \<Rightarrow> proxy_failure + 'h response \<Rightarrow> metric list" where
  "result_metrics mg (Inr resp) =
     [HttpRequestsTotal (mg_method mg) (resp_status resp) (mg_site mg), HttpRequestDuration (mg_method mg) (resp_status resp)]"
| "result_metrics mg (Inl _) = []"

fun result_id :: "('u, 'h, 'w) lib \<Rightarrow> string \<Rightarrow> proxy_failure + 'h response \<Rightarrow> bool" where
  "result_id L rid (Inr resp) = carries_id L rid resp"
| "result_id L rid (Inl _) = True"

fun result_bytes :: "string \<Rightarrow> proxy_failure + 'h response \<Rightarrow> bool" where
  \<comment> \<open>the logged size is the size of the body, or unknown\<close>
  "result_bytes b (Inr resp) = (b = ''-'' \<or> b = show_nat (body_length (resp_body resp)))"
| "result_bytes b (Inl _) = (b = ''-'')"

text \<open>
  \<open>settled\<close>: what the end of a request does to the accounts, given the guards: one log line and
  one decrement of the gauge, both about the response that is returned.
\<close>

definition entry_of :: "access_log_guard \<Rightarrow> access_entry \<Rightarrow> bool" where
  "entry_of lg e = (le_request_id e = lg_request_id lg \<and> le_remote e = show_ip (sa_ip (lg_remote_addr lg))
     \<and> le_method e = lg_method lg \<and> le_path e = lg_path lg \<and> le_host e = lg_host lg)"

definition settled ::
  "('u, 'h, 'w) lib \<Rightarrow> metrics_guard \<Rightarrow> access_log_guard \<Rightarrow> ('u, 'h, 'w) io
     \<Rightarrow> proxy_failure + 'h response \<Rightarrow> ('u, 'h, 'w) io \<Rightarrow> bool" where
  "settled L mg lg s res s' \<longleftrightarrow>
     (\<exists>e. io_log s' = io_log s @ [e] \<and> entry_of lg e \<and> le_status e = result_status res
        \<and> result_bytes (le_bytes_sent e) res)
     \<and> io_metrics s' = io_metrics s @ result_metrics mg res @ [ActiveRequestsDec]
     \<and> result_id L (lg_request_id lg) res"

lemma settled_cong:
  "settled L mg lg t res s' \<Longrightarrow> io_log t = io_log s \<Longrightarrow> io_metrics t = io_metrics s \<Longrightarrow> settled L mg lg s res s'"
  by (simp add: settled_def)

lemma conclude_frame [simp]:
  "io_sent (conclude mg lg n st s) = io_sent s" "io_world (conclude mg lg n st s) = io_world s"
  by (simp_all add: conclude_def model_defs Let_def)

lemma abandon_frame [simp]:
  "io_sent (abandon mg lg s) = io_sent s" "io_world (abandon mg lg s) = io_world s"
  by (simp_all add: abandon_def model_defs Let_def)

lemma settled_conclude:
  assumes "st = resp_status resp" "carries_id L (lg_request_id lg) resp"
    and "n = None \<or> n = Some (body_length (resp_body resp))" "lg_bytes_sent lg = None"
  shows "settled L mg lg s (Inr resp) (conclude mg lg n st s)"
  using assms by (auto simp: settled_def conclude_def entry_of_def model_defs Let_def split: option.splits)

lemma settled_abandon:
  assumes "lg_status lg = None" "lg_bytes_sent lg = None"
  shows "settled L mg lg s (Inl e) (abandon mg lg s)"
  using assms by (simp add: settled_def abandon_def entry_of_def model_defs)

lemma settled_finish_built:
  assumes "lg_status lg = None" "lg_bytes_sent lg = None"
    and "\<And>resp. b = Inr resp \<Longrightarrow> carries_id L (lg_request_id lg) resp"
    and "\<And>resp. b = Inr resp \<Longrightarrow> n = None \<or> n = Some (body_length (resp_body resp))"
    and "finish_built mg lg n b s = Some (res, s')"
  shows "settled L mg lg s res s'"
proof (cases b)
  case (Inl e)
  then show ?thesis using assms(5) settled_abandon [OF assms(1,2)] by (auto simp: finish_built_def)
next
  case (Inr resp)
  then show ?thesis
    using assms(5) settled_conclude [OF refl assms(3) assms(4) assms(2)] by (auto simp: finish_built_def)
qed

lemma settled_finish_error:
  assumes hl: "header_laws L" and rid: "list_all is_visible (lg_request_id lg)" and lg: "lg_bytes_sent lg = None"
    and f: "finish_error L mg lg st msg (lg_request_id lg) s = Some (res, s')"
  shows "settled L mg lg s res s'" "io_sent s' = io_sent s"
proof -
  obtain resp n where e: "error_response_with_id L st msg (lg_request_id lg) = (resp, n)" by fastforce
  have r: "res = Inr resp" "s' = conclude mg lg (Some n) st s"
    using f e by (simp_all add: finish_error_def)
  note ok = error_response_ok [OF hl rid e]
  have "n = body_length (resp_body resp)" using ok(3,4) by (simp add: body_length_def)
  with ok(1,2) r lg show "settled L mg lg s res s'" by (simp add: settled_conclude)
  show "io_sent s' = io_sent s" using r by simp
qed

text \<open>The guard as it is when the action starts.\<close>

definition fresh_guard :: "access_log_guard \<Rightarrow> string \<Rightarrow> bool" where
  "fresh_guard lg rid = (lg_status lg = None \<and> lg_bytes_sent lg = None \<and> lg_request_id lg = rid \<and> list_all is_visible rid)"

lemma carries_id_builder:
  assumes "header_laws L" and "builder_body bd (builder_header L ''X-Request-ID'' rid x) = Inr resp"
  shows "carries_id L rid resp \<and> resp_body resp = bd"
  using assms(2) header_laws.builder_header_Inr [OF assms(1)] carries_id_header [OF assms(1)]
  by (fastforce simp: builder_body_Inr)

lemma execute_redirect_settled:
  assumes hl: "header_laws L" and lg: "fresh_guard lg rid"
    and e: "execute_redirect L mg lg rid st url s = Some (res, s')"
  shows "settled L mg lg s res s'"
  using e carries_id_builder [OF hl] lg unfolding execute_redirect_def Let_def fresh_guard_def
  by (elim settled_finish_built [rotated -1]) fastforce+

lemma execute_respond_settled:
  assumes hl: "header_laws L" and lg: "fresh_guard lg rid"
    and e: "execute_respond L mg lg rid st body s = Some (res, s')"
  shows "settled L mg lg s res s'"
  using e carries_id_builder [OF hl] lg unfolding execute_respond_def Let_def fresh_guard_def
  by (elim settled_finish_built [rotated -1]) fastforce+

lemma execute_auth_denied_settled:
  assumes hl: "header_laws L" and lg: "fresh_guard lg rid"
    and e: "execute_auth_denied L mg lg rid st www s = Some (res, s')"
  shows "settled L mg lg s res s'"
proof -
  let ?code = "unwrap_or 403 (status_from_u16 L st)"
  let ?body = "if ?code = 503 then ''Authorization service unavailable'' else []"
  let ?b0 = "builder_header_value L ''X-Request-ID'' rid (response_builder L ?code)"
  let ?b1 = "case www of Some c \<Rightarrow> builder_header_value L ''WWW-Authenticate'' c ?b0 | None \<Rightarrow> ?b0"
  have rid: "list_all is_visible rid" using lg by (simp add: fresh_guard_def)
  have c: "carries_id L rid ?b1"
    using carries_id_header [OF hl] carries_id_other [OF hl header_tokens(4)]
    by (auto simp: header_lower split: option.split)
  have "builder_body (full_body ?body) (case www of Some challenge \<Rightarrow>
        res_bind (builder_header L ''X-Request-ID'' rid (Inr (response_builder L ?code)))
          (\<lambda>resp. Inr (builder_header_value L ''WWW-Authenticate'' challenge resp))
      | None \<Rightarrow> builder_header L ''X-Request-ID'' rid (Inr (response_builder L ?code)))
    = Inr (?b1\<lparr>resp_body := full_body ?body\<rparr>)"
    by (simp add: header_laws.builder_header_visible [OF hl rid] builder_body_def split: option.split)
  with e have f: "finish_built mg lg (Some (length ?body)) (Inr (?b1\<lparr>resp_body := full_body ?body\<rparr>)) s = Some (res, s')"
    by (simp only: execute_auth_denied_def Let_def)
  show ?thesis
    by (rule settled_finish_built [OF _ _ _ _ f]) (use lg c in \<open>auto simp: fresh_guard_def\<close>)
qed

section \<open>Relaying the response\<close>

definition relayed :: "string \<Rightarrow> bool" where
  "relayed n = (\<not> is_hop_header n \<and> n \<noteq> ''content-length'')"

lemma copy_response_all:
  assumes hl: "header_laws L"
  shows "(\<And>n v. (n, v) \<in> set xs \<Longrightarrow> header_name_from_bytes L n = Some n) \<Longrightarrow>
    hm_all L (resp_headers (fold (\<lambda>(n, v) b. if \<not> is_hop_header n \<and> n \<noteq> ''content-length''
        then builder_header_value L n v b else b) xs b)) m
      = hm_all L (resp_headers b) m
        @ (if relayed (to_ascii_lowercase m) then map snd (filter (\<lambda>(k, _). k = to_ascii_lowercase m) xs) else [])"
proof (induction xs arbitrary: b)
  case Nil
  then show ?case by simp
next
  case (Cons x xs)
  obtain n v where x: "x = (n, v)" by fastforce
  have nm: "header_name_from_bytes L n = Some n" by (rule Cons.prems [of n v]) (simp add: x)
  then have low: "to_ascii_lowercase n = n" using header_laws.name_lower [OF hl] by metis
  have val: "hm_all L (resp_headers (builder_header_value L n v b)) m
      = (if to_ascii_lowercase m = n then hm_all L (resp_headers b) m @ [v] else hm_all L (resp_headers b) m)"
    using header_laws.builder_value_all [OF hl] nm low by simp
  note ih = Cons.IH [OF Cons.prems [OF list.set_intros(2)]]
  show ?case
    using ih val unfolding x by (auto simp: relayed_def)
qed

lemma copy_response_frame:
  "resp_status (fold (\<lambda>(n, v) b. if P n then builder_header_value L n v b else b) xs b) = resp_status b"
  by (induction xs arbitrary: b) auto

text \<open>
  C24. The backend's response reaches the client with its status and its body unchanged. Every
  header is relayed with all its values in order, except that the hop-by-hop headers of
  \<open>is_hop_header\<close> and \<open>Content-Length\<close> are dropped and that the request identifier is added
  after any \<open>X-Request-ID\<close> of the backend's own. A printable identifier never makes it fail.
\<close>

theorem relay_response_faithful:
  assumes "http_laws L" and "list_all is_visible rid"
  shows "\<exists>resp. relay_response L rid a = Inr resp \<and> resp_status resp = resp_status a \<and> resp_body resp = resp_body a
    \<and> (\<forall>n. hm_all L (resp_headers resp) n
         = (if to_ascii_lowercase n \<in> {''connection'', ''upgrade'', ''te'', ''trailer'', ''proxy-authenticate'',
                 ''proxy-authorization'', ''content-length''} then []
            else hm_all L (resp_headers a) n @ (if to_ascii_lowercase n = ''x-request-id'' then [rid] else [])))"
proof -
  note hl = http_laws.axioms(1) [OF assms(1)]
  let ?c = "copy_response_headers L (resp_headers a) (response_builder L (resp_status a))"
  let ?resp = "(builder_header_value L ''X-Request-ID'' rid ?c)\<lparr>resp_body := resp_body a\<rparr>"
  have r: "relay_response L rid a = Inr ?resp"
    by (simp add: relay_response_def header_laws.builder_header_visible [OF hl assms(2)] builder_body_def)
  have copied: "hm_all L (resp_headers ?c) n = hm_all L (resp_headers (response_builder L (resp_status a))) n
      @ (if relayed (to_ascii_lowercase n)
         then map snd (filter (\<lambda>(k, _). k = to_ascii_lowercase n) (hm_iter L (resp_headers a))) else [])" for n
    unfolding copy_response_headers_def by (rule copy_response_all [OF hl]) (rule header_laws.iter_names [OF hl])
  have "hm_all L (resp_headers ?c) n
      = (if relayed (to_ascii_lowercase n) then hm_all L (resp_headers a) n else [])" for n
    unfolding copied by (simp add: response_builder_def header_laws.all_new [OF hl] hm_all_def header_laws.iter_new [OF hl])
  then have "hm_all L (resp_headers ?resp) n
      = (if relayed (to_ascii_lowercase n) then hm_all L (resp_headers a) n else [])
        @ (if to_ascii_lowercase n = ''x-request-id'' then [rid] else [])" for n
    using header_laws.builder_value_all [OF hl header_laws.token_name [OF hl header_tokens(1)]]
    by (simp add: header_lower)
  moreover have "resp_status ?resp = resp_status a"
    by (simp add: copy_response_headers_def copy_response_frame response_builder_def)
  ultimately show ?thesis
    using r by (intro exI [of _ ?resp]) (auto simp: relayed_def is_hop_header_def)
qed

theorem relay_response_faithful_witness:
  "\<exists>resp. relay_response ref_lib ''id-1'' \<lparr>resp_status = 200,
       resp_headers = [(''x-request-id'', ''b''), (''connection'', ''close''), (''set-cookie'', ''p=1''), (''set-cookie'', ''q=2'')],
       resp_body = [Frame ''hi'']\<rparr> = Inr resp
     \<and> resp_status resp = 200 \<and> resp_body resp = [Frame ''hi'']
     \<and> hm_all ref_lib (resp_headers resp) ''Set-Cookie'' = [''p=1'', ''q=2'']
     \<and> hm_all ref_lib (resp_headers resp) ''Connection'' = []
     \<and> hm_all ref_lib (resp_headers resp) ''X-Request-ID'' = [''b'', ''id-1'']"
proof -
  let ?a = "\<lparr>resp_status = 200 :: u16,
       resp_headers = [(''x-request-id'', ''b''), (''connection'', ''close''), (''set-cookie'', ''p=1''), (''set-cookie'', ''q=2'')],
       resp_body = [Frame ''hi'']\<rparr>"
  have v: "list_all is_visible ''id-1''" by code_simp
  have "to_ascii_lowercase ''Set-Cookie'' = ''set-cookie''" "to_ascii_lowercase ''Connection'' = ''connection''"
    "hm_all ref_lib (resp_headers ?a) ''Set-Cookie'' = [''p=1'', ''q=2'']"
    "hm_all ref_lib (resp_headers ?a) ''X-Request-ID'' = [''b'']"
    by code_simp+
  with relay_response_faithful [OF ref_http.http_laws_axioms v, of ?a] show ?thesis
    by (auto simp: header_lower)
qed

section \<open>The upstream request\<close>

text \<open>
  The target of the upstream request: the routed path, with the client's query unless that path
  brings one of its own, up to a fragment (which a rewriting directive can put there).
\<close>

definition upstream_target :: "string \<Rightarrow> string option \<Rightarrow> string" where
  "upstream_target path query =
     (let t = takeWhile (\<lambda>c. c \<noteq> CHR ''#'')
                (path @ (if CHR ''?'' \<in> set path then [] else case query of Some q \<Rightarrow> ''?'' @ q | None \<Rightarrow> []))
      in if t = [] then ''/'' else t)"

text \<open>\<open>u\<close> has the scheme and the authority of the configured backend, which is an \<open>http\<close> address by default.\<close>

definition names_backend :: "('u, 'h, 'w) lib \<Rightarrow> string \<Rightarrow> 'u \<Rightarrow> bool" where
  "names_backend L backend u =
     (\<exists>b. uri_parse L (if starts_with backend ''http://'' \<or> starts_with backend ''https://'' then backend
                      else ''http://'' @ backend) = Inr b
        \<and> uri_authority L u = uri_authority L b \<and> uri_scheme_str L u = uri_scheme_str L b)"

lemma upstream_uri_spec:
  assumes laws: "http_laws L" and u: "upstream_uri L backend path target = Inr u"
  shows "uri_path_and_query L u = Some (upstream_target path (uri_query L target))"
    and "names_backend L backend u"
proof -
  note ul = http_laws.axioms(2) [OF laws]
  obtain b pq where b: "uri_parse L (backend_with_proto backend) = Inr b"
    and pq: "path_and_query_parse L (path_with_query path (uri_query L target)) = Inr pq"
    and u': "uri_from_parts L ((uri_into_parts L b)\<lparr>parts_path_and_query := Some pq\<rparr>) = Inr u"
    using u by (auto simp: upstream_uri_def res_bind_Inr_iff)
  have "pq = takeWhile (\<lambda>c. c \<noteq> CHR ''#'') (path_with_query path (uri_query L target))"
    using uri_laws.path_and_query_cut [OF ul pq] .
  then show "uri_path_and_query L u = Some (upstream_target path (uri_query L target))"
    using uri_laws.from_parts_path [OF ul u'] by (auto simp: path_with_query_def upstream_target_def split: option.splits)
  show "names_backend L backend u"
    unfolding names_backend_def backend_with_proto_def [symmetric]
    using b uri_laws.from_parts_authority [OF ul u'] uri_laws.from_parts_scheme [OF ul u']
      uri_laws.parts_authority [OF ul] uri_laws.parts_scheme [OF ul] by simp
qed

definition upstream_header ::
  "('u, 'h, 'w) lib \<Rightarrow> socket_addr \<Rightarrow> bool \<Rightarrow> 'u \<Rightarrow> ('u, 'h) request \<Rightarrow> string \<Rightarrow> string list" where
  \<comment> \<open>the values of a (lower-case) header of the upstream request, before \<open>header_up\<close>\<close>
  "upstream_header L remote_addr is_tls u r n =
     (if n \<in> {''connection'', ''accept-encoding''} then []
      else if n = ''x-forwarded-for'' then [show_ip (sa_ip remote_addr)]
      else if n = ''x-forwarded-proto'' then [if is_tls then ''https'' else ''http'']
      else if n = ''x-forwarded-host'' \<and> hm_get L (req_headers r) ''host'' \<noteq> None
        then [the (hm_get L (req_headers r) ''host'')]
      else if n = ''host''
        then (case Option.bind (uri_authority L u) (header_value_from_str L) of Some a \<Rightarrow> [a] | None \<Rightarrow> [])
      else hm_all L (req_headers r) n)"

lemma upstream_request_all:
  assumes hl: "header_laws L"
  shows "hm_all L (req_headers (upstream_request L remote_addr is_tls u r)) n
           = upstream_header L remote_addr is_tls u r (to_ascii_lowercase n)"
proof -
  have ip: "header_value_from_str L (show_ip (sa_ip remote_addr)) = Some (show_ip (sa_ip remote_addr))"
    by (rule header_laws.value_visible [OF hl show_ip_visible])
  note rules = header_laws.all_insert [OF hl] header_laws.all_remove [OF hl] header_laws.token_name [OF hl]
    header_tokens header_lower header_laws.all_lower [OF hl]
  show ?thesis
    unfolding upstream_request_def upstream_header_def Let_def ip
    by (simp add: rules split: option.split)
qed

lemma upstream_request_frame [simp]:
  "req_method (upstream_request L a t u r) = req_method r" "req_body (upstream_request L a t u r) = req_body r"
  "req_uri (upstream_request L a t u r) = u"
  by (simp_all add: upstream_request_def Let_def split: option.split)

text \<open>\<open>sends_upstream\<close>: the request the backend receives for the request \<open>r\<close> of a client.\<close>

definition sends_upstream ::
  "('u, 'h, 'w) lib \<Rightarrow> socket_addr \<Rightarrow> bool \<Rightarrow> string \<Rightarrow> string \<Rightarrow> header_directive list
     \<Rightarrow> ('u, 'h) request \<Rightarrow> ('u, 'h) request \<Rightarrow> bool" where
  "sends_upstream L remote_addr is_tls backend path header_up r b \<longleftrightarrow>
     names_backend L backend (req_uri b)
     \<and> uri_path_and_query L (req_uri b) = Some (upstream_target path (uri_query L (req_uri r)))
     \<and> req_method b = req_method r \<and> req_body b = req_body r
     \<and> (\<forall>n. to_ascii_lowercase n \<notin> to_ascii_lowercase ` hd_name ` set header_up \<longrightarrow>
          hm_all L (req_headers b) n = upstream_header L remote_addr is_tls (req_uri b) r (to_ascii_lowercase n))"

lemma outbound_request_effects:
  assumes hl: "header_laws L" and o: "outbound_request L ra sec backend path up r s = Some (Inr (b, s1))"
  shows "same_effects s s1"
  using o by (auto simp: outbound_request_def Let_def dest!: apply_header_up_frame [OF hl] split: sum.splits)

lemma outbound_request_spec:
  assumes laws: "http_laws L" and o: "outbound_request L ra sec backend path up r s = Some (Inr (b, s1))"
  shows "sends_upstream L ra sec backend path up r b"
proof -
  note hl = http_laws.axioms(1) [OF laws]
  obtain u where u: "upstream_uri L backend path (req_uri r) = Inr u"
    using o by (auto simp: outbound_request_def split: sum.splits)
  let ?r1 = "upstream_request L ra sec u r"
  obtain r2 where up: "apply_header_up L up ?r1 (unwrap_or [] (uri_authority L u))
      (unwrap_or [] (uri_path_and_query L (req_uri r)))
      (unwrap_or (show_ip (sa_ip ra)) (extract_remote_ip L (req_headers r))) s = Some (r2, s1)" and b: "b = r2"
    using o u by (auto simp: outbound_request_def Let_def box_incoming_def)
  have "only_header L (hd_name ` set up) ?r1 r2"
    using apply_header_up_frame [OF hl up] by blast
  then show ?thesis
    using upstream_uri_spec [OF laws u] b
    by (auto simp: sends_upstream_def only_header_def upstream_request_all [OF hl])
qed

lemma execute_reverse_proxy_spec:
  assumes laws: "http_laws L" and lg: "fresh_guard lg rid"
    and e: "execute_reverse_proxy L mg lg rid ra sec backend path rt up r s = Some (res, s')"
  shows "settled L mg lg s res s' \<and> (io_sent s' = io_sent s \<and> (\<exists>e. res = Inl e)
         \<or> (\<exists>b. io_sent s' = io_sent s @ [b] \<and> sends_upstream L ra sec backend path up r b))"
proof -
  note hl = http_laws.axioms(1) [OF laws]
  note g = lg [unfolded fresh_guard_def]
  obtain x where x: "outbound_request L ra sec backend path up r s = Some x"
    using e by (auto simp: execute_reverse_proxy_def split: option.splits)
  show ?thesis
  proof (cases x)
    case (Inl f)
    then show ?thesis using e x g settled_abandon by (auto simp: execute_reverse_proxy_def)
  next
    case (Inr p)
    obtain b s1 where p: "p = (b, s1)" by fastforce
    obtain out s2 where snd: "send_request L (unwrap_or 30 rt) b s1 = (out, s2)" by fastforce
    note o = outbound_request_spec [OF laws x [unfolded Inr p]] outbound_request_effects [OF hl x [unfolded Inr p]] and sf = send_request_frame [OF snd]
    have fin: "(case out of Answer a \<Rightarrow> finish_built mg lg None (relay_response L rid a) s2
        | ClientErr c x \<Rightarrow> finish_error L mg lg 502 ''Backend service unavailable'' rid s2
        | Elapsed \<Rightarrow> finish_error L mg lg 504 ''Backend request timed out'' rid s2) = Some (res, s')"
      using e x snd by (simp add: execute_reverse_proxy_def Inr p split: client_outcome.splits)
    have "settled L mg lg s2 res s' \<and> io_sent s' = io_sent s2"
    proof (cases out)
      case (Answer a)
      then have f: "finish_built mg lg None (relay_response L rid a) s2 = Some (res, s')" using fin by simp
      have "settled L mg lg s2 res s'"
        by (rule settled_finish_built [OF _ _ _ _ f])
          (use g carries_id_builder [OF hl] in \<open>auto simp: relay_response_def\<close>)
      moreover have "io_sent s' = io_sent s2" using f by (auto simp: finish_built_def split: sum.splits)
      ultimately show ?thesis ..
    qed (use fin g settled_finish_error [OF hl] in auto)
    then show ?thesis
      using sf o settled_cong [of L mg lg s2 res s' s] by (auto simp: same_effects_def)
  qed
qed

section \<open>One request\<close>

lemma execute_action_spec:
  assumes laws: "http_laws L" and lg: "fresh_guard lg rid"
    and e: "execute_action L mg lg rid ra sec act r s = Some (res, s')"
  shows "settled L mg lg s res s'"
    and "io_sent s' = io_sent s \<or>
      (\<exists>b backend path ct rt up. io_sent s' = io_sent s @ [b] \<and> act = AR_ReverseProxy backend path ct rt up
         \<and> sends_upstream L ra sec backend path up r b)"
proof -
  note hl = http_laws.axioms(1) [OF laws]
  show "settled L mg lg s res s'"
    using e execute_redirect_settled [OF hl lg] execute_respond_settled [OF hl lg]
      execute_auth_denied_settled [OF hl lg] execute_reverse_proxy_spec [OF laws lg]
    by (cases act) (auto simp: execute_action_def)
  have fb: "finish_built mg lg n b s = Some (res, s') \<Longrightarrow> io_sent s' = io_sent s" for n b
    by (auto simp: finish_built_def split: sum.splits)
  show "io_sent s' = io_sent s \<or>
      (\<exists>b backend path ct rt up. io_sent s' = io_sent s @ [b] \<and> act = AR_ReverseProxy backend path ct rt up
         \<and> sends_upstream L ra sec backend path up r b)"
    using e fb
    by (cases act) (auto simp: execute_action_def execute_redirect_def execute_respond_def
        execute_auth_denied_def Let_def dest!: execute_reverse_proxy_spec [OF laws lg])
qed

definition request_host :: "('u, 'h, 'w) lib \<Rightarrow> ('u, 'h) request \<Rightarrow> string" where
  "request_host L req =
     unwrap_or ''localhost'' (Option.bind (hm_get L (req_headers req) ''host'') (header_value_to_str L))"

text \<open>The outcome of a request, in terms of the pipeline that it ran.\<close>

definition guards ::
  "('u, 'h, 'w) lib \<Rightarrow> ('u, 'h) request \<Rightarrow> socket_addr \<Rightarrow> string \<Rightarrow> metrics_guard \<times> access_log_guard" where
  "guards L req ra rid =
     (\<lparr>mg_method = req_method req, mg_site = request_host L req\<rparr>,
      access_log_guard_new rid ra (req_method req) (uri_path L (req_uri req)) (request_host L req))"

lemma fresh_guards:
  "guards L req ra rid0 = (mg, lg) \<Longrightarrow> list_all is_visible rid \<Longrightarrow> fresh_guard (guard_set_request_id rid lg) rid"
  by (auto simp: guards_def fresh_guard_def model_defs)

lemma ensure_request_host:
  assumes laws: "http_laws L" and e: "ensure_request_id L req s0 = (rid0, r, s)"
  shows "unwrap_or ''localhost'' (Option.bind (hm_get L (req_headers r) ''host'') (header_value_to_str L))
      = request_host L req"
proof -
  have "to_ascii_lowercase ''host'' \<noteq> ''x-request-id''" by (simp add: header_lower)
  then have "hm_get L (req_headers r) ''host'' = hm_get L (req_headers req) ''host''"
    using ensure_request_id_spec(6) [OF laws e, of "''host''"]
    by (simp add: header_laws.get_all [OF http_laws.axioms(1) [OF laws]])
  then show ?thesis by (simp add: request_host_def)
qed

lemma proxy_unfold:
  assumes laws: "http_laws L" and e: "ensure_request_id L req s0 = (rid0, r, s)"
    and g: "guards L req ra rid0 = (mg, lg)"
  shows "proxy L req config ra sec s0 =
     (case find_site config (request_host L req) sec of
        None \<Rightarrow> finish_error L mg lg 404 (''No configuration found for host: '' @ request_host L req) rid0
                  (emit [ActiveRequestsInc] s)
      | Some site \<Rightarrow>
          (case process_directives L (directives site) r (uri_path L (req_uri req))
              \<lparr>ctx_original_uri = unwrap_or [] (uri_path_and_query L (req_uri req)), ctx_remote_addr = ra, ctx_is_tls = sec\<rparr>
              (emit [ActiveRequestsInc] s) of
             None \<Rightarrow> None
           | Some (Inl x, r2, s2) \<Rightarrow>
               finish_error L mg (guard_set_request_id (final_request_id L r2 rid0) lg) 500 x (final_request_id L r2 rid0) s2
           | Some (Inr act, r2, s2) \<Rightarrow>
               execute_action L mg (guard_set_request_id (final_request_id L r2 rid0) lg) (final_request_id L r2 rid0)
                 ra sec act r2 s2))"
proof -
  note sp = ensure_request_id_spec [OF laws e]
  note host = ensure_request_host [OF laws e]
  have mg: "mg = \<lparr>mg_method = req_method req, mg_site = request_host L req\<rparr>"
    and lg: "lg = access_log_guard_new rid0 ra (req_method req) (uri_path L (req_uri req)) (request_host L req)"
    using g by (simp_all add: guards_def)
  show ?thesis
    unfolding proxy_def e Let_def prod.case host metrics_guard_new_def sp(3,4) mg lg by (rule refl)
qed

lemma proxy_settles:
  assumes laws: "http_laws L" and p: "proxy L req config ra sec s0 = Some (res, s')"
  obtains mg lg rid labels t where
    "mg = \<lparr>mg_method = req_method req, mg_site = request_host L req\<rparr>"
    "lg = access_log_guard_new rid ra (req_method req) (uri_path L (req_uri req)) (request_host L req)"
    "io_log t = io_log s0" "io_metrics t = io_metrics s0 @ [ActiveRequestsInc] @ auth_metrics labels"
    "settled L mg lg t res s'"
proof -
  note hl = http_laws.axioms(1) [OF laws]
  obtain rid0 r s where e: "ensure_request_id L req s0 = (rid0, r, s)" using prod_cases3 by blast
  obtain mg lg where g: "guards L req ra rid0 = (mg, lg)" by fastforce
  note sp = ensure_request_id_spec [OF laws e]
  note u = p [unfolded proxy_unfold [OF laws e g]]
  have mg: "mg = \<lparr>mg_method = req_method req, mg_site = request_host L req\<rparr>"
    and lgr: "guard_set_request_id x lg
      = access_log_guard_new x ra (req_method req) (uri_path L (req_uri req)) (request_host L req)" for x
    using g by (auto simp: guards_def model_defs)
  have lg0: "lg = guard_set_request_id rid0 lg" using g by (auto simp: guards_def model_defs)
  show ?thesis
  proof (cases "find_site config (request_host L req) sec")
    case None
    have "list_all is_visible (lg_request_id lg)" "lg_bytes_sent lg = None" "lg_request_id lg = rid0"
      using sp(2) g by (auto simp: guards_def model_defs)
    then have "settled L mg lg (emit [ActiveRequestsInc] s) res s'"
      using u None settled_finish_error(1) [OF hl] by simp
    with sp(7-9) show ?thesis
      by (intro that [OF mg lgr, of "emit [ActiveRequestsInc] s" "[]" rid0]) (simp_all add: lg0 [symmetric])
  next
    case (Some site)
    then obtain a r2 s2 where pd: "process_directives L (directives site) r (uri_path L (req_uri req))
        \<lparr>ctx_original_uri = unwrap_or [] (uri_path_and_query L (req_uri req)), ctx_remote_addr = ra, ctx_is_tls = sec\<rparr>
        (emit [ActiveRequestsInc] s) = Some (a, r2, s2)"
      using u by (auto split: option.splits)
    let ?rid = "final_request_id L r2 rid0"
    have vis: "list_all is_visible ?rid" by (rule final_request_id_visible [OF hl sp(2)])
    note fg = fresh_guards [OF g vis]
    obtain labels where l: "io_metrics s2 = io_metrics s @ [ActiveRequestsInc] @ auth_metrics labels" "io_log s2 = io_log s"
    proof -
      obtain ss fin where "run_steps L \<lparr>ctx_original_uri = unwrap_or [] (uri_path_and_query L (req_uri req)),
          ctx_remote_addr = ra, ctx_is_tls = sec\<rparr> ss fin r (emit [ActiveRequestsInc] s) = Some (a, r2, s2)"
        using pd by (auto simp: process_directives_def run_directives_route split: prod.splits)
      from run_steps_gate [OF laws this] that show ?thesis by auto
    qed
    have "settled L mg (guard_set_request_id ?rid lg) s2 res s'"
      using u Some pd execute_action_spec(1) [OF laws fg] settled_finish_error(1) [OF hl, of "guard_set_request_id ?rid lg"] fg
      by (cases a) (auto simp: fresh_guard_def)
    with l sp(7-9) show ?thesis by (intro that [OF mg lgr, of s2 labels ?rid]) simp_all
  qed
qed

text \<open>
  C5. Every request that returns is accounted for exactly once, on every branch: one
  access-log line with the client's address, method, path and host and the status the client
  gets (500 when the handler itself fails), a logged size that is the body's size or unknown,
  and the identifier that the response carries as its last \<open>X-Request-ID\<close>. The gauge of
  active requests is raised once at the start and lowered once at the end, with the counters
  for the same method, status and site just before.
\<close>

theorem proxy_accounts:
  assumes "http_laws L" and "proxy L req config ra sec s0 = Some (res, s')"
  shows "\<exists>e labels. io_log s' = io_log s0 @ [e]
     \<and> le_method e = req_method req \<and> le_path e = uri_path L (req_uri req) \<and> le_host e = request_host L req
     \<and> le_remote e = show_ip (sa_ip ra) \<and> le_status e = result_status res
     \<and> result_bytes (le_bytes_sent e) res \<and> result_id L (le_request_id e) res
     \<and> io_metrics s' = io_metrics s0 @ [ActiveRequestsInc] @ auth_metrics labels
         @ result_metrics \<lparr>mg_method = req_method req, mg_site = request_host L req\<rparr> res @ [ActiveRequestsDec]"
proof (rule proxy_settles [OF assms])
  fix mg lg rid labels t
  assume "mg = \<lparr>mg_method = req_method req, mg_site = request_host L req\<rparr>"
    "lg = access_log_guard_new rid ra (req_method req) (uri_path L (req_uri req)) (request_host L req)"
    "io_log t = io_log s0" "io_metrics t = io_metrics s0 @ [ActiveRequestsInc] @ auth_metrics labels"
    "settled L mg lg t res s'"
  then show ?thesis
    by (auto simp: settled_def entry_of_def access_log_guard_new_def intro!: exI [of _ labels])
qed

definition sample_config :: "ref_uri config" where
  "sample_config = \<lparr>sites = [(''site'', \<lparr>address = ''site'', directives = sample_directives, tls = None\<rparr>)]\<rparr>"

definition sample_peer :: socket_addr where
  "sample_peer = socket_addr_new (V4 10 0 0 1) 5000"

lemma sample_request_facts:
  "request_host ref_lib sample_request = ''site''" "req_method sample_request = ''POST''"
  "uri_path ref_lib (req_uri sample_request) = ''/app''"
  by code_simp+

theorem proxy_accounts_witness:
  "\<exists>resp s' e. proxy ref_lib sample_request sample_config sample_peer True (ref_io [] []) = Some (Inr resp, s')
     \<and> resp_status resp = 503 \<and> io_log s' = [e] \<and> le_status e = 503 \<and> le_path e = ''/app''
     \<and> carries_id ref_lib (le_request_id e) resp"
proof -
  let ?run = "proxy ref_lib sample_request sample_config sample_peer True (ref_io [] [])"
  have "(case ?run of Some (Inr resp, s') \<Rightarrow> resp_status resp = 503 | _ \<Rightarrow> False)" by code_simp
  then obtain resp s' where run: "?run = Some (Inr resp, s')" and st: "resp_status resp = 503"
    by (auto elim: run_answer)
  have "io_log (ref_io [] [] :: (ref_uri, ref_headers, ref_world) io) = []" by (simp add: ref_io_def)
  with run st proxy_accounts [OF ref_http.http_laws_axioms run] show ?thesis
    by (auto simp: sample_request_facts)
qed

section \<open>Who reaches the backend\<close>

lemma insert_all_target [simp]:
  "req_uri (insert_all L xs r) = req_uri r" "req_body (insert_all L xs r) = req_body r"
  by (induction xs arbitrary: r) auto

lemma remove_all_target [simp]:
  "req_uri (remove_all L xs r) = req_uri r" "req_body (remove_all L xs r) = req_body r"
  by (induction xs arbitrary: r) auto

lemma run_steps_frame:
  assumes hl: "header_laws L"
  shows "run_steps L ctx ss fin r s = Some (res, r', s') \<Longrightarrow>
     req_method r' = req_method r \<and> req_uri r' = req_uri r \<and> req_body r' = req_body r"
proof (induction ss arbitrary: r s)
  case Nil
  then show ?case by simp
next
  case (Cons st ss)
  show ?case
  proof (cases st)
    case (SHeader n v)
    then show ?thesis
      using Cons handle_header_frame [OF hl, of n v r s]
      by (fastforce simp: only_header_def split: option.splits sum.splits)
  next
    case (SAuth cfg)
    obtain out s1 where "resolve_auth L ctx (scrub_identity_headers L r cfg) cfg s = (out, s1)" by fastforce
    with Cons SAuth show ?thesis
      by (cases out) (auto simp: Let_def scrub_identity_headers_def apply_identity_headers_def
          split: if_splits dest!: Cons.IH)
  qed
qed

lemma names_valid_route:
  assumes "valid_config L config" "(k, site) \<in> set (sites config)"
    "route (directives site) meth cur path = (steps, fin)"
  shows "names_valid L steps"
proof -
  have "list_all (all_auth (valid_forward_auth L)) (directives site)"
    using assms(1,2) by (auto simp: valid_config_def)
  from route_all_auth [OF this, of meth cur path] assms(3) show ?thesis
    by (auto simp: names_valid_def list_all_iff valid_forward_auth_def)
qed

lemma find_site_in:
  assumes "find_site config host sec = Some site"
  shows "\<exists>k. (k, site) \<in> set (sites config)"
proof -
  have "sites_get config k = Some site \<Longrightarrow> (k, site) \<in> set (sites config)" for k
    by (simp add: sites_get_def map_of_SomeD)
  moreover have "set (sni_matches config host) \<subseteq> snd ` set (sites config)"
    by (auto simp: sni_matches_def sites_values_def)
  ultimately show ?thesis
    using assms by (fastforce simp: find_site_def split: option.splits if_splits list.splits)
qed

text \<open>
  \<open>backend_call\<close>: the request \<open>b\<close> that a backend receives for the client's request \<open>req\<close>, whose route
  has the given steps. \<open>r2\<close> is the request as the steps left it.
\<close>

definition backend_call ::
  "('u, 'h, 'w) lib \<Rightarrow> socket_addr \<Rightarrow> bool \<Rightarrow> 'u step list \<Rightarrow> string \<Rightarrow> string \<Rightarrow> header_directive list
     \<Rightarrow> ('u, 'h) request \<Rightarrow> ('u, 'h) request \<Rightarrow> bool" where
  "backend_call L ra sec steps backend path up req b \<longleftrightarrow>
     req_method b = req_method req \<and> req_body b = req_body req \<and> names_backend L backend (req_uri b)
     \<and> uri_path_and_query L (req_uri b) = Some (upstream_target path (uri_query L (req_uri req)))
     \<and> (\<exists>r2. (\<forall>n. to_ascii_lowercase n \<notin> to_ascii_lowercase ` hd_name ` set up \<longrightarrow>
                hm_all L (req_headers b) n = upstream_header L ra sec (req_uri b) r2 (to_ascii_lowercase n))
          \<and> (\<forall>n. to_ascii_lowercase n \<noteq> ''x-request-id'' \<longrightarrow> to_ascii_lowercase n \<notin> \<Union> (step_names ` set steps) \<longrightarrow>
                hm_all L (req_headers r2) n = hm_all L (req_headers req) n))"

lemma sends_upstream_call:
  assumes laws: "http_laws L" and valid: "names_valid L steps"
    and run: "run_steps L ctx steps fin r s = Some (res, r2, s2)"
    and r: "req_method r = req_method req" "req_uri r = req_uri req" "req_body r = req_body req"
      "\<And>n. to_ascii_lowercase n \<noteq> ''x-request-id'' \<Longrightarrow> hm_all L (req_headers r) n = hm_all L (req_headers req) n"
    and b: "sends_upstream L ra sec backend path up r2 b"
  shows "backend_call L ra sec steps backend path up req b"
proof -
  have "hm_all L (req_headers r2) n = hm_all L (req_headers req) n"
    if "to_ascii_lowercase n \<noteq> ''x-request-id''" "to_ascii_lowercase n \<notin> \<Union> (step_names ` set steps)" for n
    using run_steps_untouched [OF laws run valid that(2)] r(4) [OF that(1)] by simp
  then show ?thesis
    using b run_steps_frame [OF http_laws.axioms(1) [OF laws] run] r(1-3)
    unfolding sends_upstream_def backend_call_def by auto
qed

text \<open>A request that found its site: the steps it ran and how it ended.\<close>

lemma proxy_site_run:
  assumes laws: "http_laws L" and p: "proxy L req config ra sec s0 = Some (res, s')"
    and site: "find_site config (request_host L req) sec = Some site"
    and rt: "route (directives site) (req_method req) (uri_path L (req_uri req)) (uri_path L (req_uri req)) = (steps, fin)"
  obtains labels qs where
    "\<exists>tail. io_metrics s' = io_metrics s0 @ ActiveRequestsInc # auth_metrics labels @ tail"
    "answered L (auths steps) qs labels"
    "io_sent s' = io_sent s0 @ qs \<or> (\<exists>b backend path ct tm up. io_sent s' = io_sent s0 @ qs @ [b]
       \<and> list_all2 passes (auths steps) labels \<and> fin = Inr (AR_ReverseProxy backend path ct tm up)
       \<and> (valid_config L config \<longrightarrow> backend_call L ra sec steps backend path up req b))"
    "list_all2 passes (take (length labels - 1) (auths steps)) (take (length labels - 1) labels)"
proof -
  note hl = http_laws.axioms(1) [OF laws]
  let ?ctx = "\<lparr>ctx_original_uri = unwrap_or [] (uri_path_and_query L (req_uri req)), ctx_remote_addr = ra, ctx_is_tls = sec\<rparr>"
  obtain rid0 r s where e: "ensure_request_id L req s0 = (rid0, r, s)" using prod_cases3 by blast
  obtain mg lg where g: "guards L req ra rid0 = (mg, lg)" by fastforce
  note sp = ensure_request_id_spec [OF laws e]
  note u = p [unfolded proxy_unfold [OF laws e g] site option.case]
  obtain a r2 s2 where pd: "process_directives L (directives site) r (uri_path L (req_uri req)) ?ctx
      (emit [ActiveRequestsInc] s) = Some (a, r2, s2)"
    using u by (auto split: option.splits)
  then have steps: "run_steps L ?ctx steps fin r (emit [ActiveRequestsInc] s) = Some (a, r2, s2)"
    using rt sp(3) by (simp add: process_directives_def run_directives_route)
  obtain labels qs where lq: "io_sent s2 = io_sent s0 @ qs" "io_metrics s2 = io_metrics s0 @ ActiveRequestsInc # auth_metrics labels"
    "answered L (auths steps) qs labels" "gate L (auths steps) fin qs (io_world s2) labels a"
    using run_steps_gate [OF laws steps] sp(7-9) by auto
  let ?lg = "guard_set_request_id (final_request_id L r2 rid0) lg"
  note fg = fresh_guards [OF g final_request_id_visible [OF hl sp(2), of r2]]
  have nv: "names_valid L steps" if "valid_config L config"
    using names_valid_route [OF that _ rt] find_site_in [OF site] by blast
  have same: "hm_all L (req_headers r) n = hm_all L (req_headers req) n" if "to_ascii_lowercase n \<noteq> ''x-request-id''" for n
    using sp(6) that by blast
  have call: "valid_config L config \<longrightarrow> backend_call L ra sec steps backend path up req b"
    if "sends_upstream L ra sec backend path up r2 b" for backend path up b
    using sends_upstream_call [OF laws nv steps sp(3,4,5) same that] by blast
  have err: "settled L mg ?lg s2 res s' \<and> io_sent s' = io_sent s2" if "a = Inl x" for x
    using u pd that settled_finish_error [OF hl, of ?lg] fg by (auto simp: fresh_guard_def)
  have act: "settled L mg ?lg s2 res s' \<and> (io_sent s' = io_sent s2 \<or> (\<exists>b backend path ct tm up.
      io_sent s' = io_sent s2 @ [b] \<and> a = Inr (AR_ReverseProxy backend path ct tm up)
       \<and> (valid_config L config \<longrightarrow> backend_call L ra sec steps backend path up req b)))" if "a = Inr x" for x
  proof
    have ex: "execute_action L mg ?lg (final_request_id L r2 rid0) ra sec x r2 s2 = Some (res, s')"
      using u pd that by simp
    show "settled L mg ?lg s2 res s'" by (rule execute_action_spec(1) [OF laws fg ex])
    show "io_sent s' = io_sent s2 \<or> (\<exists>b backend path ct tm up.
      io_sent s' = io_sent s2 @ [b] \<and> a = Inr (AR_ReverseProxy backend path ct tm up)
       \<and> (valid_config L config \<longrightarrow> backend_call L ra sec steps backend path up req b))"
      using execute_action_spec(2) [OF laws fg ex]
    proof (elim disjE exE conjE, goal_cases)
      case (2 b backend path ct tm up)
      then have "valid_config L config \<longrightarrow> backend_call L ra sec steps backend path up req b" by (intro call)
      with 2 that show ?thesis by simp
    qed simp
  qed
  have out: "settled L mg ?lg s2 res s' \<and> (io_sent s' = io_sent s2 \<or> (\<exists>b backend path ct tm up.
      io_sent s' = io_sent s2 @ [b] \<and> a = Inr (AR_ReverseProxy backend path ct tm up)
       \<and> (valid_config L config \<longrightarrow> backend_call L ra sec steps backend path up req b)))"
    using err act by (cases a) auto
  show ?thesis
  proof (rule that [of labels qs])
    show "\<exists>tail. io_metrics s' = io_metrics s0 @ ActiveRequestsInc # auth_metrics labels @ tail"
      using out lq(2) by (auto simp: settled_def)
    show "io_sent s' = io_sent s0 @ qs \<or> (\<exists>b backend path ct tm up. io_sent s' = io_sent s0 @ qs @ [b]
       \<and> list_all2 passes (auths steps) labels \<and> fin = Inr (AR_ReverseProxy backend path ct tm up)
       \<and> (valid_config L config \<longrightarrow> backend_call L ra sec steps backend path up req b))"
      using out lq(1,4) by (auto simp: gate_def)
  qed (use lq gate_passed in auto)
qed

text \<open>
  C1. The backend is behind the gate. What the proxy sends for a request is first the
  subrequests to the authorization services of the route, in order, and then at most one
  request to a backend; and that one is sent only when every service of the route passed
  and the route ends in a \<open>reverse_proxy\<close> directive. It goes to the scheme and authority of that
  directive's backend, with the routed path and the client's query as its target. It has the
  client's method and body, the peer's address, the scheme and the original host in
  \<open>X-Forwarded-*\<close>, the backend's authority as \<open>Host\<close>, no \<open>Connection\<close> or \<open>Accept-Encoding\<close>, and
  all other headers as the pipeline left them, in every case unless the directive's own
  \<open>header_up\<close> names the header. A header that no step of the route names is as the client sent it.
\<close>

theorem proxy_backend_gated:
  assumes laws: "http_laws L" and valid: "valid_config L config"
    and p: "proxy L req config ra sec s0 = Some (res, s')"
    and site: "find_site config (request_host L req) sec = Some site"
    and rt: "route (directives site) (req_method req) (uri_path L (req_uri req)) (uri_path L (req_uri req)) = (steps, fin)"
  shows "\<exists>labels qs. list_all2 auth_call (take (length labels) (auths steps)) qs
     \<and> answered L (auths steps) qs labels
     \<and> (\<exists>tail. io_metrics s' = io_metrics s0 @ ActiveRequestsInc # auth_metrics labels @ tail)
     \<and> (io_sent s' = io_sent s0 @ qs
        \<or> (\<exists>b backend path ct tm up. io_sent s' = io_sent s0 @ qs @ [b]
             \<and> list_all2 passes (auths steps) labels \<and> fin = Inr (AR_ReverseProxy backend path ct tm up)
             \<and> backend_call L ra sec steps backend path up req b))"
proof (rule proxy_site_run [OF laws p site rt], goal_cases)
  case (1 labels qs)
  then show ?case using valid answered_calls [OF 1(2)] by (intro exI [of _ labels] exI [of _ qs]) blast
qed

definition gated_request :: "(ref_uri, ref_headers) request" where
  "gated_request =
     \<lparr>req_method = ''POST'', req_uri = \<lparr>ru_scheme = None, ru_authority = None, ru_pq = Some ''/app?x=1''\<rparr>,
      req_headers = [(''host'', ''site''), (''x-request-id'', ''7'')], req_body = [Frame ''data'']\<rparr>"

definition gated_site :: "ref_uri site_config" where
  "gated_site = \<lparr>address = ''site'', directives = [ForwardAuth sample_auth, ReverseProxy ''b:3'' None None []], tls = None\<rparr>"

theorem proxy_backend_gated_witness:
  "\<exists>resp s' q b. proxy ref_lib gated_request \<lparr>sites = [(''site'', gated_site)]\<rparr> sample_peer True
        (ref_io [] [Answer \<lparr>resp_status = 200, resp_headers = [], resp_body = []\<rparr>,
                    Answer \<lparr>resp_status = 201, resp_headers = [], resp_body = [Frame ''made'']\<rparr>])
      = Some (Inr resp, s') \<and> resp_status resp = 201
     \<and> io_sent s' = [q, b] \<and> auth_call sample_auth q \<and> req_method b = ''POST'' \<and> req_body b = [Frame ''data'']
     \<and> uri_path_and_query ref_lib (req_uri b) = Some ''/app?x=1''
     \<and> uri_authority ref_lib (req_uri b) = Some ''b:3'' \<and> hm_all ref_lib (req_headers b) ''Host'' = [''b:3'']
     \<and> hm_all ref_lib (req_headers b) ''X-Forwarded-For'' = [''10.0.0.1'']"
proof -
  let ?s = "ref_io [] [Answer \<lparr>resp_status = 200, resp_headers = [], resp_body = []\<rparr>,
      Answer \<lparr>resp_status = 201, resp_headers = [], resp_body = [Frame ''made'']\<rparr>]"
  let ?c = "\<lparr>sites = [(''site'', gated_site)]\<rparr>"
  let ?run = "proxy ref_lib gated_request ?c sample_peer True ?s"
  have "(case ?run of Some (Inr resp, s') \<Rightarrow> resp_status resp = 201 \<and> length (io_sent s') = 2 | _ \<Rightarrow> False)" by code_simp
  then obtain resp s' where run: "?run = Some (Inr resp, s')" and st: "resp_status resp = 201" "length (io_sent s') = 2"
    by (auto elim: run_answer)
  have v: "valid_config ref_lib ?c" by code_simp
  have facts: "request_host ref_lib gated_request = ''site''" "req_method gated_request = ''POST''"
    "uri_path ref_lib (req_uri gated_request) = ''/app''" "uri_query ref_lib (req_uri gated_request) = Some ''x=1''"
    "req_body gated_request = [Frame ''data'']" "to_ascii_lowercase ''X-Forwarded-For'' = ''x-forwarded-for''"
    by code_simp+
  have site: "find_site ?c (request_host ref_lib gated_request) True = Some gated_site"
    by (simp add: facts find_site_def sites_get_def)
  have rt: "route (directives gated_site) (req_method gated_request) (uri_path ref_lib (req_uri gated_request))
      (uri_path ref_lib (req_uri gated_request)) = ([SAuth sample_auth], Inr (AR_ReverseProxy ''b:3'' ''/app'' None None []))"
    by (simp add: gated_site_def facts)
  have "show_ip (sa_ip sample_peer) = ''10.0.0.1''"
    by (simp add: sample_peer_def socket_addr_new_def show_ipv4_def show_nat.simps)
  moreover have "io_sent ?s = []" by (simp add: ref_io_def)
  moreover obtain labels qs b where qs: "list_all2 auth_call (take (length labels) [sample_auth]) qs"
    and b: "io_sent s' = qs @ [b]" "list_all2 passes [sample_auth] labels"
      "backend_call ref_lib sample_peer True [SAuth sample_auth] ''b:3'' ''/app'' [] gated_request b"
  proof -
    have len: "length qs \<le> 1" if "list_all2 auth_call (take (length labels) [sample_auth]) qs" for labels :: "string list" and qs
      using list_all2_lengthD [OF that] by simp
    show ?thesis
      using proxy_backend_gated [OF ref_http.http_laws_axioms v run site rt] that st(2) calculation(2)
      by (fastforce dest: len)
  qed
  moreover obtain q where "qs = [q]" "auth_call sample_auth q" using qs b(2) by (auto simp: list_all2_Cons1)
  moreover have "uri_authority ref_lib (req_uri b) = Some ''b:3''"
  proof -
    have "uri_parse ref_lib (if starts_with ''b:3'' ''http://'' \<or> starts_with ''b:3'' ''https://'' then ''b:3'' else ''http://'' @ ''b:3'')
        = Inr \<lparr>ru_scheme = Some ''http'', ru_authority = Some ''b:3'', ru_pq = Some ''/''\<rparr>" by code_simp
    then show ?thesis using b(3) by (auto simp: backend_call_def names_backend_def ref_lib_def)
  qed
  moreover have "to_ascii_lowercase ''Host'' = ''host''" "header_value_from_str ref_lib ''b:3'' = Some ''b:3''" by code_simp+
  ultimately show ?thesis
    using run st(1) by (auto simp: facts backend_call_def upstream_header_def upstream_target_def)
qed

section \<open>Requests that no site answers\<close>

text \<open>
  C33. A request whose \<open>Host\<close> no site answers gets a 404 page that names the host, and nothing is
  sent to any backend or authorization service.
\<close>

theorem proxy_unknown_host:
  assumes laws: "http_laws L" and none: "find_site config (request_host L req) sec = None"
  shows "\<exists>resp s'. proxy L req config ra sec s0 = Some (Inr resp, s') \<and> resp_status resp = 404
     \<and> resp_body resp = [Frame (error_page ''404'' (unwrap_or ''Error'' (status_canonical_reason L 404))
          (''No configuration found for host: '' @ request_host L req))]
     \<and> io_sent s' = io_sent s0"
proof -
  note hl = http_laws.axioms(1) [OF laws]
  obtain rid0 r s where e: "ensure_request_id L req s0 = (rid0, r, s)" using prod_cases3 by blast
  obtain mg lg where g: "guards L req ra rid0 = (mg, lg)" by fastforce
  note sp = ensure_request_id_spec [OF laws e]
  let ?msg = "''No configuration found for host: '' @ request_host L req"
  obtain resp n where er: "error_response_with_id L 404 ?msg rid0 = (resp, n)" by fastforce
  have "show_word (404 :: u16) = ''404''" by (simp add: show_nat.simps)
  with error_response_ok [OF hl sp(2) er] er none sp(7) show ?thesis
    by (simp add: proxy_unfold [OF laws e g] finish_error_def)
qed

theorem proxy_unknown_host_witness:
  "\<exists>resp s'. proxy ref_lib sample_request \<lparr>sites = []\<rparr> sample_peer False (ref_io [] []) = Some (Inr resp, s')
     \<and> resp_status resp = 404 \<and> io_sent s' = []"
proof -
  have "find_site \<lparr>sites = []\<rparr> (request_host ref_lib sample_request) False = (None :: ref_uri site_config option)"
    by (simp add: find_site_def sites_get_def)
  from proxy_unknown_host [OF ref_http.http_laws_axioms this, of sample_peer "ref_io [] []"] show ?thesis
    by (auto simp: ref_io_def)
qed

section \<open>Requests that return\<close>

definition static_value :: "string option \<Rightarrow> bool" where
  "static_value v = (case v of None \<Rightarrow> True | Some t \<Rightarrow> str_find t ''{header.'' = None \<and> str_find t ''{env.'' = None)"

fun static_templates :: "'u directive \<Rightarrow> bool" where
  "static_templates (Header n v) = static_value v"
| "static_templates (HandlePath p ds) = list_all static_templates ds"
| "static_templates (Method ms ds) = list_all static_templates ds"
| "static_templates (ReverseProxy to ct rt up) = list_all (\<lambda>d. static_value (hd_value d)) up"
| "static_templates _ = True"

lemma static_substitution:
  "static_value (Some t) \<Longrightarrow> \<exists>x s'. process_header_substitution L t h s = Some (x, s')"
  by (simp add: process_header_substitution_def header_loop_def env_loop_def static_value_def
      subst_loop.simps [of _ _ _ t] split: prod.split)

lemma static_handle_header: "static_value v \<Longrightarrow> handle_header L n v r s \<noteq> None"
  using static_substitution [of "the v" L "req_headers r" s]
  by (cases v) (auto simp: handle_header_def split: option.splits sum.splits)

lemma static_header_up: "list_all (\<lambda>d. static_value (hd_value d)) up \<Longrightarrow> apply_header_up L up r a b c s \<noteq> None"
proof (induction up arbitrary: r s)
  case (Cons d up)
  have "apply_header_up_one L d r a b c s \<noteq> None"
    using Cons.prems static_substitution [of "the (hd_value d)" L "req_headers r" s]
    by (cases "hd_value d")
      (auto simp: apply_header_up_one_def process_upstream_substitution_def Let_def split: option.splits sum.splits)
  with Cons show ?case by (auto split: option.splits)
qed simp

lemma static_outbound:
  "list_all (\<lambda>d. static_value (hd_value d)) up \<Longrightarrow> \<exists>x. outbound_request L ra sec b p up r s = Some x"
  using static_header_up by (auto simp: outbound_request_def Let_def split: sum.splits)

lemma static_run_directives:
  "list_all static_templates ds \<Longrightarrow>
     \<exists>a r' s'. run_directives L cur ds r path ctx s = Some (a, r', s')
       \<and> (\<forall>b p ct rt up. a = Inr (AR_ReverseProxy b p ct rt up) \<longrightarrow> list_all (\<lambda>d. static_value (hd_value d)) up)"
proof (induction L cur ds r path ctx s rule: run_directives.induct)
  case (2 L cur name val ds r path ctx s)
  then show ?case
    using static_handle_header [of val L name r s] by (auto split: option.splits sum.splits)
next
  case (10 L cur cfg ds r path ctx s)
  then show ?case
    by (auto simp: Let_def split: prod.splits auth_result.splits failure_mode.splits)
qed (auto simp: handle_reverse_proxy_def handle_redirect_def handle_respond_def split: option.splits)

text \<open>
  C25. The handler always returns when the configured header templates read no request header and
  no environment variable: the placeholder loops are the only part that can run for ever.
\<close>

theorem proxy_returns:
  assumes laws: "http_laws L"
    and static: "\<forall>(k, site) \<in> set (sites config). list_all static_templates (directives site)"
  shows "\<exists>res s'. proxy L req config ra sec s0 = Some (res, s')"
proof -
  obtain rid0 r s where e: "ensure_request_id L req s0 = (rid0, r, s)" using prod_cases3 by blast
  obtain mg lg where g: "guards L req ra rid0 = (mg, lg)" by fastforce
  have fe: "\<exists>res s'. finish_error L mg l st m i t = Some (res, s')" for l st m i t
    by (simp add: finish_error_def split: prod.split)
  have fb: "\<exists>res s'. finish_built mg l n b t = Some (res, s')" for l n b t
    by (simp add: finish_built_def split: sum.split)
  have rp: "\<exists>res s'. execute_reverse_proxy L mg l i ra sec b p rt up q t = Some (res, s')"
    if "list_all (\<lambda>d. static_value (hd_value d)) up" for l i b p rt up q t
    using fe fb
    by (auto simp: execute_reverse_proxy_def Let_def static_outbound [OF that]
        split: sum.split option.split prod.split client_outcome.split)
  show ?thesis
  proof (cases "find_site config (request_host L req) sec")
    case None
    then show ?thesis using fe by (simp add: proxy_unfold [OF laws e g])
  next
    case (Some site)
    then have "list_all static_templates (directives site)" using find_site_in [OF Some] static by blast
    then obtain a r' s1 where run: "process_directives L (directives site) r (uri_path L (req_uri req))
        \<lparr>ctx_original_uri = unwrap_or [] (uri_path_and_query L (req_uri req)), ctx_remote_addr = ra, ctx_is_tls = sec\<rparr>
        (emit [ActiveRequestsInc] s) = Some (a, r', s1)"
      and up: "\<And>b p ct rt up. a = Inr (AR_ReverseProxy b p ct rt up) \<Longrightarrow> list_all (\<lambda>d. static_value (hd_value d)) up"
      using static_run_directives unfolding process_directives_def by metis
    have "\<exists>res s'. execute_action L mg l i ra sec act r' s1 = Some (res, s')" if "a = Inr act" for act l i
      using that unfolding execute_action_def execute_redirect_def execute_respond_def execute_auth_denied_def Let_def
      by (cases act) (simp_all only: action_result.case fb rp up)
    with run Some fe show ?thesis
      by (cases a) (simp_all add: proxy_unfold [OF laws e g])
  qed
qed

theorem proxy_returns_witness:
  "\<exists>res s'. proxy ref_lib sample_request sample_config sample_peer True (ref_io [] []) = Some (res, s')"
proof -
  have "\<forall>(k, site) \<in> set (sites sample_config). list_all static_templates (directives site)" by code_simp
  then show ?thesis by (rule proxy_returns [OF ref_http.http_laws_axioms])
qed

end
