(* ===== verification/Tls.thy ===== *)
theory Tls
  imports Site_Lookup Request_Flow "HOL-Library.AList" "HOL-Library.Char_ord" "HOL-Library.List_Lexorder"
begin

text \<open>
  TLS termination (\<open>src/proxy/tls.rs\<close>): loading certificates and keys, the certificate a client is
  shown for the host name it asks for, and the answer of the HTTP listener that redirects to HTTPS.
  Reading and decoding files is third-party code, taken as the operations of the record \<open>tls_lib\<close>;
  the handshake itself is not modelled. A \<open>TlsAcceptor\<close> is the resolver it was built with.
\<close>

section \<open>Loading certificates\<close>

datatype io_error = OtherIo string | InvalidData string | InvalidInput string

record ('c, 'k, 's) tls_lib =
  file_open :: "string \<Rightarrow> io_error + string"
  pem_certs :: "string \<Rightarrow> io_error + 'c list"
  pem_private_key :: "string \<Rightarrow> io_error + 'k option"
  any_supported_type :: "'k \<Rightarrow> string + 's"

definition load_certs :: "('c, 'k, 's) tls_lib \<Rightarrow> string \<Rightarrow> io_error + 'c list" where
  "load_certs T path =
     res_bind (file_open T path) (\<lambda>text.
     res_bind (pem_certs T text) (\<lambda>certs.
       if certs = [] then Inl (InvalidData (''No certificates found in '' @ path)) else Inr certs))"

definition load_key :: "('c, 'k, 's) tls_lib \<Rightarrow> string \<Rightarrow> io_error + 'k" where
  "load_key T path =
     res_bind (file_open T path) (\<lambda>text.
     res_bind (pem_private_key T text)
       (ok_or (InvalidData (''No private key found in '' @ path))))"

section \<open>The resolver\<close>

record ('c, 's) certified_key =
  ck_cert :: "'c list"
  ck_key :: 's

record ('c, 's) sni_cert_resolver =
  sr_entries :: "(string \<times> ('c, 's) certified_key) list"
  sr_default :: "('c, 's) certified_key option"

definition resolve :: "('c, 's) sni_cert_resolver \<Rightarrow> string option \<Rightarrow> ('c, 's) certified_key option" where
  "resolve R server_name =
     (case Option.bind server_name (\<lambda>sni. map_of (sr_entries R) (to_ascii_lowercase sni)) of
        Some cert \<Rightarrow> Some cert
      | None \<Rightarrow> sr_default R)"

section \<open>Building an acceptor\<close>

definition site_certified_key ::
  "('c, 'k, 's) tls_lib \<Rightarrow> string \<Rightarrow> tls_config \<Rightarrow> io_error + ('c, 's) certified_key" where
  "site_certified_key T hostname tls_cfg =
     res_bind (load_certs T (cert_path tls_cfg)) (\<lambda>certs.
     res_bind (load_key T (key_path tls_cfg)) (\<lambda>key.
     res_bind
       (map_err (\<lambda>e. InvalidData (''Unsupported key type in '' @ key_path tls_cfg @ '' for host '' @ hostname @ '': '' @ e))
         (any_supported_type T key))
       (\<lambda>signing_key. Inr \<lparr>ck_cert = certs, ck_key = signing_key\<rparr>)))"

text \<open>The loop over the sites of one listener.\<close>

fun load_sites ::
  "('c, 'k, 's) tls_lib \<Rightarrow> string option \<Rightarrow> (string \<times> tls_config) list \<Rightarrow> ('c, 's) sni_cert_resolver
     \<Rightarrow> io_error + ('c, 's) sni_cert_resolver" where
  "load_sites T default_hostname [] R = Inr R"
| "load_sites T default_hostname ((hostname, tls_cfg) # rest) R =
     res_bind (site_certified_key T hostname tls_cfg) (\<lambda>ck.
       let R1 = (if default_hostname \<noteq> None \<and> eq_ignore_ascii_case hostname (unwrap_or [] default_hostname)
                 then R\<lparr>sr_default := Some ck\<rparr> else R)
       in load_sites T default_hostname rest
            (R1\<lparr>sr_entries := AList.update (to_ascii_lowercase hostname) ck (sr_entries R1)\<rparr>))"

definition pick_default :: "('c, 's) sni_cert_resolver \<Rightarrow> ('c, 's) sni_cert_resolver" where
  "pick_default R =
     (if sr_default R = None then
        (case first_arg (sort (map fst (sr_entries R))) of
           Some host \<Rightarrow> R\<lparr>sr_default := map_of (sr_entries R) host\<rparr>
         | None \<Rightarrow> R)
      else R)"

definition build_tls_acceptor ::
  "('c, 'k, 's) tls_lib \<Rightarrow> (string \<times> tls_config) list \<Rightarrow> string option
     \<Rightarrow> io_error + ('c, 's) sni_cert_resolver" where
  "build_tls_acceptor T tls_sites default_hostname =
     (if tls_sites = [] then Inl (InvalidInput ''Cannot build TLS acceptor: no TLS sites provided'')
      else res_bind (load_sites T default_hostname tls_sites \<lparr>sr_entries = [], sr_default = None\<rparr>)
             (\<lambda>R. Inr (pick_default R)))"

section \<open>The redirect listener\<close>

definition hostname_from_host_header :: "string \<Rightarrow> string" where
  "hostname_from_host_header host =
     (case (if starts_with host ''['' then str_find host '']'' else None) of
        Some e \<Rightarrow> take (e - 1) (drop 1 host)
      | None \<Rightarrow> rsplit_back (CHR '':'') host)"

definition redirect_location :: "('u, 'h, 'w) lib \<Rightarrow> u16 \<Rightarrow> ('u, 'h) request \<Rightarrow> string" where
  "redirect_location L tls_port req =
     (let host = unwrap_or ''localhost'' (Option.bind (hm_get L (req_headers req) ''host'') (header_value_to_str L));
          hostname = hostname_from_host_header host;
          uri = unwrap_or ''/'' (uri_path_and_query L (req_uri req))
      in if tls_port = 443 then ''https://'' @ hostname @ uri
         else ''https://'' @ hostname @ '':'' @ show_word tls_port @ uri)"

definition redirect_body :: "string \<Rightarrow> string" where
  "redirect_body location =
     ''<!DOCTYPE html><html><head><title>301 Moved</title></head>''
     @ ''<body><h1>Moved Permanently</h1><p>The document has moved ''
     @ ''<a href='' @ [CHR 0x22] @ location @ [CHR 0x22] @ ''>here</a>.</p></body></html>''"

text \<open>The service of \<open>listen_http_redirect\<close>; an error is the panic of \<open>expect\<close> on the built response.\<close>

definition redirect_service :: "('u, 'h, 'w) lib \<Rightarrow> u16 \<Rightarrow> ('u, 'h) request \<Rightarrow> proxy_failure + 'h response" where
  "redirect_service L tls_port req =
     (let location = redirect_location L tls_port req;
          body = redirect_body location;
          b = builder_header L ''Content-Type'' ''text/html; charset=utf-8''
                (builder_header L ''Location'' location (Inr (response_builder L 301)))
      in builder_body (full_body body)
           (res_bind b (\<lambda>resp. Inr (builder_header_value L ''Content-Length'' (show_nat (length body)) resp))))"

section \<open>Certificates shown to clients\<close>

lemma load_sites_frame:
  "load_sites T None tls_sites R = Inr R' \<Longrightarrow>
     sr_default R' = sr_default R \<and>
     (k \<notin> to_ascii_lowercase ` fst ` set tls_sites \<longrightarrow> map_of (sr_entries R') k = map_of (sr_entries R) k)"
  by (induction tls_sites arbitrary: R) (auto simp: AList.update_conv' elim!: res_bind_InrD)

lemma load_sites_entries:
  assumes "load_sites T None tls_sites R = Inr R'" "distinct (map (to_ascii_lowercase \<circ> fst) tls_sites)"
    and "(h, cfg) \<in> set tls_sites"
  shows "\<exists>ck. site_certified_key T h cfg = Inr ck \<and> map_of (sr_entries R') (to_ascii_lowercase h) = Some ck"
  using assms
proof (induction tls_sites arbitrary: R)
  case (Cons a tls_sites)
  obtain h0 c0 where a: "a = (h0, c0)" by fastforce
  obtain ck where ck: "site_certified_key T h0 c0 = Inr ck"
    and r: "load_sites T None tls_sites (R\<lparr>sr_entries := AList.update (to_ascii_lowercase h0) ck (sr_entries R)\<rparr>) = Inr R'"
    using Cons.prems(1) by (auto simp: a elim!: res_bind_InrD)
  have d: "to_ascii_lowercase h0 \<notin> to_ascii_lowercase ` fst ` set tls_sites" "distinct (map (to_ascii_lowercase \<circ> fst) tls_sites)"
    using Cons.prems(2) by (auto simp: a image_image comp_def)
  then have "map_of (sr_entries R') (to_ascii_lowercase h0) = Some ck"
    using load_sites_frame [OF r] by (simp add: AList.update_conv')
  then show ?case using Cons.IH [OF r d(2)] Cons.prems(3) ck by (auto simp: a)
qed simp

lemma load_sites_ok: "is_ok (load_sites T d tls_sites R) \<longleftrightarrow> (\<forall>(h, cfg) \<in> set tls_sites. is_ok (site_certified_key T h cfg))"
proof (induction T d tls_sites R rule: load_sites.induct)
  case (2 T d h cfg rest R)
  then show ?case by (cases "site_certified_key T h cfg") (auto simp: Let_def)
qed simp

lemma sort_head:
  fixes xs :: "'a::linorder list"
  assumes "xs \<noteq> []"
  shows "first_arg (sort xs) = Some (Min (set xs))"
proof -
  obtain y ys where s: "sort xs = y # ys" using assms by (cases "sort xs") (auto dest: arg_cong [where f = set])
  have "set (y # ys) = set xs" "sorted (y # ys)" unfolding s [symmetric] by simp_all
  then have "\<forall>x \<in> set xs. y \<le> x" "y \<in> set xs" by auto
  then have "Min (set xs) = y" by (intro Min_eqI) auto
  with s show ?thesis by simp
qed

text \<open>The site whose certificate a client that sends \<open>name\<close> is to be shown.\<close>

definition names_site :: "string option \<Rightarrow> string \<times> tls_config \<Rightarrow> bool" where
  "names_site name site = (case name of None \<Rightarrow> False | Some sni \<Rightarrow> eq_ignore_ascii_case sni (fst site))"

definition site_shown :: "(string \<times> tls_config) list \<Rightarrow> string option \<Rightarrow> string \<times> tls_config \<Rightarrow> bool" where
  "site_shown tls_sites name site =
     (site \<in> set tls_sites \<and>
      (if \<exists>s \<in> set tls_sites. names_site name s then names_site name site
       else \<forall>s \<in> set tls_sites. to_ascii_lowercase (fst site) \<le> to_ascii_lowercase (fst s)))"

lemma build_entries:
  assumes ok: "build_tls_acceptor T tls_sites None = Inr R"
    and distinct: "distinct (map (to_ascii_lowercase \<circ> fst) tls_sites)"
  shows "dom (map_of (sr_entries R)) = to_ascii_lowercase ` fst ` set tls_sites"
    and "site \<in> set tls_sites \<Longrightarrow>
      map_option Inr (map_of (sr_entries R) (to_ascii_lowercase (fst site))) = Some (site_certified_key T (fst site) (snd site))"
    and "sr_default R = map_of (sr_entries R) (Min (to_ascii_lowercase ` fst ` set tls_sites))"
proof -
  obtain R0 where l: "load_sites T None tls_sites \<lparr>sr_entries = [], sr_default = None\<rparr> = Inr R0"
    and R: "R = pick_default R0" and ne: "tls_sites \<noteq> []"
    using ok by (auto simp: build_tls_acceptor_def res_bind_Inr_iff split: if_splits)
  note e = load_sites_frame [OF l] load_sites_entries [OF l distinct]
  have ent: "sr_entries R = sr_entries R0"
    by (auto simp: R pick_default_def split: option.splits)
  show d: "dom (map_of (sr_entries R)) = to_ascii_lowercase ` fst ` set tls_sites"
    unfolding ent using e by (fastforce simp: dom_def image_iff)
  show "site \<in> set tls_sites \<Longrightarrow>
      map_option Inr (map_of (sr_entries R) (to_ascii_lowercase (fst site))) = Some (site_certified_key T (fst site) (snd site))"
    unfolding ent using e(2) [of "fst site" "snd site"] by auto
  have k: "set (map fst (sr_entries R0)) = to_ascii_lowercase ` fst ` set tls_sites"
    using d unfolding ent dom_map_of_conv_image_fst by simp
  then have "map fst (sr_entries R0) \<noteq> []" using ne by auto
  then show "sr_default R = map_of (sr_entries R) (Min (to_ascii_lowercase ` fst ` set tls_sites))"
    using e(1) sort_head [of "map fst (sr_entries R0)"] unfolding ent k by (simp add: R pick_default_def)
qed

lemma resolve_named:
  assumes "build_tls_acceptor T tls_sites None = Inr R" "distinct (map (to_ascii_lowercase \<circ> fst) tls_sites)"
    and "site \<in> set tls_sites" "eq_ignore_ascii_case sni (fst site)"
  shows "map_option Inr (resolve R (Some sni)) = Some (site_certified_key T (fst site) (snd site))"
  using build_entries(2) [OF assms(1-3)] assms(4)
  by (auto simp: resolve_def eq_ignore_ascii_case_def split: option.splits)

lemma build_ok:
  "is_ok (build_tls_acceptor T tls_sites d) \<longleftrightarrow>
     tls_sites \<noteq> [] \<and> (\<forall>(h, cfg) \<in> set tls_sites. is_ok (site_certified_key T h cfg))"
  using load_sites_ok [of T d tls_sites] by (auto simp: build_tls_acceptor_def is_ok_iff res_bind_Inr_iff)

lemma Min_site:
  assumes "site \<in> set tls_sites" "\<forall>s \<in> set tls_sites. to_ascii_lowercase (fst site) \<le> to_ascii_lowercase (fst s)"
  shows "Min (to_ascii_lowercase ` fst ` set tls_sites) = to_ascii_lowercase (fst site)"
  using assms by (intro Min_eqI) auto

text \<open>
  C21. A TLS listener shows a client the certificate of the site it names, whatever the case of the
  name; a client that names no site of the listener, or no host at all, is shown the certificate of
  the site whose host name comes first in the alphabet. There always is such a site, so that every
  handshake gets a certificate, and the answer does not depend on the order of the sites.
\<close>

theorem resolve_shows_own_certificate:
  assumes ok: "build_tls_acceptor T tls_sites None = Inr R"
    and distinct: "distinct (map (to_ascii_lowercase \<circ> fst) tls_sites)"
  shows "(\<exists>site. site_shown tls_sites name site)
     \<and> (\<forall>site. site_shown tls_sites name site \<longrightarrow>
          map_option Inr (resolve R name) = Some (site_certified_key T (fst site) (snd site)))"
proof
  note b = build_entries [OF ok distinct]
  have ne: "tls_sites \<noteq> []" using ok by (auto simp: build_tls_acceptor_def)
  let ?m = "Min (to_ascii_lowercase ` fst ` set tls_sites)"
  have "?m \<in> to_ascii_lowercase ` fst ` set tls_sites" using ne by (intro Min_in) auto
  then obtain s where "s \<in> set tls_sites" "to_ascii_lowercase (fst s) = ?m" by auto
  then have "\<forall>x \<in> set tls_sites. to_ascii_lowercase (fst s) \<le> to_ascii_lowercase (fst x)" by simp
  with \<open>s \<in> set tls_sites\<close> show "\<exists>site. site_shown tls_sites name site"
    unfolding site_shown_def by metis
  show "\<forall>site. site_shown tls_sites name site \<longrightarrow>
          map_option Inr (resolve R name) = Some (site_certified_key T (fst site) (snd site))"
  proof (intro allI impI)
    fix site assume s: "site_shown tls_sites name site"
    then have mem: "site \<in> set tls_sites" by (simp add: site_shown_def)
    show "map_option Inr (resolve R name) = Some (site_certified_key T (fst site) (snd site))"
    proof (cases "\<exists>s \<in> set tls_sites. names_site name s")
      case True
      then obtain sni where "name = Some sni" "eq_ignore_ascii_case sni (fst site)"
        using s by (auto simp: site_shown_def names_site_def split: option.splits)
      then show ?thesis using resolve_named [OF ok distinct mem] by simp
    next
      case False
      then have "Option.bind name (\<lambda>sni. map_of (sr_entries R) (to_ascii_lowercase sni)) = None"
        using b(1) by (cases name) (auto simp: names_site_def eq_ignore_ascii_case_def dom_def)
      moreover have "?m = to_ascii_lowercase (fst site)"
        using s False mem by (intro Min_site) (simp_all add: site_shown_def)
      ultimately show ?thesis using b(2) [OF mem] b(3) by (simp add: resolve_def)
    qed
  qed
qed

text \<open>An instance of the file and key operations: every path names a readable file holding one key pair.\<close>

definition ref_tls :: "(string, string, string) tls_lib" where
  "ref_tls =
     \<lparr>file_open = (\<lambda>path. if ends_with path ''.pem'' then Inr path else Inl (OtherIo ''No such file'')),
      pem_certs = (\<lambda>text. Inr [text]), pem_private_key = (\<lambda>text. Inr (Some text)), any_supported_type = Inr\<rparr>"

definition sample_tls :: "string \<Rightarrow> tls_config" where
  "sample_tls name = \<lparr>cert_path = name @ ''.pem'', key_path = name @ ''.key.pem''\<rparr>"

definition sample_tls_sites :: "(string \<times> tls_config) list" where
  "sample_tls_sites = [(''www.example.com'', sample_tls ''www''), (''API.example.com'', sample_tls ''api'')]"

theorem resolve_shows_own_certificate_witness:
  "\<exists>R. build_tls_acceptor ref_tls sample_tls_sites None = Inr R \<and>
     resolve R (Some ''WWW.example.com'') = Some \<lparr>ck_cert = [''www.pem''], ck_key = ''www.key.pem''\<rparr> \<and>
     resolve R None = Some \<lparr>ck_cert = [''api.pem''], ck_key = ''api.key.pem''\<rparr>"
proof -
  have d: "distinct (map (to_ascii_lowercase \<circ> fst) sample_tls_sites)" by code_simp
  have "is_ok (build_tls_acceptor ref_tls sample_tls_sites None)" by code_simp
  then obtain R where R: "build_tls_acceptor ref_tls sample_tls_sites None = Inr R" by (auto simp: is_ok_iff)
  have "site_shown sample_tls_sites (Some ''WWW.example.com'') (''www.example.com'', sample_tls ''www'')"
    "site_shown sample_tls_sites None (''API.example.com'', sample_tls ''api'')"
    by code_simp+
  moreover have "site_certified_key ref_tls ''www.example.com'' (sample_tls ''www'') = Inr \<lparr>ck_cert = [''www.pem''], ck_key = ''www.key.pem''\<rparr>"
    "site_certified_key ref_tls ''API.example.com'' (sample_tls ''api'') = Inr \<lparr>ck_cert = [''api.pem''], ck_key = ''api.key.pem''\<rparr>"
    by code_simp+
  ultimately have "map_option Inr (resolve R (Some ''WWW.example.com'')) = Some (Inr \<lparr>ck_cert = [''www.pem''], ck_key = ''www.key.pem''\<rparr>)"
    "map_option Inr (resolve R None) = Some (Inr \<lparr>ck_cert = [''api.pem''], ck_key = ''api.key.pem''\<rparr>)"
    using resolve_shows_own_certificate [OF R d] by fastforce+
  then show ?thesis using R by (intro exI [of _ R]) auto
qed

text \<open>
  C38. An acceptor is built exactly when there is a site and every site has a readable certificate
  file with at least one certificate and a readable key file with a key of a supported type; no
  acceptor is built from the part of the sites that could be loaded.
\<close>

theorem build_tls_acceptor_all_or_nothing:
  "is_ok (build_tls_acceptor T tls_sites d) \<longleftrightarrow>
     tls_sites \<noteq> [] \<and>
     list_all (\<lambda>(h, cfg). is_ok (load_certs T (cert_path cfg)) \<and>
       (\<exists>key. load_key T (key_path cfg) = Inr key \<and> is_ok (any_supported_type T key))) tls_sites"
proof -
  have "is_ok (site_certified_key T h cfg) \<longleftrightarrow> is_ok (load_certs T (cert_path cfg)) \<and>
       (\<exists>key. load_key T (key_path cfg) = Inr key \<and> is_ok (any_supported_type T key))" for h cfg
    by (auto simp: site_certified_key_def is_ok_iff res_bind_Inr_iff)
  then show ?thesis by (simp add: build_ok list_all_iff)
qed

section \<open>Redirecting to HTTPS\<close>

lemma hostname_extract: "hostname_from_host_header = extract_hostname"
  by (simp add: fun_eq_iff hostname_from_host_header_def extract_hostname_def)

lemma redirect_tokens:
  "is_token ''Location''" "is_token ''Content-Length''" "is_token ''Content-Type''"
  "to_ascii_lowercase ''Location'' = ''location''" "to_ascii_lowercase ''Content-Length'' = ''content-length''"
  "to_ascii_lowercase ''location'' = ''location''" "to_ascii_lowercase ''content-length'' = ''content-length''"
  "to_ascii_lowercase ''Content-Type'' = ''content-type''"
  by code_simp+

lemma hostname_subset: "set (extract_hostname host) \<subseteq> set host"
  unfolding extract_hostname_def rsplit_back_takeWhile
  by (auto split: option.splits if_splits dest: in_set_takeD in_set_dropD set_takeWhileD)

lemma redirect_location_visible:
  assumes "header_laws L" "list_all is_visible (unwrap_or ''/'' (uri_path_and_query L (req_uri req)))"
  shows "list_all is_visible (redirect_location L tls_port req)"
proof -
  let ?host = "unwrap_or ''localhost'' (Option.bind (hm_get L (req_headers req) ''host'') (header_value_to_str L))"
  have "list_all is_visible ''localhost''" "list_all is_visible ''https://''" "is_visible (CHR '':'')"
    by (simp_all add: is_visible_def)
  moreover from this have "list_all is_visible ?host"
    using header_laws.to_str_eq [OF assms(1)] by (cases "hm_get L (req_headers req) ''host''") auto
  then have "list_all is_visible (hostname_from_host_header ?host)"
    using hostname_subset unfolding hostname_extract list_all_iff by fast
  ultimately show ?thesis
    using assms(2) show_nat_visible [of "unat tls_port"] by (simp add: redirect_location_def Let_def)
qed

text \<open>
  The redirect listener answers every request whose target is visible text, without panicking:
  a permanent redirect whose only Location is the HTTPS address of the request, and whose
  Content-Length is the length of the body.
\<close>

lemma redirect_service_answers:
  assumes laws: "http_laws L" and uri: "list_all is_visible (unwrap_or ''/'' (uri_path_and_query L (req_uri req)))"
  shows "\<exists>resp. redirect_service L tls_port req = Inr resp \<and> resp_status resp = 301
     \<and> hm_all L (resp_headers resp) ''Location'' = [redirect_location L tls_port req]
     \<and> hm_all L (resp_headers resp) ''Content-Length'' = [show_nat (body_length (resp_body resp))]"
proof -
  have hl: "header_laws L" using laws by (simp add: http_laws_def)
  note all = header_laws.builder_value_all [OF hl header_laws.token_name [OF hl]]
  note vis = header_laws.builder_header_visible [OF hl]
  show ?thesis
    using header_laws.all_new [OF hl]
    unfolding redirect_service_def Let_def vis [OF redirect_location_visible [OF hl uri]] vis [OF visible_consts]
    by (simp add: builder_body_def all redirect_tokens response_builder_def)
qed

text \<open>
  C37. Following the redirect reaches the site it was sent for: for a TLS site at a host name and a
  port, the redirect of a request for that host, with or without a port of its own, keeps path and
  query, and the authority in its Location is one that site lookup resolves to the site.
\<close>

theorem redirect_reaches_site:
  assumes laws: "http_laws L"
    and host: "hm_get L (req_headers req) ''host'' = Some (h @ suffix)" "suffix = [] \<or> (\<exists>q. suffix = '':'' @ q)"
    and name: "list_all is_visible (h @ suffix)" "CHR '':'' \<notin> set h" "\<not> starts_with h ''[''" "h \<noteq> []"
    and site: "sites_get c (h @ '':'' @ show_word tls_port) = Some site" "sites_get c h = None"
  shows "\<exists>authority. redirect_location L tls_port req
       = ''https://'' @ authority @ unwrap_or ''/'' (uri_path_and_query L (req_uri req))
     \<and> find_site c authority True = Some site"
proof -
  have hl: "header_laws L" using laws by (simp add: http_laws_def)
  have "\<not> starts_with (h @ suffix) ''[''" using name(3,4) by (cases h) (auto simp: starts_with_def split: if_splits)
  moreover have "takeWhile (\<lambda>x. x \<noteq> CHR '':'') (h @ suffix) = h @ takeWhile (\<lambda>x. x \<noteq> CHR '':'') suffix"
    by (rule takeWhile_append2) (use name(2) in blast)
  moreover have "takeWhile (\<lambda>x. x \<noteq> CHR '':'') suffix = []" using host(2) by (elim disjE exE) simp_all
  ultimately have "hostname_from_host_header (h @ suffix) = h"
    by (simp add: hostname_extract extract_hostname_def rsplit_back_takeWhile)
  then have loc: "redirect_location L tls_port req = ''https://'' @
      (if tls_port = 443 then h else h @ '':'' @ show_word tls_port) @ unwrap_or ''/'' (uri_path_and_query L (req_uri req))"
    using host(1) name(1) header_laws.to_str_eq [OF hl] by (simp add: redirect_location_def Let_def)
  have "find_site c h True = Some site" if "tls_port = 443"
    using site that host_port_plain(1) [OF name(2-4)] by (simp add: find_site_def)
  moreover have "find_site c (h @ '':'' @ show_word tls_port) True = Some site"
    using site by (simp add: find_site_def)
  ultimately show ?thesis using loc by (cases "tls_port = 443") auto
qed

theorem redirect_reaches_site_witness:
  "\<exists>authority. redirect_location ref_lib 8443 (sample_request\<lparr>req_headers := [(''host'', ''example.com:8080'')]\<rparr>)
       = ''https://'' @ authority @ unwrap_or ''/'' (uri_path_and_query ref_lib (req_uri sample_request))
     \<and> find_site \<lparr>sites = [sample_site ''example.com:8443'' True]\<rparr> authority True
         = Some (snd (sample_site ''example.com:8443'' True))"
proof -
  let ?r = "sample_request\<lparr>req_headers := [(''host'', ''example.com:8080'')]\<rparr>"
  let ?c = "\<lparr>sites = [sample_site ''example.com:8443'' True]\<rparr>"
  have n: "''example.com'' @ '':'' @ show_word (8443 :: u16) = ''example.com:8443''" by (simp add: show_nat.simps)
  have 1: "hm_get ref_lib (req_headers ?r) ''host'' = Some (''example.com'' @ '':8080'')" by code_simp
  have 2: "list_all is_visible (''example.com'' @ '':8080'')" "CHR '':'' \<notin> set ''example.com''"
    "\<not> starts_with ''example.com'' ''[''" by code_simp+
  have 3: "sites_get ?c (''example.com'' @ '':'' @ show_word (8443 :: u16)) = Some (snd (sample_site ''example.com:8443'' True))"
    "sites_get ?c ''example.com'' = None"
    unfolding n by (simp_all add: sites_get_def sample_site_def)
  have 4: "'':8080'' = [] \<or> (\<exists>q. '':8080'' = '':'' @ q)" "''example.com'' \<noteq> []" "req_uri ?r = req_uri sample_request"
    by simp_all
  from redirect_reaches_site [OF ref_http.http_laws_axioms 1 4(1) 2 4(2) 3] show ?thesis unfolding 4(3) .
qed

end
