(* ===== verification/Proxy_Server.thy ===== *)
theory Proxy_Server
  imports Tls Config_Parser_Props
begin

text \<open>
  The proxy server (\<open>src/proxy/proxy.rs\<close>): the \<open>Proxy\<close> object with its shared configuration cell
  and its semaphore, and the listeners that \<open>start\<close> and \<open>start_all\<close> bring up for a configuration.
  The two objects behind an \<open>Arc\<close>, the configuration cell and the semaphore, live in a heap, so
  that sharing is explicit. A listener that was started is a value of \<open>listener\<close>; what it does with
  connections is in \<open>Runtime\<close>. The HTTP client and the loading of the root certificates are not
  part of the state. With the \<open>tls\<close> feature on.
\<close>

section \<open>Shared objects\<close>

record semaphore =
  sem_size :: nat
  sem_available :: nat

record 'u heap =
  cells :: "'u config list"
  sems :: "semaphore list"

definition arc_swap_new :: "'u config \<Rightarrow> 'u heap \<Rightarrow> nat \<times> 'u heap" where
  "arc_swap_new c H = (length (cells H), H\<lparr>cells := cells H @ [c]\<rparr>)"

definition load_full :: "'u heap \<Rightarrow> nat \<Rightarrow> 'u config" where
  "load_full H cell = cells H ! cell"

definition store :: "nat \<Rightarrow> 'u config \<Rightarrow> 'u heap \<Rightarrow> 'u heap" where
  "store cell c H = H\<lparr>cells := (cells H)[cell := c]\<rparr>"

text \<open>\<open>Semaphore::new\<close> panics above \<open>Semaphore::MAX_PERMITS\<close>, which is \<open>usize::MAX >> 3\<close>.\<close>

definition max_permits :: nat where
  "max_permits = 2 ^ 61 - 1"

definition semaphore_new :: "u64 \<Rightarrow> 'u heap \<Rightarrow> (nat \<times> 'u heap) option" where
  "semaphore_new n H =
     (if max_permits < unat n then None
      else Some (length (sems H), H\<lparr>sems := sems H @ [\<lparr>sem_size = unat n, sem_available = unat n\<rparr>]\<rparr>))"

definition try_acquire :: "nat \<Rightarrow> 'u heap \<Rightarrow> 'u heap option" where
  "try_acquire k H =
     (let sem = sems H ! k
      in if sem_available sem = 0 then None
         else Some (H\<lparr>sems := (sems H)[k := sem\<lparr>sem_available := sem_available sem - 1\<rparr>]\<rparr>))"

definition release :: "nat \<Rightarrow> 'u heap \<Rightarrow> 'u heap" where
  "release k H = H\<lparr>sems := (sems H)[k := (sems H ! k)\<lparr>sem_available := sem_available (sems H ! k) + 1\<rparr>]\<rparr>"

section \<open>The proxy object\<close>

record proxy_obj =
  px_config :: nat
  px_max_concurrency :: u64
  px_semaphore :: nat

text \<open>\<open>usize\<close> is 64 bits wide; the product wraps around.\<close>

definition initial_concurrency :: "string option \<Rightarrow> u64 \<Rightarrow> u64" where
  "initial_concurrency var num_cpus = unwrap_or (num_cpus * 256) (Option.bind var parse_u64)"

definition proxy_from_shared ::
  "string option \<Rightarrow> u64 \<Rightarrow> nat \<Rightarrow> 'u heap \<Rightarrow> (proxy_obj \<times> 'u heap) option" where
  "proxy_from_shared var num_cpus cell H =
     (let max_concurrency = initial_concurrency var num_cpus
      in map_option (\<lambda>(k, H'). (\<lparr>px_config = cell, px_max_concurrency = max_concurrency, px_semaphore = k\<rparr>, H'))
           (semaphore_new max_concurrency H))"

definition proxy_new ::
  "string option \<Rightarrow> u64 \<Rightarrow> 'u config \<Rightarrow> 'u heap \<Rightarrow> (proxy_obj \<times> 'u heap) option" where
  "proxy_new var num_cpus c H =
     (let max_concurrency = initial_concurrency var num_cpus
      in map_option (\<lambda>(k, H1).
             let (cell, H2) = arc_swap_new c H1
             in (\<lparr>px_config = cell, px_max_concurrency = max_concurrency, px_semaphore = k\<rparr>, H2))
           (semaphore_new max_concurrency H))"

definition shared_config :: "proxy_obj \<Rightarrow> nat" where
  "shared_config p = px_config p"

definition config_snapshot :: "proxy_obj \<Rightarrow> 'u heap \<Rightarrow> 'u config" where
  "config_snapshot p H = load_full H (px_config p)"

definition get_max_concurrency :: "proxy_obj \<Rightarrow> u64" where
  "get_max_concurrency p = px_max_concurrency p"

definition set_max_concurrency :: "u64 \<Rightarrow> proxy_obj \<Rightarrow> 'u heap \<Rightarrow> (proxy_obj \<times> 'u heap) option" where
  "set_max_concurrency n p H =
     map_option (\<lambda>(k, H'). (p\<lparr>px_max_concurrency := n, px_semaphore := k\<rparr>, H')) (semaphore_new n H)"

definition update_config :: "'u config \<Rightarrow> proxy_obj \<Rightarrow> 'u heap \<Rightarrow> 'u heap" where
  "update_config c p H = store (px_config p) c H"

section \<open>Listeners\<close>

text \<open>A serving listener holds the cell and the semaphore of the proxy object that started it.\<close>

datatype ('c, 's) listener =
    HttpListener socket_addr nat nat
  | TlsListener socket_addr "('c, 's) sni_cert_resolver" nat nat
  | RedirectListener socket_addr u16

datatype start_error =
    InvalidAddress
  | Unresolvable string
  | MixedTls socket_addr
  | AcceptorError io_error

definition site_addr_matches :: "string \<Rightarrow> socket_addr \<Rightarrow> bool" where
  "site_addr_matches site_address listen_addr =
     (let (host_str, port_str) = (case rsplit_once (CHR '':'') site_address of
                                    Some (h, p) \<Rightarrow> (h, p) | None \<Rightarrow> ([], site_address))
      in case parse_u16 port_str of
           None \<Rightarrow> False
         | Some site_port \<Rightarrow>
             if site_port \<noteq> sa_port listen_addr then False
             else if host_str = [] \<or> host_str = ''0.0.0.0'' \<or> host_str = ''::'' then True
             else if host_str = ''localhost'' then V4 127 0 0 1 = sa_ip listen_addr
             else (case parse_ip_addr host_str of
                     Some ip \<Rightarrow> ip = sa_ip listen_addr
                   | None \<Rightarrow> True))"

definition tls_entries :: "'u site_config list \<Rightarrow> (string \<times> tls_config) list" where
  "tls_entries ss =
     List.map_filter (\<lambda>s. map_option (\<lambda>t. (extract_hostname (address s), t)) (tls s)) ss"

definition start_http :: "proxy_obj \<Rightarrow> socket_addr \<Rightarrow> ('c, 's) listener" where
  "start_http p addr = HttpListener addr (px_config p) (px_semaphore p)"

definition start_tls ::
  "('c, 'k, 's) tls_lib \<Rightarrow> proxy_obj \<Rightarrow> socket_addr \<Rightarrow> (string \<times> tls_config) list
     \<Rightarrow> start_error + ('c, 's) listener" where
  "start_tls T p addr tls_sites =
     res_bind (map_err AcceptorError (build_tls_acceptor T tls_sites None))
       (\<lambda>R. Inr (TlsListener addr R (px_config p) (px_semaphore p)))"

definition start_with_addr ::
  "('c, 'k, 's) tls_lib \<Rightarrow> proxy_obj \<Rightarrow> 'u heap \<Rightarrow> socket_addr \<Rightarrow> start_error + ('c, 's) listener" where
  "start_with_addr T p H addr =
     (let config_snapshot = load_full H (px_config p);
          tls_sites = tls_entries (filter (\<lambda>s. site_addr_matches (address s) addr \<and> tls s \<noteq> None)
            (sites_values config_snapshot))
      in if tls_sites \<noteq> [] then start_tls T p addr tls_sites else Inr (start_http p addr))"

definition start ::
  "('c, 'k, 's) tls_lib \<Rightarrow> proxy_obj \<Rightarrow> 'u heap \<Rightarrow> string \<Rightarrow> start_error + ('c, 's) listener" where
  "start T p H addr =
     (case parse_socket_addr addr of
        None \<Rightarrow> Inl InvalidAddress
      | Some a \<Rightarrow> start_with_addr T p H a)"

section \<open>Starting every listener of a configuration\<close>

type_synonym 'u socket_groups = "(socket_addr \<times> 'u site_config list) list"

definition push_site :: "socket_addr \<Rightarrow> 'u site_config \<Rightarrow> 'u socket_groups \<Rightarrow> 'u socket_groups" where
  "push_site a s g = AList.update a (unwrap_or [] (map_of g a) @ [s]) g"

fun group_sites :: "'u site_config list \<Rightarrow> 'u socket_groups \<Rightarrow> string + 'u socket_groups" where
  "group_sites [] g = Inr g"
| "group_sites (s # ss) g = res_bind (resolve_listen_addr (address s)) (\<lambda>a. group_sites ss (push_site a s g))"

text \<open>
  The loop over the groups: the listeners spawned, the redirects to start, and the outcome. A
  listener that was spawned keeps running when a later group fails.
\<close>

fun start_groups ::
  "('c, 'k, 's) tls_lib \<Rightarrow> proxy_obj \<Rightarrow> 'u socket_groups
     \<Rightarrow> ('c, 's) listener list \<times> (socket_addr \<times> u16) list \<times> (start_error + unit)" where
  "start_groups T p [] = ([], [], Inr ())"
| "start_groups T p ((a, ss) # g) =
     (let tls_sites = filter (\<lambda>s. tls s \<noteq> None) ss;
          has_tls = (tls_sites \<noteq> []);
          has_plain = (length tls_sites \<noteq> length ss)
      in if has_tls \<and> has_plain then ([], [], Inl (MixedTls a))
         else if has_tls then
           (case start_tls T p a (tls_entries tls_sites) of
              Inl e \<Rightarrow> ([], [], Inl e)
            | Inr l \<Rightarrow>
                (let (ls, rs, res) = start_groups T p g
                 in (l # ls, List.insert (socket_addr_new (sa_ip a) (tls_redirect_port (sa_port a)), sa_port a) rs, res)))
         else
           (let (ls, rs, res) = start_groups T p g in (start_http p a # ls, rs, res)))"

text \<open>\<open>order\<close> is the order in which the map of groups is iterated.\<close>

definition start_all ::
  "('c, 'k, 's) tls_lib \<Rightarrow> ('u socket_groups \<Rightarrow> 'u socket_groups) \<Rightarrow> proxy_obj \<Rightarrow> 'u heap
     \<Rightarrow> ('c, 's) listener list \<times> (start_error + unit)" where
  "start_all T order p H =
     (case group_sites (sites_values (load_full H (px_config p))) [] of
        Inl e \<Rightarrow> ([], Inl (Unresolvable e))
      | Inr g \<Rightarrow>
          (let (ls, rs, res) = start_groups T p (order g)
           in (case res of
                 Inl e \<Rightarrow> (ls, Inl e)
               | Inr _ \<Rightarrow> (ls @ map (\<lambda>(a, tls_port). RedirectListener a tls_port) rs, Inr ()))))"

section \<open>Binding the sockets\<close>

fun listener_addr :: "('c, 's) listener \<Rightarrow> socket_addr" where
  "listener_addr (HttpListener a cell k) = a"
| "listener_addr (TlsListener a R cell k) = a"
| "listener_addr (RedirectListener a tls_port) = a"

text \<open>
  The listeners that \<open>start_all\<close> returns are tasks that were spawned. Each binds its socket when it is
  first scheduled, in any order; \<open>os bound a\<close> says whether the operating system lets it bind \<open>a\<close>
  while the addresses \<open>bound\<close> are in use. A refused bind is logged and ends that task only.
\<close>

fun bind_all ::
  "(socket_addr list \<Rightarrow> socket_addr \<Rightarrow> bool) \<Rightarrow> ('c, 's) listener list \<Rightarrow> ('c, 's) listener list \<Rightarrow> ('c, 's) listener list" where
  "bind_all os up [] = up"
| "bind_all os up (l # ls) =
     bind_all os (if os (map listener_addr up) (listener_addr l) then up @ [l] else up) ls"

lemma bind_all_set: "set up \<subseteq> set (bind_all os up ls) \<and> set (bind_all os up ls) \<subseteq> set up \<union> set ls"
proof (induction ls arbitrary: up)
  case (Cons l ls)
  then show ?case using Cons.IH [of "up @ [l]"] Cons.IH [of up] by auto
qed simp

lemma bind_all_distinct:
  "(\<And>b a. os b a \<Longrightarrow> a \<notin> set b) \<Longrightarrow> distinct (map listener_addr up) \<Longrightarrow> distinct (map listener_addr (bind_all os up ls))"
proof (induction ls arbitrary: up)
  case (Cons l ls)
  show ?case
  proof (cases "os (map listener_addr up) (listener_addr l)")
    case True
    then have "distinct (map listener_addr (up @ [l]))" using Cons.prems(1) [OF True] Cons.prems(2) by auto
    with Cons.IH [OF Cons.prems(1), of "up @ [l]"] True show ?thesis by simp
  qed (use Cons in simp)
qed simp

lemma bind_all_or_refused:
  "l \<in> set ls \<Longrightarrow> l \<in> set (bind_all os up ls) \<or>
     (\<exists>b. set b \<subseteq> listener_addr ` set (bind_all os up ls) \<and> \<not> os b (listener_addr l))"
proof (induction ls arbitrary: up)
  case (Cons x ls)
  let ?up = "if os (map listener_addr up) (listener_addr x) then up @ [x] else up"
  have sub: "set up \<subseteq> set (bind_all os ?up ls)" "set ?up \<subseteq> set (bind_all os ?up ls)"
    using bind_all_set [of ?up os ls] by (auto split: if_splits)
  show ?case
  proof (cases "l = x")
    case True
    then show ?thesis
      using sub by (cases "os (map listener_addr up) (listener_addr x)") (auto 4 3 intro!: exI [of _ "map listener_addr up"])
  next
    case False
    then show ?thesis using Cons.IH [of ?up] Cons.prems by simp
  qed
qed simp

section \<open>The interfaces of the shared objects\<close>

text \<open>A store of cells: what was put into a cell is read from it, other cells are not affected.\<close>

locale cell_store =
  fixes read :: "'h \<Rightarrow> nat \<Rightarrow> 'v" and put :: "nat \<Rightarrow> 'v \<Rightarrow> 'h \<Rightarrow> 'h" and room :: "'h \<Rightarrow> nat"
  assumes read_put: "a < room h \<Longrightarrow> read (put a v h) b = (if b = a then v else read h b)"
    and room_put: "room (put a v h) = room h"
    and put_read: "put a (read h a) h = h"
    and put_outside: "room h \<le> a \<Longrightarrow> put a v h = h"
begin

lemma all_put:
  assumes "\<forall>b < room h. P (read h b)" "P v"
  shows "\<forall>b < room (put a v h). P (read (put a v h) b)"
  using assms put_outside [of h a v] by (cases "a < room h") (auto simp: read_put room_put)

end

interpretation cell: cell_store load_full store "\<lambda>H. length (cells H)"
  by unfold_locales (auto simp: load_full_def store_def nth_list_update list_update_beyond)

text \<open>
  A pool of semaphores: a permit can be taken exactly while one is available; taking one and giving
  one back change one counter by one, and nothing changes the size of a semaphore.
\<close>

locale permit_pool =
  fixes available :: "'h \<Rightarrow> nat \<Rightarrow> nat" and capacity :: "'h \<Rightarrow> nat \<Rightarrow> nat" and pool :: "'h \<Rightarrow> nat"
    and acquire :: "nat \<Rightarrow> 'h \<Rightarrow> 'h option" and give_back :: "nat \<Rightarrow> 'h \<Rightarrow> 'h"
  assumes acquire_None: "acquire k h = None \<longleftrightarrow> available h k = 0"
    and acquire_Some: "acquire k h = Some h' \<Longrightarrow> k < pool h \<Longrightarrow>
      pool h' = pool h \<and> capacity h' = capacity h \<and> available h = (available h')(k := Suc (available h' k))"
    and give_back: "k < pool h \<Longrightarrow>
      pool (give_back k h) = pool h \<and> capacity (give_back k h) = capacity h \<and>
      available (give_back k h) = (available h)(k := Suc (available h k))"
begin

lemma balance_acquire:
  assumes "\<forall>k < pool h. available h k + held k = capacity h k" "acquire i h = Some h'" "i < pool h"
  shows "\<forall>k < pool h'. available h' k + (held k + (if i = k then 1 else 0)) = capacity h' k"
proof (intro allI impI)
  fix k assume "k < pool h'"
  with acquire_Some [OF assms(2,3)] assms(1) have "available h k + held k = capacity h k" by simp
  with acquire_Some [OF assms(2,3)] show "available h' k + (held k + (if i = k then 1 else 0)) = capacity h' k"
    by (auto split: if_splits)
qed

lemma balance_give_back:
  assumes "\<forall>k < pool h. available h k + held k = capacity h k" "i < pool h"
    and "\<And>k. held k = rest k + (if i = k then 1 else 0)"
  shows "\<forall>k < pool (give_back i h). available (give_back i h) k + rest k = capacity (give_back i h) k"
  using assms(1,3) give_back [OF assms(2)] by auto

lemma acquire_iff:
  assumes "available h k + held = capacity h k"
  shows "acquire k h \<noteq> None \<longleftrightarrow> held < capacity h k"
  using assms acquire_None [of k h] by auto

end

interpretation permits: permit_pool "\<lambda>H k. sem_available (sems H ! k)" "\<lambda>H k. sem_size (sems H ! k)"
    "\<lambda>H. length (sems H)" try_acquire release
  by unfold_locales (auto simp: try_acquire_def release_def Let_def fun_eq_iff nth_list_update split: if_splits)

section \<open>Semaphores\<close>

lemma semaphore_new_SomeD:
  "semaphore_new n H = Some (k, H') \<Longrightarrow> k = length (sems H) \<and> cells H' = cells H
     \<and> sems H' = sems H @ [\<lparr>sem_size = unat n, sem_available = unat n\<rparr>] \<and> unat n \<le> max_permits"
  by (auto simp: semaphore_new_def split: if_splits)

section \<open>Grouping\<close>

text \<open>The sites of a configuration on one socket.\<close>

definition on_socket :: "socket_addr \<Rightarrow> 'u site_config list \<Rightarrow> 'u site_config list" where
  "on_socket a ss = filter (\<lambda>s. site_socket s = Inr a) ss"

definition nonempty :: "'a list \<Rightarrow> 'a list option" where
  "nonempty xs = (if xs = [] then None else Some xs)"

lemma on_socket_snoc: "on_socket a (ss @ [s]) = on_socket a ss @ (if site_socket s = Inr a then [s] else [])"
  by (simp add: on_socket_def)

lemma group_sites_step:
  assumes "group_sites ss g = Inr g'" "\<forall>a. map_of g a = nonempty (on_socket a seen)" "distinct (map fst g)"
  shows "(\<forall>a. map_of g' a = nonempty (on_socket a (seen @ ss))) \<and> distinct (map fst g')"
  using assms
proof (induction ss arbitrary: g seen)
  case (Cons s ss)
  obtain a where a: "site_socket s = Inr a" and r: "group_sites ss (push_site a s g) = Inr g'"
    using Cons.prems(1) by (auto simp: site_socket_def elim: res_bind_InrD)
  have "\<forall>b. map_of (push_site a s g) b = nonempty (on_socket b (seen @ [s]))"
    using Cons.prems(2) a by (auto simp: push_site_def AList.update_conv' on_socket_snoc nonempty_def)
  moreover have "distinct (map fst (push_site a s g))"
    using Cons.prems(3) by (simp add: push_site_def AList.distinct_update)
  ultimately show ?case using Cons.IH [OF r, of "seen @ [s]"] by simp
qed simp

lemma group_sites_groups:
  assumes "group_sites ss [] = Inr g"
  shows "distinct (map fst g)" and "(a, xs) \<in> set g \<longleftrightarrow> xs = on_socket a ss \<and> xs \<noteq> []"
proof -
  note step = group_sites_step [OF assms, of "[]"]
  show d: "distinct (map fst g)" using step by (simp add: on_socket_def nonempty_def)
  show "(a, xs) \<in> set g \<longleftrightarrow> xs = on_socket a ss \<and> xs \<noteq> []"
    using step map_of_eq_Some_iff [OF d, of a xs]
    by (auto simp: on_socket_def nonempty_def split: if_splits)
qed

lemma group_sites_ok: "is_ok (group_sites ss g) \<longleftrightarrow> list_all (\<lambda>s. is_ok (site_socket s)) ss"
proof (induction ss arbitrary: g)
  case (Cons s ss)
  then show ?case by (cases "resolve_listen_addr (address s)") (auto simp: site_socket_def)
qed simp

lemma group_keys:
  assumes "group_sites ss [] = Inr g" "list_all (\<lambda>s. is_ok (site_socket s)) ss"
  shows "Inr ` fst ` set g = site_socket ` set ss"
proof -
  note groups = group_sites_groups(2) [OF assms(1)]
  have "a \<in> fst ` set g \<longleftrightarrow> Inr a \<in> site_socket ` set ss" for a
  proof
    assume "a \<in> fst ` set g"
    then have "on_socket a ss \<noteq> []" using groups by force
    then show "Inr a \<in> site_socket ` set ss" by (force simp: on_socket_def filter_empty_conv)
  next
    assume "Inr a \<in> site_socket ` set ss"
    then have "on_socket a ss \<noteq> []" by (force simp: on_socket_def filter_empty_conv)
    then show "a \<in> fst ` set g" using groups [of a "on_socket a ss"] by force
  qed
  moreover have "\<forall>s \<in> set ss. \<exists>a. site_socket s = Inr a" using assms(2) by (auto simp: list_all_iff is_ok_iff)
  ultimately have "x \<in> Inr ` fst ` set g \<longleftrightarrow> x \<in> site_socket ` set ss" for x by (cases x) auto
  then show ?thesis by blast
qed

section \<open>What the groups start\<close>

text \<open>The listener of one group: plain when every site is plain, TLS when every site is TLS.\<close>

inductive group_listener ::
  "('c, 'k, 's) tls_lib \<Rightarrow> proxy_obj \<Rightarrow> socket_addr \<Rightarrow> 'u site_config list \<Rightarrow> ('c, 's) listener \<Rightarrow> bool"
  for T p a ss where
  plain_group: "\<forall>s \<in> set ss. tls s = None \<Longrightarrow> group_listener T p a ss (start_http p a)"
| tls_group: "\<forall>s \<in> set ss. tls s \<noteq> None \<Longrightarrow> ss \<noteq> [] \<Longrightarrow> start_tls T p a (tls_entries ss) = Inr l \<Longrightarrow>
    group_listener T p a ss l"

inductive_simps group_listener_http: "group_listener T p a ss (HttpListener b c k)"

lemma filter_length_all: "length (filter P xs) = length xs \<longleftrightarrow> (\<forall>x \<in> set xs. P x)"
  by (metis filter_True length_filter_less less_irrefl)

lemma start_groups_sound:
  "start_groups T p g = (ls, rs, res) \<Longrightarrow> l \<in> set ls \<Longrightarrow> \<exists>(a, ss) \<in> set g. group_listener T p a ss l"
proof (induction g arbitrary: ls rs res)
  case (Cons x g)
  obtain a ss where x: "x = (a, ss)" by fastforce
  obtain ls' rs' res' where g: "start_groups T p g = (ls', rs', res')" by (metis prod_cases3)
  let ?t = "filter (\<lambda>s. tls s \<noteq> None) ss"
  show ?case
  proof (cases "?t = []")
    case True
    then have "\<forall>s \<in> set ss. tls s = None" by (auto simp: filter_empty_conv)
    from plain_group [OF this, of T p a] show ?thesis
      using True Cons by (auto simp: x g split: if_splits)
  next
    case False
    then have "ss \<noteq> []" by auto
    show ?thesis
    proof (cases "\<forall>s \<in> set ss. tls s \<noteq> None")
      case all: True
      then have "?t = ss" by simp
      then show ?thesis
        using False all Cons tls_group [OF all \<open>ss \<noteq> []\<close>, of T p a]
        by (auto simp: x g Let_def split: sum.splits)
    next
      case False
      then have "length ?t \<noteq> length ss" using filter_length_all [of "\<lambda>s. tls s \<noteq> None" ss] by simp
      then show ?thesis using \<open>?t \<noteq> []\<close> Cons.prems by (simp add: x)
    qed
  qed
qed simp

definition redirect_of :: "socket_addr \<Rightarrow> socket_addr \<times> u16" where
  "redirect_of a = (socket_addr_new (sa_ip a) (tls_redirect_port (sa_port a)), sa_port a)"

lemma start_groups_complete:
  assumes "start_groups T p g = (ls, rs, res)"
    and "\<forall>(a, ss) \<in> set g. ss \<noteq> [] \<and> (\<exists>l. group_listener T p a ss l)"
  shows "res = Inr () \<and> list_all2 (\<lambda>(a, ss). group_listener T p a ss) g ls
    \<and> set rs = {redirect_of a | a ss. (a, ss) \<in> set g \<and> (\<exists>s \<in> set ss. tls s \<noteq> None)}"
  using assms
proof (induction g arbitrary: ls rs res)
  case (Cons x g)
  obtain a ss where x: "x = (a, ss)" by fastforce
  obtain ls' rs' res' where g: "start_groups T p g = (ls', rs', res')" by (metis prod_cases3)
  from Cons.prems(2) obtain l where l: "group_listener T p a ss l" and ne: "ss \<noteq> []" by (auto simp: x)
  have ih: "res' = Inr ()" "list_all2 (\<lambda>(a, ss). group_listener T p a ss) g ls'"
    "set rs' = {redirect_of a | a ss. (a, ss) \<in> set g \<and> (\<exists>s \<in> set ss. tls s \<noteq> None)}"
    using Cons.IH [OF g] Cons.prems(2) by auto
  from l show ?case
  proof cases
    case plain_group
    then have "filter (\<lambda>s. tls s \<noteq> None) ss = []" by (simp add: filter_empty_conv)
    then have "ls = start_http p a # ls'" "rs = rs'" "res = res'"
      using Cons.prems(1) by (simp_all add: x g)
    then show ?thesis using ih group_listener.plain_group [OF plain_group(2)] plain_group(2) by (auto simp: x)
  next
    case tls_group
    then have "filter (\<lambda>s. tls s \<noteq> None) ss = ss" by simp
    then have "ls = l # ls'" "rs = List.insert (redirect_of a) rs'" "res = res'"
      using Cons.prems(1) tls_group by (simp_all add: x g redirect_of_def)
    moreover have "\<exists>s \<in> set ss. tls s \<noteq> None" using ne tls_group(1) by (cases ss) auto
    ultimately show ?thesis using ih l by (auto simp: x)
  qed
qed simp

lemma start_groups_redirects:
  assumes "start_groups T p g = (ls, rs, res)"
  shows "distinct rs" and "x \<in> set rs \<Longrightarrow> \<exists>(a, ss) \<in> set g. x = redirect_of a \<and> (\<exists>s \<in> set ss. tls s \<noteq> None)"
proof -
  have "distinct rs \<and> (\<forall>x \<in> set rs. \<exists>(a, ss) \<in> set g. x = redirect_of a \<and> (\<exists>s \<in> set ss. tls s \<noteq> None))"
    using assms
  proof (induction g arbitrary: ls rs res)
    case (Cons y g)
    obtain a ss where y: "y = (a, ss)" by fastforce
    obtain ls' rs' res' where g: "start_groups T p g = (ls', rs', res')" by (metis prod_cases3)
    have "rs = [] \<or> rs = rs' \<or> rs = List.insert (redirect_of a) rs' \<and> filter (\<lambda>s. tls s \<noteq> None) ss \<noteq> []"
      using Cons.prems by (auto simp: y g Let_def redirect_of_def split: if_splits sum.splits)
    then show ?case
    proof (elim disjE conjE)
      assume rs: "rs = List.insert (redirect_of a) rs'" and ne: "filter (\<lambda>s. tls s \<noteq> None) ss \<noteq> []"
      have "\<exists>s \<in> set ss. tls s \<noteq> None" using ne by (auto simp: filter_empty_conv)
      with Cons.IH [OF g] rs show ?case by (simp add: y)
    qed (use Cons.IH [OF g] in \<open>simp_all add: y\<close>)
  qed simp
  then show "distinct rs" "x \<in> set rs \<Longrightarrow> \<exists>(a, ss) \<in> set g. x = redirect_of a \<and> (\<exists>s \<in> set ss. tls s \<noteq> None)" by blast+
qed

section \<open>Properties of starting\<close>

text \<open>
  C19. Starting all listeners never serves a TLS site without TLS, whatever the configuration, also
  when starting fails half way. Among the listeners for the socket of a TLS site, none is a
  plain HTTP listener: each is a TLS listener with the certificates of the TLS sites of that socket, or
  the redirect listener of another TLS socket that happens to lead there (a TLS site on port 8080
  beside one on port 8443), which has no configuration and answers with redirects only. A socket with
  TLS and plain sites is refused, not downgraded.
\<close>

theorem start_all_never_downgrades:
  assumes order: "\<And>g. set (order g) = set g"
    and l: "l \<in> set (fst (start_all T order p H))" "listener_addr l = a"
    and s: "s \<in> set (sites_values (load_full H (px_config p)))" "site_socket s = Inr a" "tls s \<noteq> None"
  shows "(\<exists>R. l = TlsListener a R (px_config p) (px_semaphore p)
       \<and> build_tls_acceptor T (tls_entries (on_socket a (sites_values (load_full H (px_config p))))) None = Inr R
       \<and> (\<forall>s' \<in> set (on_socket a (sites_values (load_full H (px_config p)))). tls s' \<noteq> None))
     \<or> (\<exists>b s'. l = RedirectListener a (sa_port b) \<and> a = socket_addr_new (sa_ip b) (tls_redirect_port (sa_port b))
       \<and> s' \<in> set (sites_values (load_full H (px_config p))) \<and> site_socket s' = Inr b \<and> tls s' \<noteq> None)"
proof -
  let ?ss = "sites_values (load_full H (px_config p))"
  obtain g where g: "group_sites ?ss [] = Inr g" using l by (auto simp: start_all_def split: sum.splits)
  note groups = group_sites_groups(2) [OF g]
  obtain ls rs res where st: "start_groups T p (order g) = (ls, rs, res)" by (metis prod_cases3)
  have "l \<in> set ls \<or> (\<exists>(b, q) \<in> set rs. l = RedirectListener b q)"
    using l g st by (auto simp: start_all_def split: sum.splits)
  then show ?thesis
  proof
    assume "l \<in> set ls"
    from start_groups_sound [OF st this] order obtain b xs
      where mem: "(b, xs) \<in> set g" and gl: "group_listener T p b xs l" by auto
    have b: "b = a" using gl l(2) by cases (auto simp: start_http_def start_tls_def res_bind_Inr_iff)
    have xs: "xs = on_socket a ?ss" using mem groups b by blast
    have mem: "s \<in> set (on_socket a ?ss)" using s by (simp add: on_socket_def)
    from gl [unfolded b xs] show ?thesis
    proof cases
      case plain_group
      then show ?thesis using mem s(3) by simp
    next
      case tls_group
      then show ?thesis by (intro disjI1) (auto simp: start_tls_def res_bind_Inr_iff)
    qed
  next
    assume "\<exists>(b, q) \<in> set rs. l = RedirectListener b q"
    then obtain b q where q: "(b, q) \<in> set rs" "l = RedirectListener b q" by blast
    from start_groups_redirects(2) [OF st q(1)] order obtain b' xs
      where mem: "(b', xs) \<in> set g" "(b, q) = redirect_of b'" and "\<exists>s \<in> set xs. tls s \<noteq> None" by auto
    then obtain s' where s': "s' \<in> set xs" "tls s' \<noteq> None" by blast
    have "xs = on_socket b' ?ss" using mem(1) groups by blast
    then have "s' \<in> set ?ss \<and> site_socket s' = Inr b'" using s'(1) by (simp add: on_socket_def)
    then show ?thesis using q(2) l(2) mem(2) s'(2) by (auto simp: redirect_of_def)
  qed
qed

lemma sorted_wrt_image_distinct: "sorted_wrt (\<lambda>x y. f x \<noteq> f y) xs \<Longrightarrow> distinct (map f xs)"
  by (induction xs) auto

lemma tls_entries_all:
  "\<forall>s \<in> set ss. tls s \<noteq> None \<Longrightarrow> tls_entries ss = map (\<lambda>s. (extract_hostname (address s), the (tls s))) ss"
  by (induction ss) (auto simp: tls_entries_def List.map_filter_def)

text \<open>The sites of one socket of a consistent configuration.\<close>

lemma on_socket_uniform:
  assumes "sockets_ok ss"
  shows "(\<forall>s \<in> set (on_socket a ss). tls s = None) \<or>
    (\<forall>s \<in> set (on_socket a ss). tls s \<noteq> None) \<and>
      distinct (map (to_ascii_lowercase \<circ> fst) (tls_entries (on_socket a ss)))"
proof -
  let ?xs = "on_socket a ss"
  let ?R = "\<lambda>s t. (tls s = None) = (tls t = None) \<and> (tls s \<noteq> None \<longrightarrow> site_sni s \<noteq> site_sni t)"
  have "sorted_wrt compatible ?xs" using assms by (simp add: sockets_ok_def on_socket_def sorted_wrt_filter)
  then have R: "sorted_wrt ?R ?xs"
    by (rule sorted_wrt_mono_rel [rotated]) (auto simp: on_socket_def compatible_def)
  then have uni: "(\<forall>s \<in> set ?xs. tls s = None) \<or> (\<forall>s \<in> set ?xs. tls s \<noteq> None)"
    by (cases ?xs) auto
  moreover have "distinct (map (to_ascii_lowercase \<circ> fst) (tls_entries ?xs))" if all: "\<forall>s \<in> set ?xs. tls s \<noteq> None"
  proof -
    have "sorted_wrt (\<lambda>s t. site_sni s \<noteq> site_sni t) ?xs"
      using all by (intro sorted_wrt_mono_rel [OF _ R]) auto
    then have "distinct (map site_sni ?xs)" by (rule sorted_wrt_image_distinct)
    then show ?thesis by (simp add: tls_entries_all [OF all] comp_def site_sni_def [abs_def])
  qed
  ultimately show ?thesis by blast
qed

text \<open>
  A site is answered: its socket has a plain listener, or a TLS listener that shows the site's
  own certificate to clients that name its host. It is served when it is answered and, for a TLS site,
  a redirect listener leads there.
\<close>

definition answers_site ::
  "('c, 'k, 's) tls_lib \<Rightarrow> proxy_obj \<Rightarrow> ('c, 's) listener list \<Rightarrow> 'u site_config \<Rightarrow> bool" where
  "answers_site T p ls s =
     (\<exists>a. site_socket s = Inr a \<and>
       (case tls s of
          None \<Rightarrow> HttpListener a (px_config p) (px_semaphore p) \<in> set ls
        | Some t \<Rightarrow>
            (\<exists>R. TlsListener a R (px_config p) (px_semaphore p) \<in> set ls \<and>
               (\<forall>sni. eq_ignore_ascii_case sni (extract_hostname (address s)) \<longrightarrow>
                  map_option Inr (resolve R (Some sni)) = Some (site_certified_key T (extract_hostname (address s)) t)))))"

definition serves_site ::
  "('c, 'k, 's) tls_lib \<Rightarrow> proxy_obj \<Rightarrow> ('c, 's) listener list \<Rightarrow> 'u site_config \<Rightarrow> bool" where
  "serves_site T p ls s =
     (answers_site T p ls s \<and>
      (tls s \<noteq> None \<longrightarrow> (\<exists>a. site_socket s = Inr a \<and>
         RedirectListener (socket_addr_new (sa_ip a) (tls_redirect_port (sa_port a))) (sa_port a) \<in> set ls)))"

fun serving_socket :: "('c, 's) listener \<Rightarrow> socket_addr option" where
  "serving_socket (HttpListener a _ _) = Some a"
| "serving_socket (TlsListener a _ _ _) = Some a"
| "serving_socket (RedirectListener _ _) = None"

definition serving_sockets :: "('c, 's) listener list \<Rightarrow> socket_addr list" where
  "serving_sockets ls = List.map_filter serving_socket ls"

text \<open>The redirect listeners, as pairs of their own address and the port they lead to.\<close>

fun redirect_target :: "('c, 's) listener \<Rightarrow> (socket_addr \<times> u16) option" where
  "redirect_target (RedirectListener a tls_port) = Some (a, tls_port)"
| "redirect_target _ = None"

definition redirects :: "('c, 's) listener list \<Rightarrow> (socket_addr \<times> u16) list" where
  "redirects ls = List.map_filter redirect_target ls"

lemma map_filter_simps [simp]:
  "List.map_filter f [] = []"
  "List.map_filter f (x # xs) = (case f x of None \<Rightarrow> List.map_filter f xs | Some y \<Rightarrow> y # List.map_filter f xs)"
  "List.map_filter f (xs @ ys) = List.map_filter f xs @ List.map_filter f ys"
  by (simp_all add: List.map_filter_def split: option.split)

lemma map_filter_inj:
  "distinct (List.map_filter f xs) \<Longrightarrow> x \<in> set xs \<Longrightarrow> y \<in> set xs \<Longrightarrow> f x = Some v \<Longrightarrow> f y = Some v \<Longrightarrow> x = y"
proof (induction xs)
  case (Cons z xs)
  have "f w = Some v \<Longrightarrow> w \<in> set xs \<Longrightarrow> v \<in> set (List.map_filter f xs)" for w
    by (force simp: List.map_filter_def)
  with Cons show ?case by (auto split: option.splits)
qed simp

lemma group_listener_socket: "group_listener T p a ss l \<Longrightarrow> serving_socket l = Some a"
  by (cases rule: group_listener.cases) (auto simp: start_http_def start_tls_def res_bind_Inr_iff)

lemma redirect_list [simp]:
  "serving_sockets (map (\<lambda>(a, tls_port). RedirectListener a tls_port) rs) = []"
  "redirects (map (\<lambda>(a, tls_port). RedirectListener a tls_port) rs) = rs"
  by (induction rs) (auto simp: serving_sockets_def redirects_def)

lemma serving_sockets_groups:
  assumes "list_all2 (\<lambda>(a, ss). group_listener T p a ss) g ls"
  shows "serving_sockets (ls @ map (\<lambda>(a, tls_port). RedirectListener a tls_port) rs) = map fst g"
    and "redirects (ls @ map (\<lambda>(a, tls_port). RedirectListener a tls_port) rs) = rs"
proof -
  have "serving_sockets ls = map fst g \<and> redirects ls = []"
    using assms
  proof (induction rule: list_all2_induct)
    case (Cons x xs l ls)
    then obtain a ss where x: "x = (a, ss)" and l: "group_listener T p a ss l" by auto
    from group_listener_socket [OF l] have "serving_socket l = Some a" .
    moreover from this have "redirect_target l = None" by (cases l) auto
    ultimately show ?case using Cons.IH by (simp add: x serving_sockets_def redirects_def)
  qed (simp add: serving_sockets_def redirects_def)
  then show "serving_sockets (ls @ map (\<lambda>(a, tls_port). RedirectListener a tls_port) rs) = map fst g"
    "redirects (ls @ map (\<lambda>(a, tls_port). RedirectListener a tls_port) rs) = rs"
    using redirect_list [of rs] unfolding serving_sockets_def redirects_def map_filter_simps by simp_all
qed

definition certificates_load :: "('c, 'k, 's) tls_lib \<Rightarrow> 'u site_config list \<Rightarrow> bool" where
  "certificates_load T ss = list_all (\<lambda>(h, cfg). is_ok (site_certified_key T h cfg)) (tls_entries ss)"

lemma certificates_load_on_socket: "certificates_load T ss \<Longrightarrow> certificates_load T (on_socket a ss)"
  by (auto simp: certificates_load_def list_all_iff tls_entries_def List.map_filter_def on_socket_def)

lemma group_has_listener:
  assumes "sockets_ok ss" "certificates_load T ss" "on_socket a ss \<noteq> []"
  shows "\<exists>l. group_listener T p a (on_socket a ss) l"
  using on_socket_uniform [OF assms(1), of a]
proof
  assume "\<forall>s \<in> set (on_socket a ss). tls s = None"
  then show ?thesis by (blast intro: plain_group)
next
  assume t: "(\<forall>s \<in> set (on_socket a ss). tls s \<noteq> None) \<and>
      distinct (map (to_ascii_lowercase \<circ> fst) (tls_entries (on_socket a ss)))"
  then have "tls_entries (on_socket a ss) \<noteq> []" using assms(3) by (simp add: tls_entries_all)
  then have "is_ok (build_tls_acceptor T (tls_entries (on_socket a ss)) None)"
    using certificates_load_on_socket [OF assms(2)] by (simp add: build_ok certificates_load_def list_all_iff)
  then obtain l where "start_tls T p a (tls_entries (on_socket a ss)) = Inr l"
    by (auto simp: start_tls_def is_ok_iff)
  with t assms(3) show ?thesis by (blast intro: tls_group)
qed

lemma group_serves:
  assumes ok: "sockets_ok ss" and s: "s \<in> set ss" "site_socket s = Inr a"
    and l: "group_listener T p a (on_socket a ss) l" "l \<in> set ls"
    and r: "tls s \<noteq> None \<Longrightarrow> RedirectListener (socket_addr_new (sa_ip a) (tls_redirect_port (sa_port a))) (sa_port a) \<in> set ls"
  shows "serves_site T p ls s"
proof -
  have mem: "s \<in> set (on_socket a ss)" using s by (simp add: on_socket_def)
  from l(1) show ?thesis
  proof cases
    case plain_group
    then show ?thesis using mem s l(2) by (auto simp: serves_site_def answers_site_def start_http_def)
  next
    case tls_group
    then obtain R t where R: "build_tls_acceptor T (tls_entries (on_socket a ss)) None = Inr R"
      "l = TlsListener a R (px_config p) (px_semaphore p)" and t: "tls s = Some t"
      using mem by (auto simp: start_tls_def res_bind_Inr_iff)
    have "distinct (map (to_ascii_lowercase \<circ> fst) (tls_entries (on_socket a ss)))"
      using on_socket_uniform [OF ok, of a] tls_group(1) mem by auto
    moreover have "(extract_hostname (address s), t) \<in> set (tls_entries (on_socket a ss))"
      using mem t by (force simp: tls_entries_all [OF tls_group(1)])
    ultimately show ?thesis
      using resolve_named [OF R(1)] s l(2) r R(2) t by (fastforce simp: serves_site_def answers_site_def)
  qed
qed

text \<open>
  What is started for the sites \<open>ss\<close>: a listener on each of their sockets, once each, and the
  redirects to their TLS sockets, once each.
\<close>

definition spawned_for ::
  "('c, 'k, 's) tls_lib \<Rightarrow> proxy_obj \<Rightarrow> 'u site_config list \<Rightarrow> ('c, 's) listener list \<Rightarrow> bool" where
  "spawned_for T p ss ls \<longleftrightarrow>
     list_all (serves_site T p ls) ss
     \<and> distinct (serving_sockets ls) \<and> Inr ` set (serving_sockets ls) = site_socket ` set ss
     \<and> distinct (redirects ls)
     \<and> set (redirects ls) = {(socket_addr_new (sa_ip a) (tls_redirect_port (sa_port a)), sa_port a) | a s.
          s \<in> set ss \<and> site_socket s = Inr a \<and> tls s \<noteq> None}"

lemma start_all_spawns:
  assumes order: "\<And>g. mset (order g) = mset g"
    and ss: "ss = sites_values (load_full H (px_config p))"
    and ok: "sockets_ok ss" and certs: "certificates_load T ss"
    and run: "start_all T order p H = (ls, res)"
  shows "res = Inr () \<and> spawned_for T p ss ls"
proof -
  have "is_ok (group_sites ss [])" using ok by (simp add: group_sites_ok sockets_ok_def)
  then obtain g where g: "group_sites ss [] = Inr g" by (auto simp: is_ok_iff)
  note groups = group_sites_groups [OF g]
  have og: "set (order g) = set g" "distinct (map fst (order g))"
    using order [of g] groups(1) by (metis set_mset_mset, metis mset_map mset_eq_imp_distinct_iff)
  obtain ls0 rs res0 where st: "start_groups T p (order g) = (ls0, rs, res0)" by (metis prod_cases3)
  have "\<forall>(a, xs) \<in> set (order g). xs \<noteq> [] \<and> (\<exists>l. group_listener T p a xs l)"
    using groups(2) group_has_listener [OF ok certs] by (auto simp: og)
  note c = start_groups_complete [OF st this]
  have ls: "res = Inr ()" "ls = ls0 @ map (\<lambda>(a, tls_port). RedirectListener a tls_port) rs"
    using run g st c by (auto simp: start_all_def ss)
  note sock = serving_sockets_groups [OF c [THEN conjunct2, THEN conjunct1], of rs, folded ls(2)]
  have rs: "set rs = {redirect_of a | a s. s \<in> set ss \<and> site_socket s = Inr a \<and> tls s \<noteq> None}"
  proof -
    have "set rs = {redirect_of a | a xs. (a, xs) \<in> set g \<and> (\<exists>s \<in> set xs. tls s \<noteq> None)}" using c og(1) by simp
    also have "\<dots> = {redirect_of a | a s. s \<in> set ss \<and> site_socket s = Inr a \<and> tls s \<noteq> None}"
      using groups(2) by (fastforce simp: on_socket_def filter_empty_conv)
    finally show ?thesis .
  qed
  have "serves_site T p ls s" if s: "s \<in> set ss" for s
  proof -
    obtain a where a: "site_socket s = Inr a" using ok s by (auto simp: sockets_ok_def list_all_iff is_ok_iff)
    then have "s \<in> set (on_socket a ss)" using s by (simp add: on_socket_def)
    then have mem: "(a, on_socket a ss) \<in> set (order g)" using groups(2) og(1) by auto
    then obtain l where "l \<in> set ls0" "group_listener T p a (on_socket a ss) l"
      using c by (fastforce simp: list_all2_conv_all_nth in_set_conv_nth)
    moreover have "RedirectListener (socket_addr_new (sa_ip a) (tls_redirect_port (sa_port a))) (sa_port a) \<in> set ls" if "tls s \<noteq> None"
    proof -
      have "redirect_of a \<in> set rs" using rs s a that by auto
      then show ?thesis by (force simp: ls(2) redirect_of_def)
    qed
    ultimately show ?thesis using group_serves [OF ok s a, of T p l ls] ls(2) by simp
  qed
  moreover have "Inr ` set (serving_sockets ls) = site_socket ` set ss"
    using group_keys [OF g] ok by (simp add: sock og(1) sockets_ok_def)
  ultimately show ?thesis
    using ls(1) sock og(2) start_groups_redirects(1) [OF st] rs
    by (simp add: spawned_for_def list_all_iff redirect_of_def)
qed

text \<open>
  What comes up of the listeners \<open>ls\<close> that were started for the sites \<open>ss\<close>: some of them, on different
  addresses, and every site is answered unless its socket was refused. If the operating system refuses
  only addresses in use, every site is answered whose socket is not also the address of a redirect, and
  everything comes up when no two of the addresses coincide.
\<close>

definition comes_up ::
  "('c, 'k, 's) tls_lib \<Rightarrow> (socket_addr list \<Rightarrow> socket_addr \<Rightarrow> bool) \<Rightarrow> proxy_obj \<Rightarrow> 'u site_config list
     \<Rightarrow> ('c, 's) listener list \<Rightarrow> ('c, 's) listener list \<Rightarrow> bool" where
  "comes_up T os p ss ls up \<longleftrightarrow>
     set up \<subseteq> set ls \<and> distinct (map listener_addr up)
     \<and> (\<forall>s \<in> set ss. answers_site T p up s \<or>
          (\<exists>a b. site_socket s = Inr a \<and> set b \<subseteq> listener_addr ` set up \<and> \<not> os b a))
     \<and> ((\<forall>b a. a \<notin> set b \<longrightarrow> os b a) \<longrightarrow>
          (\<forall>s \<in> set ss. site_socket s \<notin> Inr ` fst ` set (redirects ls) \<longrightarrow> answers_site T p up s)
          \<and> (distinct (map listener_addr ls) \<longrightarrow> set up = set ls \<and> list_all (serves_site T p up) ss))"

lemma answers_site_listener:
  assumes "answers_site T p ls s" "site_socket s = Inr a"
  obtains l where "l \<in> set ls" "serving_socket l = Some a" "\<And>up. l \<in> set up \<Longrightarrow> answers_site T p up s"
proof (cases "tls s")
  case None
  then show ?thesis using assms that [of "HttpListener a (px_config p) (px_semaphore p)"] by (auto simp: answers_site_def)
next
  case (Some t)
  then obtain R where "TlsListener a R (px_config p) (px_semaphore p) \<in> set ls"
    "\<forall>sni. eq_ignore_ascii_case sni (extract_hostname (address s)) \<longrightarrow>
       map_option Inr (resolve R (Some sni)) = Some (site_certified_key T (extract_hostname (address s)) t)"
    using assms by (auto simp: answers_site_def)
  then show ?thesis
    using Some assms(2) that [of "TlsListener a R (px_config p) (px_semaphore p)"] by (auto simp: answers_site_def)
qed

lemma serves_site_cong: "set ls = set ls' \<Longrightarrow> serves_site T p ls s = serves_site T p ls' s"
  by (cases "tls s") (simp_all add: serves_site_def answers_site_def)

lemma serving_addr: "serving_socket l = Some a \<Longrightarrow> listener_addr l = a"
  by (cases l) auto

lemma listener_kinds: "serving_socket l = Some (listener_addr l) \<or> (\<exists>q. redirect_target l = Some (listener_addr l, q))"
  by (cases l) auto

lemma redirects_mem: "l \<in> set ls \<Longrightarrow> redirect_target l = Some x \<Longrightarrow> x \<in> set (redirects ls)"
  by (force simp: redirects_def List.map_filter_def)

lemma spawned_come_up:
  assumes sp: "spawned_for T p ss ls" and taken: "\<And>b a. os b a \<Longrightarrow> a \<notin> set b" and sched: "mset sched = mset ls"
  shows "comes_up T os p ss ls (bind_all os [] sched)"
proof -
  let ?up = "bind_all os [] sched"
  have set: "set sched = set ls" using sched by (metis set_mset_mset)
  have sub: "set ?up \<subseteq> set ls" using bind_all_set [of "[]" os sched] set by auto
  have d: "distinct (map listener_addr ?up)" using bind_all_distinct [where os = os and up = "[]", OF taken] by simp
  have refused: "l \<in> set ?up \<or> (\<exists>b. set b \<subseteq> listener_addr ` set ?up \<and> \<not> os b (listener_addr l))" if "l \<in> set ls" for l
    using bind_all_or_refused [of l sched os "[]"] that set by simp
  have clash: "l \<in> set ?up \<or> (\<exists>l' \<in> set ?up. listener_addr l' = listener_addr l)"
    if "l \<in> set ls" "\<forall>b a. a \<notin> set b \<longrightarrow> os b a" for l
    using refused [OF that(1)] that(2) by fastforce
  have site: "answers_site T p ?up s \<or> (\<exists>a b. site_socket s = Inr a \<and> set b \<subseteq> listener_addr ` set ?up \<and> \<not> os b a)"
    "(\<forall>b a. a \<notin> set b \<longrightarrow> os b a) \<Longrightarrow> site_socket s \<notin> Inr ` fst ` set (redirects ls) \<Longrightarrow> answers_site T p ?up s"
    if s: "s \<in> set ss" for s
  proof -
    have as: "answers_site T p ls s" using sp s by (auto simp: spawned_for_def serves_site_def list_all_iff)
    then obtain a where a: "site_socket s = Inr a" by (auto simp: answers_site_def)
    from answers_site_listener [OF as a] obtain l where l: "l \<in> set ls" "serving_socket l = Some a"
      "\<And>up. l \<in> set up \<Longrightarrow> answers_site T p up s" by blast
    note la = serving_addr [OF l(2)]
    show "answers_site T p ?up s \<or> (\<exists>a b. site_socket s = Inr a \<and> set b \<subseteq> listener_addr ` set ?up \<and> \<not> os b a)"
      using refused [OF l(1)] l(3) la a by blast
    assume free: "\<forall>b a. a \<notin> set b \<longrightarrow> os b a" and no: "site_socket s \<notin> Inr ` fst ` set (redirects ls)"
    have "l' = l" if "l' \<in> set ?up" "listener_addr l' = a" for l'
    proof -
      have l': "l' \<in> set ls" using sub that(1) by blast
      have "serving_socket l' = Some a"
        using listener_kinds [of l'] redirects_mem [OF l'] that(2) no a by force
      moreover have "distinct (List.map_filter serving_socket ls)"
        using sp by (simp add: spawned_for_def serving_sockets_def)
      ultimately show ?thesis using map_filter_inj l' l(1,2) by metis
    qed
    with clash [OF l(1) free] la show "answers_site T p ?up s" using l(3) by blast
  qed
  have all: "set ?up = set ls \<and> list_all (serves_site T p ?up) ss"
    if free: "\<forall>b a. a \<notin> set b \<longrightarrow> os b a" and distinct: "distinct (map listener_addr ls)"
  proof -
    have "l \<in> set ?up" if "l \<in> set ls" for l
      using clash [OF that free] sub distinct that by (auto simp: distinct_map dest: inj_onD)
    then have "set ?up = set ls" using sub by blast
    then have eq: "set ?up = set ls" .
    have "list_all (serves_site T p ?up) ss = list_all (serves_site T p ls) ss"
      by (simp add: list_all_iff serves_site_cong [OF eq])
    with eq show ?thesis using sp \<open>set ?up = set ls\<close> by (simp add: spawned_for_def)
  qed
  show ?thesis unfolding comes_up_def using sub d site all by blast
qed

text \<open>
  C36. For a configuration with consistent listen sockets whose certificates load, starting all
  listeners succeeds, whatever the iteration order of the map of sockets. It spawns exactly one
  serving listener for each socket of the sites, TLS sites with their own certificate, and exactly one
  redirect for each TLS socket, and nothing else. Then the listeners bind their sockets, in any order
  \<open>sched\<close> and under any operating system that never grants an address in use: no two of those that
  come up share an address, a site goes unanswered only if its own socket was refused, and if nothing
  but addresses in use is refused, every site is answered whose socket is not also the address of a
  redirect; everything comes up when the addresses differ.
\<close>

theorem start_all_serves_every_site:
  assumes order: "\<And>g. mset (order g) = mset g"
    and ss: "ss = sites_values (load_full H (px_config p))"
    and ok: "sockets_ok ss" and certs: "certificates_load T ss"
    and run: "start_all T order p H = (ls, res)"
    and taken: "\<And>b a. os b a \<Longrightarrow> a \<notin> set b" and sched: "mset sched = mset ls"
  shows "res = Inr () \<and> list_all (serves_site T p ls) ss
    \<and> distinct (serving_sockets ls) \<and> Inr ` set (serving_sockets ls) = site_socket ` set ss
    \<and> distinct (redirects ls)
    \<and> set (redirects ls) = {(socket_addr_new (sa_ip a) (tls_redirect_port (sa_port a)), sa_port a) | a s.
          s \<in> set ss \<and> site_socket s = Inr a \<and> tls s \<noteq> None}
    \<and> comes_up T os p ss ls (bind_all os [] sched)"
proof -
  note sp = start_all_spawns [OF order ss ok certs run]
  have "comes_up T os p ss ls (bind_all os [] sched)" by (rule spawned_come_up [OF conjunct2 [OF sp] taken sched])
  then show ?thesis using sp unfolding spawned_for_def by blast
qed

text \<open>A proxy with a plain site and two TLS sites on one socket.\<close>

definition sample_listeners :: "ref_uri config" where
  "sample_listeners =
     \<lparr>sites = map (\<lambda>(a, t). (a, \<lparr>address = a, directives = [Respond 200 a], tls = t\<rparr>))
       [(''127.0.0.1:80'', None), (''a.test:443'', Some (sample_tls ''a'')), (''b.test:443'', Some (sample_tls ''b''))]\<rparr>"

definition sample_heap :: "ref_uri heap" where
  "sample_heap = \<lparr>cells = [sample_listeners], sems = [\<lparr>sem_size = 2, sem_available = 2\<rparr>]\<rparr>"

definition sample_proxy :: proxy_obj where
  "sample_proxy = \<lparr>px_config = 0, px_max_concurrency = 2, px_semaphore = 0\<rparr>"

lemma sample_sites:
  "sites_values (load_full sample_heap (px_config sample_proxy)) = sites_values sample_listeners"
  by (simp add: load_full_def sample_heap_def sample_proxy_def)

lemma sample_sockets:
  "resolve_listen_addr ''127.0.0.1:80'' = Inr (socket_addr_new (V4 127 0 0 1) 80)"
  "resolve_listen_addr ''a.test:443'' = Inr (socket_addr_new (V4 0 0 0 0) 443)"
  "resolve_listen_addr ''b.test:443'' = Inr (socket_addr_new (V4 0 0 0 0) 443)"
  by (simp_all add: address_eval)

lemma sample_listeners_ok: "sockets_ok (sites_values sample_listeners)" "certificates_load ref_tls (sites_values sample_listeners)"
proof -
  have "extract_hostname ''a.test:443'' = ''a.test''" "extract_hostname ''b.test:443'' = ''b.test''"
    "to_ascii_lowercase ''a.test'' = ''a.test''" "to_ascii_lowercase ''b.test'' = ''b.test''" by code_simp+
  then show "sockets_ok (sites_values sample_listeners)"
    by (simp add: sockets_ok_def sites_values_def sample_listeners_def site_socket_def compatible_def site_sni_def
        sample_sockets socket_addr_new_def)
qed code_simp

text \<open>An operating system that refuses the addresses in use, and nothing else.\<close>

definition free_os :: "socket_addr list \<Rightarrow> socket_addr \<Rightarrow> bool" where
  "free_os bound a = (a \<notin> set bound)"

lemma distinct_singleton_set: "distinct xs \<Longrightarrow> set xs = {x} \<Longrightarrow> xs = [x]"
  by (cases xs; cases "tl xs") auto

theorem start_all_serves_every_site_witness:
  "\<exists>ls. start_all ref_tls id sample_proxy sample_heap = (ls, Inr ()) \<and>
     list_all (serves_site ref_tls sample_proxy ls) (sites_values sample_listeners)
     \<and> redirects ls = [(socket_addr_new (V4 0 0 0 0) 80, 443)]
     \<and> list_all (answers_site ref_tls sample_proxy (bind_all free_os [] (rev ls))) (sites_values sample_listeners)"
proof -
  obtain ls res where r: "start_all ref_tls id sample_proxy sample_heap = (ls, res)" by fastforce
  have "sites_values sample_listeners = sites_values (load_full sample_heap (px_config sample_proxy))" by (rule sample_sites [symmetric])
  from start_all_serves_every_site [OF _ this sample_listeners_ok r, where os = free_os and sched = "rev ls"]
  have c: "res = Inr ()" "list_all (serves_site ref_tls sample_proxy ls) (sites_values sample_listeners)" "distinct (redirects ls)"
    "set (redirects ls) = {(socket_addr_new (sa_ip a) (tls_redirect_port (sa_port a)), sa_port a) | a s.
          s \<in> set (sites_values sample_listeners) \<and> site_socket s = Inr a \<and> tls s \<noteq> None}"
    "comes_up ref_tls free_os sample_proxy (sites_values sample_listeners) ls (bind_all free_os [] (rev ls))"
    by (simp_all add: free_os_def)
  let ?b = "socket_addr_new (V4 0 0 0 0) 443" and ?s = "sites_values sample_listeners ! 1"
  have port: "tls_redirect_port 443 = 80" by (simp add: tls_redirect_port_def saturating_sub_def saturating_add_def)
  have only: "a = ?b" if "s \<in> set (sites_values sample_listeners)" "site_socket s = Inr a" "tls s \<noteq> None" for a s
  proof -
    have "list_all (\<lambda>s. tls s = None \<or> site_socket s = Inr ?b) (sites_values sample_listeners)"
      by (simp add: sites_values_def sample_listeners_def site_socket_def sample_sockets)
    with that show ?thesis by (fastforce simp: list_all_iff)
  qed
  have "x = (socket_addr_new (V4 0 0 0 0) 80, 443)" if "x \<in> set (redirects ls)" for x
  proof -
    obtain a s where "x = (socket_addr_new (sa_ip a) (tls_redirect_port (sa_port a)), sa_port a)" "a = ?b"
      using \<open>x \<in> set (redirects ls)\<close> only unfolding c(4) by blast
    then show ?thesis by (simp add: port socket_addr_new_def)
  qed
  then have "set (redirects ls) \<subseteq> {(socket_addr_new (V4 0 0 0 0) 80, 443)}" by blast
  moreover have "?s \<in> set (sites_values sample_listeners) \<and> site_socket ?s = Inr ?b \<and> tls ?s \<noteq> None"
    by (simp add: sites_values_def sample_listeners_def site_socket_def sample_sockets)
  then have "(socket_addr_new (sa_ip ?b) (tls_redirect_port (sa_port ?b)), sa_port ?b) \<in> set (redirects ls)"
    unfolding c(4) by blast
  then have "(socket_addr_new (V4 0 0 0 0) 80, 443) \<in> set (redirects ls)" by (simp add: port socket_addr_new_def)
  ultimately have "set (redirects ls) = {(socket_addr_new (V4 0 0 0 0) 80, 443)}" by blast
  then have red: "redirects ls = [(socket_addr_new (V4 0 0 0 0) 80, 443)]"
    using c(3) by (metis distinct_singleton_set)
  have "answers_site ref_tls sample_proxy (bind_all free_os [] (rev ls)) s" if "s \<in> set (sites_values sample_listeners)" for s
  proof -
    have "site_socket s \<notin> Inr ` fst ` set (redirects ls)"
      using that by (auto simp: red sites_values_def sample_listeners_def site_socket_def sample_sockets socket_addr_new_def)
    then show ?thesis using c(5) that by (simp add: comes_up_def free_os_def)
  qed
  with r c red show ?thesis by (auto simp: list_all_iff)
qed

text \<open>
  A redirect can take the socket of a plain site: beside \<open>b.test:443\<close> with TLS, the site \<open>a.test:80\<close> of
  the same configuration is not answered when the redirect to port 443 binds first.
\<close>

lemma redirect_can_take_socket:
  fixes plain :: "'u site_config"
  assumes "address plain = ''a.test:80''" "tls plain = None"
  shows "\<not> answers_site T p (bind_all free_os []
      [RedirectListener (socket_addr_new (V4 0 0 0 0) 80) 443, HttpListener (socket_addr_new (V4 0 0 0 0) 80) (px_config p) (px_semaphore p)]) plain"
proof -
  have "site_socket plain = Inr (socket_addr_new (V4 0 0 0 0) 80)" using assms by (simp add: site_socket_def address_eval)
  then show ?thesis using assms by (simp add: answers_site_def free_os_def)
qed

theorem start_all_never_downgrades_witness:
  "\<exists>l \<in> set (fst (start_all ref_tls id sample_proxy sample_heap)). listener_addr l = socket_addr_new (V4 0 0 0 0) 443
     \<and> (\<exists>R. l = TlsListener (socket_addr_new (V4 0 0 0 0) 443) R 0 0)"
proof -
  let ?a = "socket_addr_new (V4 0 0 0 0) 443" and ?ss = "sites_values (load_full sample_heap (px_config sample_proxy))"
  let ?s = "snd (sites sample_listeners ! 1)"
  have s: "?s \<in> set ?ss" "site_socket ?s = Inr ?a" "tls ?s \<noteq> None"
    unfolding sample_sites by (simp_all add: sites_values_def sample_listeners_def site_socket_def sample_sockets)
  obtain ls res where r: "start_all ref_tls id sample_proxy sample_heap = (ls, res)" by fastforce
  have "sites_values sample_listeners = ?ss" by (rule sample_sites [symmetric])
  from start_all_spawns [OF _ this sample_listeners_ok r] have "answers_site ref_tls sample_proxy ls ?s"
    using s(1) by (simp add: sample_sites spawned_for_def serves_site_def list_all_iff)
  from answers_site_listener [OF this s(2)] obtain l where l: "l \<in> set ls" "serving_socket l = Some ?a" by blast
  then have "l \<in> set (fst (start_all ref_tls id sample_proxy sample_heap))" "listener_addr l = ?a"
    using r by (simp_all add: serving_addr)
  from start_all_never_downgrades [OF _ this s] l(2) this show ?thesis
    by (auto simp: sample_proxy_def)
qed

section \<open>Starting one listener\<close>

lemma parse_ip_addr_show: "a < 256 \<Longrightarrow> b < 256 \<Longrightarrow> c < 256 \<Longrightarrow> d < 256 \<Longrightarrow> parse_ip_addr (show_ipv4 a b c d) = Some (V4 a b c d)"
  using read_ipv4_show [of a b c d "[]"] by (simp add: parse_ip_addr_def read_ip_addr_def whole_def digit_head_def)

lemma show_ipv4_zero: "a < 256 \<Longrightarrow> b < 256 \<Longrightarrow> c < 256 \<Longrightarrow> d < 256 \<Longrightarrow> show_ipv4 a b c d = ''0.0.0.0'' \<longleftrightarrow> V4 a b c d = V4 0 0 0 0"
proof -
  assume lt: "a < 256" "b < 256" "c < 256" "d < 256"
  have z: "show_ipv4 0 0 0 0 = ''0.0.0.0''" by (simp add: show_ipv4_def show_nat.simps)
  show ?thesis
    using parse_ip_addr_show [OF lt] parse_ip_addr_show [of 0 0 0 0] z by (metis ip_addr.inject(1) option.inject zero_less_numeral)
qed

lemma show_ipv4_dot: "CHR ''.'' \<in> set (show_ipv4 a b c d)"
  by (simp add: show_ipv4_def)

text \<open>
  C39. When one listener is started, a site belongs to its socket exactly when the ports agree and:
  the site names an IPv4 address equal to the listener's, or the address 0.0.0.0; or the site is
  \<open>localhost\<close> and the listener is on 127.0.0.1; or the site names any other host that is not an
  IP address, which is matched by its port alone.
\<close>

theorem site_addr_matches_exact:
  "(a < 256 \<and> b < 256 \<and> c < 256 \<and> d < 256 \<longrightarrow>
      (site_addr_matches (show_ipv4 a b c d @ '':'' @ show_word p) l \<longleftrightarrow>
         sa_port l = p \<and> V4 a b c d \<in> {sa_ip l, V4 0 0 0 0})) \<and>
   (site_addr_matches (''localhost:'' @ show_word p) l \<longleftrightarrow> sa_port l = p \<and> sa_ip l = V4 127 0 0 1) \<and>
   (parse_ip_addr host = None \<and> host \<noteq> ''localhost'' \<longrightarrow>
      (site_addr_matches (host @ '':'' @ show_word p) l \<longleftrightarrow> sa_port l = p))"
proof (intro conjI impI)
  have nc: "CHR '':'' \<notin> set (show_word p)" by (rule show_nat_no_char) (simp add: is_dec_digit_def)
  note port = rsplit_once_append [OF nc] parse_u16_show_word
  have local: "''localhost:'' @ show_word p = ''localhost'' @ CHR '':'' # show_word p" by simp
  show "site_addr_matches (''localhost:'' @ show_word p) l \<longleftrightarrow> sa_port l = p \<and> sa_ip l = V4 127 0 0 1"
    unfolding local site_addr_matches_def port by (auto simp: port)
  show "site_addr_matches (host @ '':'' @ show_word p) l \<longleftrightarrow> sa_port l = p"
    if "parse_ip_addr host = None \<and> host \<noteq> ''localhost''"
    using that unfolding append_Cons append_Nil site_addr_matches_def port by (auto simp: port)
  assume lt: "a < 256 \<and> b < 256 \<and> c < 256 \<and> d < 256"
  have "show_ipv4 a b c d \<noteq> []" "show_ipv4 a b c d \<noteq> ''::''" "show_ipv4 a b c d \<noteq> ''localhost''"
    using show_ipv4_dot [of a b c d] by auto
  then show "site_addr_matches (show_ipv4 a b c d @ '':'' @ show_word p) l \<longleftrightarrow>
         sa_port l = p \<and> V4 a b c d \<in> {sa_ip l, V4 0 0 0 0}"
    using lt show_ipv4_zero [of a b c d] parse_ip_addr_show [of a b c d]
    unfolding append_Cons append_Nil site_addr_matches_def port by (auto simp: port)
qed

theorem site_addr_matches_exact_witness:
  "site_addr_matches ''10.0.0.1:8443'' (socket_addr_new (V4 10 0 0 1) 8443)
   \<and> \<not> site_addr_matches ''localhost:8443'' (socket_addr_new (V4 0 0 0 0) 8443)"
proof -
  have s: "show_ipv4 10 0 0 1 @ '':'' @ show_word (8443 :: u16) = ''10.0.0.1:8443''"
    "''localhost:'' @ show_word (8443 :: u16) = ''localhost:8443''"
    by (simp_all add: show_ipv4_def show_nat.simps)
  show ?thesis
    using site_addr_matches_exact [of 10 0 0 1 8443 "socket_addr_new (V4 10 0 0 1) 8443" "[]"]
      site_addr_matches_exact [of 10 0 0 1 8443 "socket_addr_new (V4 0 0 0 0) 8443" "[]"]
    unfolding s by (simp add: socket_addr_new_def)
qed

text \<open>
  The sockets of \<open>start_all\<close> and the match of \<open>start\<close> disagree on \<open>localhost\<close>: its sites resolve to
  all interfaces, but a single listener on all interfaces does not see them as its own, and serves
  them without TLS.
\<close>

lemma start_localhost_plain:
  "site_socket \<lparr>address = ''localhost:8443'', directives = [], tls = Some (sample_tls ''a'')\<rparr> = Inr (socket_addr_new (V4 0 0 0 0) 8443)
   \<and> start_with_addr T \<lparr>px_config = 0, px_max_concurrency = 1, px_semaphore = 0\<rparr>
       \<lparr>cells = [\<lparr>sites = [(''localhost:8443'', \<lparr>address = ''localhost:8443'', directives = [], tls = Some (sample_tls ''a'')\<rparr>)]\<rparr>],
        sems = []\<rparr> (socket_addr_new (V4 0 0 0 0) 8443)
     = Inr (HttpListener (socket_addr_new (V4 0 0 0 0) 8443) 0 0)"
proof -
  have "\<not> site_addr_matches ''localhost:8443'' (socket_addr_new (V4 0 0 0 0) 8443)"
    using rsplit_once_append [of "CHR '':''" "''8443''" "''localhost''"]
    by (simp add: site_addr_matches_def address_eval socket_addr_new_def)
  then show ?thesis
    by (simp add: site_socket_def address_eval start_with_addr_def load_full_def sites_values_def tls_entries_def
        List.map_filter_def start_http_def)
qed

end
