(* ===== verification/Api_Json.thy ===== *)
theory Api_Json
  imports Config_Models "HOL-Library.AList"
begin

text \<open>
  The JSON form of a configuration, as the \<open>serde\<close> attributes of \<open>src/config/models.rs\<close> define it:
  the encoder and the decoder between configurations and JSON values. Structs are objects (or
  arrays of their fields in order), enums are externally tagged, a missing optional field is
  \<open>None\<close>, an unknown field is ignored, a field given twice is an error. The text layer of
  \<open>serde_json\<close> is a parameter of the API handlers.
\<close>

section \<open>JSON values\<close>

datatype json =
    JNull
  | JBool bool
  | JInt int
  | JFloat string
  | JStr string
  | JArr "json list"
  | JObj "(string \<times> json) list"

section \<open>Decoding scalars and lists\<close>

fun traverse :: "('a \<Rightarrow> 'b option) \<Rightarrow> 'a list \<Rightarrow> 'b list option" where
  "traverse f [] = Some []"
| "traverse f (x # xs) = Option.bind (f x) (\<lambda>y. map_option ((#) y) (traverse f xs))"

lemma traverse_cong [fundef_cong]:
  "xs = ys \<Longrightarrow> (\<And>x. x \<in> set ys \<Longrightarrow> f x = g x) \<Longrightarrow> traverse f xs = traverse g ys"
proof (induction ys arbitrary: xs)
  case (Cons y ys)
  then show ?case by (auto intro!: Option.bind_cong)
qed simp

fun de_string :: "json \<Rightarrow> string option" where
  "de_string (JStr s) = Some s"
| "de_string _ = None"

fun de_uint :: "json \<Rightarrow> 'a::len word option" where
  "de_uint (JInt n) = (if 0 \<le> n \<and> n < 2 ^ LENGTH('a) then Some (word_of_int n) else None)"
| "de_uint _ = None"

fun de_vec :: "(json \<Rightarrow> 'a option) \<Rightarrow> json \<Rightarrow> 'a list option" where
  "de_vec f (JArr js) = traverse f js"
| "de_vec f _ = None"

lemma de_vec_cong [fundef_cong]:
  "j = j' \<Longrightarrow> (\<And>js x. j' = JArr js \<Longrightarrow> x \<in> set js \<Longrightarrow> f x = g x) \<Longrightarrow> de_vec f j = de_vec g j'"
  by (cases j') (auto intro!: traverse_cong)

section \<open>Decoding structs\<close>

named_theorems json_inv

declare bind_eq_Some_conv [json_inv]

text \<open>What a struct's visitor finds for a field.\<close>

datatype field = Present json | NoKey | NoElem

definition json_fields :: "string list \<Rightarrow> json \<Rightarrow> field list option" where
  "json_fields names j =
     (case j of
        JObj kvs \<Rightarrow>
          if distinct (filter (\<lambda>k. k \<in> set names) (map fst kvs))
          then Some (map (\<lambda>n. case map_of kvs n of Some x \<Rightarrow> Present x | None \<Rightarrow> NoKey) names)
          else None
      | JArr js \<Rightarrow>
          if length js \<le> length names
          then Some (map Present js @ replicate (length names - length js) NoElem)
          else None
      | _ \<Rightarrow> None)"

fun required :: "(json \<Rightarrow> 'a option) \<Rightarrow> field \<Rightarrow> 'a option" where
  "required f (Present j) = f j"
| "required f _ = None"

fun optional :: "(json \<Rightarrow> 'a option) \<Rightarrow> field \<Rightarrow> 'a option option" where
  "optional f (Present JNull) = Some None"
| "optional f (Present j) = map_option Some (f j)"
| "optional f NoKey = Some None"
| "optional f NoElem = None"

fun defaulted :: "'a \<Rightarrow> (json \<Rightarrow> 'a option) \<Rightarrow> field \<Rightarrow> 'a option" where
  "defaulted d f (Present j) = f j"
| "defaulted d f _ = Some d"

lemma required_cong [fundef_cong]:
  "x = y \<Longrightarrow> (\<And>j. y = Present j \<Longrightarrow> f j = g j) \<Longrightarrow> required f x = required g y"
  by (cases y) auto

text \<open>Using the fields of a struct with a fixed number of them.\<close>

fun fields1 :: "(field \<Rightarrow> 'a option) \<Rightarrow> field list option \<Rightarrow> 'a option" where
  "fields1 f (Some [a]) = f a"
| "fields1 f _ = None"

fun fields2 :: "(field \<Rightarrow> field \<Rightarrow> 'a option) \<Rightarrow> field list option \<Rightarrow> 'a option" where
  "fields2 f (Some [a, b]) = f a b"
| "fields2 f _ = None"

fun fields3 :: "(field \<Rightarrow> field \<Rightarrow> field \<Rightarrow> 'a option) \<Rightarrow> field list option \<Rightarrow> 'a option" where
  "fields3 f (Some [a, b, c]) = f a b c"
| "fields3 f _ = None"

fun fields4 :: "(field \<Rightarrow> field \<Rightarrow> field \<Rightarrow> field \<Rightarrow> 'a option) \<Rightarrow> field list option \<Rightarrow> 'a option" where
  "fields4 f (Some [a, b, c, d]) = f a b c d"
| "fields4 f _ = None"

fun fields5 :: "(field \<Rightarrow> field \<Rightarrow> field \<Rightarrow> field \<Rightarrow> field \<Rightarrow> 'a option) \<Rightarrow> field list option \<Rightarrow> 'a option" where
  "fields5 f (Some [a, b, c, d, e]) = f a b c d e"
| "fields5 f _ = None"

lemma fields_Some_iff [json_inv]:
  "fields1 f1 x = Some y \<longleftrightarrow> (\<exists>a. x = Some [a] \<and> f1 a = Some y)"
  "fields2 f2 x = Some y \<longleftrightarrow> (\<exists>a b. x = Some [a, b] \<and> f2 a b = Some y)"
  "fields3 f3 x = Some y \<longleftrightarrow> (\<exists>a b c. x = Some [a, b, c] \<and> f3 a b c = Some y)"
  "fields4 f4 x = Some y \<longleftrightarrow> (\<exists>a b c d. x = Some [a, b, c, d] \<and> f4 a b c d = Some y)"
  "fields5 f5 x = Some y \<longleftrightarrow> (\<exists>a b c d e. x = Some [a, b, c, d, e] \<and> f5 a b c d e = Some y)"
  subgoal by (cases "(f1, x)" rule: fields1.cases) auto
  subgoal by (cases "(f2, x)" rule: fields2.cases) auto
  subgoal by (cases "(f3, x)" rule: fields3.cases) auto
  subgoal by (cases "(f4, x)" rule: fields4.cases) auto
  subgoal by (cases "(f5, x)" rule: fields5.cases) auto
  done

lemma fields2_cong [fundef_cong]:
  "x = y \<Longrightarrow> (\<And>a b. y = Some [a, b] \<Longrightarrow> f a b = g a b) \<Longrightarrow> fields2 f x = fields2 g y"
  by (cases "(g, y)" rule: fields2.cases) auto

lemma json_fields_size:
  assumes "json_fields names j = Some fs" "Present x \<in> set fs"
  shows "size x < size j"
proof (cases j)
  case (JArr js)
  then have "x \<in> set js" using assms by (auto simp: json_fields_def split: if_splits)
  then show ?thesis using JArr by (simp add: size_list_estimation' less_Suc_eq_le)
next
  case (JObj kvs)
  then obtain n where "(n, x) \<in> set kvs"
    using assms by (auto simp: json_fields_def split: if_splits option.splits dest!: map_of_SomeD)
  then have "size x \<le> size_list (size_prod (\<lambda>_. 0) size) kvs"
    by (intro size_list_estimation') auto
  then show ?thesis using JObj by simp
qed (use assms in \<open>simp_all add: json_fields_def\<close>)

lemma nested_size:
  assumes "json_fields names c = Some [x, Present (JArr js)]" "y \<in> set js"
  shows "size y < Suc (Suc (Suc (size c)))"
proof -
  have "size y < size (JArr js)" using assms(2) by (simp add: size_list_estimation' less_Suc_eq_le)
  also have "\<dots> < size c" by (rule json_fields_size [OF assms(1)]) simp
  finally show ?thesis by simp
qed

declare Option.bind_cong [fundef_cong]

section \<open>Decoding a configuration\<close>

definition tls_config_from_json :: "json \<Rightarrow> tls_config option" where
  "tls_config_from_json j =
     fields2 (\<lambda>c k.
          Option.bind (required de_string c) (\<lambda>cert.
          Option.bind (required de_string k) (\<lambda>key. Some \<lparr>cert_path = cert, key_path = key\<rparr>)))
       (json_fields [''cert_path'', ''key_path''] j)"

definition header_directive_from_json :: "json \<Rightarrow> header_directive option" where
  "header_directive_from_json j =
     fields2 (\<lambda>n v.
          Option.bind (required de_string n) (\<lambda>name.
          Option.bind (optional de_string v) (\<lambda>val. Some \<lparr>hd_name = name, hd_value = val\<rparr>)))
       (json_fields [''name'', ''value''] j)"

text \<open>A unit variant is its name, or an object with its name and null.\<close>

definition failure_mode_from_json :: "json \<Rightarrow> failure_mode option" where
  "failure_mode_from_json j =
     (let variant = (\<lambda>s. if s = ''closed'' then Some Closed else if s = ''open'' then Some Open else None)
      in case j of JStr s \<Rightarrow> variant s | JObj [(s, JNull)] \<Rightarrow> variant s | _ \<Rightarrow> None)"

definition ok_value :: "'e + 'a \<Rightarrow> 'a option" where
  "ok_value r = (case r of Inl _ \<Rightarrow> None | Inr a \<Rightarrow> Some a)"

definition de_uri :: "('u, 'h, 'w) lib \<Rightarrow> json \<Rightarrow> 'u option" where
  "de_uri L j = Option.bind (de_string j) (\<lambda>s. ok_value (serde_uri_deserialize L s))"

definition de_header_names :: "('u, 'h, 'w) lib \<Rightarrow> json \<Rightarrow> string list option" where
  "de_header_names L j =
     Option.bind (de_vec de_string j) (\<lambda>raw. ok_value (serde_header_name_list_deserialize L raw))"

definition forward_auth_from_json :: "('u, 'h, 'w) lib \<Rightarrow> json \<Rightarrow> 'u forward_auth_config option" where
  "forward_auth_from_json L j =
     fields5 (\<lambda>to req_h resp_h mode secs.
          Option.bind (required (de_uri L) to) (\<lambda>u.
          Option.bind (defaulted default_request_headers (de_header_names L) req_h) (\<lambda>rq.
          Option.bind (defaulted [] (de_header_names L) resp_h) (\<lambda>rs.
          Option.bind (defaulted Closed failure_mode_from_json mode) (\<lambda>m.
          Option.bind (defaulted default_auth_timeout_secs de_uint secs) (\<lambda>t.
            Some \<lparr>endpoint = u, request_headers = rq, response_headers = rs, fa_failure_mode = m, timeout_secs = t\<rparr>))))))
       (json_fields [''to'', ''request_headers'', ''response_headers'', ''failure_mode'', ''timeout_secs''] j)"

function directive_from_json :: "('u, 'h, 'w) lib \<Rightarrow> json \<Rightarrow> 'u directive option" where
  "directive_from_json L j =
     (case j of
        JObj [(v, c)] \<Rightarrow>
          if v = ''ReverseProxy'' then
            fields4 (\<lambda>to ct rt up.
                 Option.bind (required de_string to) (\<lambda>to'.
                 Option.bind (optional de_uint ct) (\<lambda>ct'.
                 Option.bind (optional de_uint rt) (\<lambda>rt'.
                 Option.bind (defaulted [] (de_vec header_directive_from_json) up) (\<lambda>up'.
                   Some (ReverseProxy to' ct' rt' up'))))))
       (json_fields [''to'', ''connect_timeout'', ''read_timeout'', ''header_up''] c)
          else if v = ''HandlePath'' then
            fields2 (\<lambda>p ds.
                 Option.bind (required de_string p) (\<lambda>pattern.
                 Option.bind (required (de_vec (directive_from_json L)) ds) (\<lambda>nested. Some (HandlePath pattern nested))))
       (json_fields [''pattern'', ''directives''] c)
          else if v = ''UriReplace'' then
            fields2 (\<lambda>f r.
                 Option.bind (required de_string f) (\<lambda>find_s.
                 Option.bind (required de_string r) (\<lambda>replace_s. Some (UriReplace find_s replace_s))))
       (json_fields [''find'', ''replace''] c)
          else if v = ''Header'' then
            fields2 (\<lambda>n w.
                 Option.bind (required de_string n) (\<lambda>name.
                 Option.bind (optional de_string w) (\<lambda>val. Some (Header name val))))
       (json_fields [''name'', ''value''] c)
          else if v = ''Method'' then
            fields2 (\<lambda>ms ds.
                 Option.bind (required (de_vec de_string) ms) (\<lambda>methods.
                 Option.bind (required (de_vec (directive_from_json L)) ds) (\<lambda>nested. Some (Method methods nested))))
       (json_fields [''methods'', ''directives''] c)
          else if v = ''StripPrefix'' then
            fields1 (\<lambda>p. map_option StripPrefix (required de_string p))
       (json_fields [''prefix''] c)
          else if v = ''Redirect'' then
            fields2 (\<lambda>s u.
                 Option.bind (required de_uint s) (\<lambda>status.
                 Option.bind (required de_string u) (\<lambda>url. Some (Redirect status url))))
       (json_fields [''status'', ''url''] c)
          else if v = ''Respond'' then
            fields2 (\<lambda>s b.
                 Option.bind (required de_uint s) (\<lambda>status.
                 Option.bind (required de_string b) (\<lambda>body. Some (Respond status body))))
       (json_fields [''status'', ''body''] c)
          else if v = ''ForwardAuth'' then map_option ForwardAuth (forward_auth_from_json L c)
          else None
      | _ \<Rightarrow> None)"
  by pat_completeness auto
termination
  by (relation "measure (\<lambda>(L, j). size j)") (auto intro: nested_size)

declare directive_from_json.simps [simp del]

definition site_config_from_json :: "('u, 'h, 'w) lib \<Rightarrow> json \<Rightarrow> 'u site_config option" where
  "site_config_from_json L j =
     fields3 (\<lambda>a ds t.
          Option.bind (required de_string a) (\<lambda>addr.
          Option.bind (required (de_vec (directive_from_json L)) ds) (\<lambda>dirs.
          Option.bind (optional tls_config_from_json t) (\<lambda>t'.
            Some \<lparr>address = addr, directives = dirs, tls = t'\<rparr>))))
       (json_fields [''address'', ''directives'', ''tls''] j)"

text \<open>A map: each entry is inserted, so that the last value of a key is kept.\<close>

fun de_map :: "(json \<Rightarrow> 'a option) \<Rightarrow> json \<Rightarrow> (string \<times> 'a) list option" where
  "de_map f (JObj kvs) =
     map_option (\<lambda>xs. fold (\<lambda>(k, x) m. AList.update k x m) xs [])
       (traverse (\<lambda>(k, x). map_option (Pair k) (f x)) kvs)"
| "de_map f _ = None"

definition config_from_json :: "('u, 'h, 'w) lib \<Rightarrow> json \<Rightarrow> 'u config option" where
  "config_from_json L j =
     fields1 (\<lambda>s. map_option (\<lambda>m. \<lparr>sites = m\<rparr>) (required (de_map (site_config_from_json L)) s))
       (json_fields [''sites''] j)"

section \<open>Encoding a configuration\<close>

definition en_uint :: "'a::len word \<Rightarrow> json" where
  "en_uint w = JInt (uint w)"

definition en_option :: "('a \<Rightarrow> json) \<Rightarrow> 'a option \<Rightarrow> json" where
  "en_option f x = (case x of None \<Rightarrow> JNull | Some a \<Rightarrow> f a)"

definition tls_config_to_json :: "tls_config \<Rightarrow> json" where
  "tls_config_to_json t = JObj [(''cert_path'', JStr (cert_path t)), (''key_path'', JStr (key_path t))]"

definition header_directive_to_json :: "header_directive \<Rightarrow> json" where
  "header_directive_to_json d = JObj [(''name'', JStr (hd_name d)), (''value'', en_option JStr (hd_value d))]"

fun failure_mode_to_json :: "failure_mode \<Rightarrow> json" where
  "failure_mode_to_json Closed = JStr ''closed''"
| "failure_mode_to_json Open = JStr ''open''"

text \<open>\<open>show_uri\<close> is the \<open>Display\<close> implementation of \<open>Uri\<close>.\<close>

definition serde_uri_serialize :: "('u \<Rightarrow> string) \<Rightarrow> 'u \<Rightarrow> json" where
  "serde_uri_serialize show_uri u = JStr (show_uri u)"

definition forward_auth_to_json :: "('u \<Rightarrow> string) \<Rightarrow> 'u forward_auth_config \<Rightarrow> json" where
  "forward_auth_to_json show_uri fa =
     JObj [(''to'', serde_uri_serialize show_uri (endpoint fa)),
           (''request_headers'', JArr (map JStr (serde_header_name_list_serialize (request_headers fa)))),
           (''response_headers'', JArr (map JStr (serde_header_name_list_serialize (response_headers fa)))),
           (''failure_mode'', failure_mode_to_json (fa_failure_mode fa)),
           (''timeout_secs'', en_uint (timeout_secs fa))]"

fun directive_to_json :: "('u \<Rightarrow> string) \<Rightarrow> 'u directive \<Rightarrow> json" where
  "directive_to_json show_uri (ReverseProxy to ct rt up) =
     JObj [(''ReverseProxy'', JObj [(''to'', JStr to), (''connect_timeout'', en_option en_uint ct),
       (''read_timeout'', en_option en_uint rt), (''header_up'', JArr (map header_directive_to_json up))])]"
| "directive_to_json show_uri (HandlePath pattern ds) =
     JObj [(''HandlePath'', JObj [(''pattern'', JStr pattern), (''directives'', JArr (map (directive_to_json show_uri) ds))])]"
| "directive_to_json show_uri (UriReplace f r) =
     JObj [(''UriReplace'', JObj [(''find'', JStr f), (''replace'', JStr r)])]"
| "directive_to_json show_uri (Header n v) =
     JObj [(''Header'', JObj [(''name'', JStr n), (''value'', en_option JStr v)])]"
| "directive_to_json show_uri (Method ms ds) =
     JObj [(''Method'', JObj [(''methods'', JArr (map JStr ms)), (''directives'', JArr (map (directive_to_json show_uri) ds))])]"
| "directive_to_json show_uri (StripPrefix p) = JObj [(''StripPrefix'', JObj [(''prefix'', JStr p)])]"
| "directive_to_json show_uri (Redirect s u) =
     JObj [(''Redirect'', JObj [(''status'', en_uint s), (''url'', JStr u)])]"
| "directive_to_json show_uri (Respond s b) =
     JObj [(''Respond'', JObj [(''status'', en_uint s), (''body'', JStr b)])]"
| "directive_to_json show_uri (ForwardAuth fa) = JObj [(''ForwardAuth'', forward_auth_to_json show_uri fa)]"

definition site_config_to_json :: "('u \<Rightarrow> string) \<Rightarrow> 'u site_config \<Rightarrow> json" where
  "site_config_to_json show_uri s =
     JObj ([(''address'', JStr (address s)), (''directives'', JArr (map (directive_to_json show_uri) (directives s)))]
       @ (case tls s of None \<Rightarrow> [] | Some t \<Rightarrow> [(''tls'', tls_config_to_json t)]))"

definition config_to_json :: "('u \<Rightarrow> string) \<Rightarrow> 'u config \<Rightarrow> json" where
  "config_to_json show_uri c =
     JObj [(''sites'', JObj (map (\<lambda>(k, s). (k, site_config_to_json show_uri s)) (sites c)))]"

section \<open>Round trip\<close>

named_theorems json_rules

lemma traverse_map: "(\<And>x. x \<in> set xs \<Longrightarrow> f (g x) = Some x) \<Longrightarrow> traverse f (map g xs) = Some xs"
  by (induction xs) auto

lemma de_uint_en [json_rules]: "de_uint (en_uint w) = Some w"
  using unsigned_less [of w] by (simp add: en_uint_def)

lemma optional_en:
  "(\<And>a. x = Some a \<Longrightarrow> f (g a) = Some a \<and> g a \<noteq> JNull) \<Longrightarrow> optional f (Present (en_option g x)) = Some x"
proof (cases x)
  case (Some a)
  assume "\<And>a. x = Some a \<Longrightarrow> f (g a) = Some a \<and> g a \<noteq> JNull"
  with Some show ?thesis by (cases "g a") (simp_all add: en_option_def)
qed (simp add: en_option_def)

lemma optional_scalars [json_rules]:
  "optional de_string (Present (en_option JStr s)) = Some s"
  "optional de_uint (Present (en_option en_uint w)) = Some w"
  by (rule optional_en; simp add: json_rules; simp add: en_uint_def)+

lemma de_vec_strings [json_rules]: "de_vec de_string (JArr (map JStr ss)) = Some ss"
  by (simp add: traverse_map)

lemma tls_config_json [json_rules]: "tls_config_from_json (tls_config_to_json t) = Some t"
  by (simp add: tls_config_from_json_def tls_config_to_json_def json_fields_def)

lemma header_directive_json [json_rules]: "header_directive_from_json (header_directive_to_json d) = Some d"
  by (simp add: header_directive_from_json_def header_directive_to_json_def json_fields_def json_rules)

lemma failure_mode_json [json_rules]: "failure_mode_from_json (failure_mode_to_json m) = Some m"
  by (cases m) (simp_all add: failure_mode_from_json_def)

lemma collect_res_fixed: "(\<And>x. x \<in> set xs \<Longrightarrow> f x = Inr x) \<Longrightarrow> collect_res f xs = Inr xs"
  by (induction xs) auto

lemma header_names_json [json_rules]:
  assumes "valid_header_names L ns"
  shows "de_header_names L (JArr (map JStr (serde_header_name_list_serialize ns))) = Some ns"
proof -
  have "serde_header_name_list_deserialize L ns = Inr ns"
    using assms unfolding serde_header_name_list_deserialize_def
    by (intro collect_res_fixed) (simp add: valid_header_names_def list_all_iff)
  then show ?thesis
    by (simp add: de_header_names_def serde_header_name_list_serialize_def traverse_map ok_value_def)
qed

text \<open>An endpoint that is printed as it is read.\<close>

definition faithful_auth :: "('u, 'h, 'w) lib \<Rightarrow> ('u \<Rightarrow> string) \<Rightarrow> 'u forward_auth_config \<Rightarrow> bool" where
  "faithful_auth L show_uri fa =
     (valid_forward_auth L fa \<and> uri_parse L (show_uri (endpoint fa)) = Inr (endpoint fa))"

lemma forward_auth_json:
  assumes "faithful_auth L show_uri fa"
  shows "forward_auth_from_json L (forward_auth_to_json show_uri fa) = Some fa"
proof -
  have "de_uri L (serde_uri_serialize show_uri (endpoint fa)) = Some (endpoint fa)"
    using assms normalize_fixed [of L "endpoint fa"]
    by (simp add: de_uri_def serde_uri_serialize_def serde_uri_deserialize_def faithful_auth_def
        valid_forward_auth_def ok_value_def)
  with assms show ?thesis
    by (simp add: forward_auth_from_json_def forward_auth_to_json_def json_fields_def json_rules faithful_auth_def
        valid_forward_auth_def)
qed

lemma directive_json:
  "all_auth (faithful_auth L show_uri) d \<Longrightarrow> directive_from_json L (directive_to_json show_uri d) = Some d"
proof (induction d)
  case (ReverseProxy to ct rt up)
  have "de_vec header_directive_from_json (JArr (map header_directive_to_json up)) = Some up"
    by (simp add: traverse_map json_rules)
  then show ?case by (simp add: directive_from_json.simps json_fields_def json_rules)
next
  case (HandlePath pattern ds)
  then have "traverse (directive_from_json L) (map (directive_to_json show_uri) ds) = Some ds"
    by (intro traverse_map) (simp add: list_all_iff)
  then show ?case by (subst directive_from_json.simps) (simp add: json_fields_def)
next
  case (Method ms ds)
  then have "traverse (directive_from_json L) (map (directive_to_json show_uri) ds) = Some ds"
    by (intro traverse_map) (simp add: list_all_iff)
  then show ?case
    by (subst directive_from_json.simps) (simp add: json_fields_def traverse_map)
qed (simp_all add: directive_from_json.simps json_fields_def json_rules forward_auth_json)

lemma traverse_entries:
  "(\<And>k x. (k, x) \<in> set kvs \<Longrightarrow> f (g x) = Some x) \<Longrightarrow>
     traverse (\<lambda>(k, x). map_option (Pair k) (f x)) (map (\<lambda>(k, x). (k, g x)) kvs) = Some kvs"
proof (induction kvs)
  case (Cons a kvs)
  obtain k x where a: "a = (k, x)" by fastforce
  have "f (g x) = Some x" by (rule Cons.prems [of k]) (simp add: a)
  moreover have "traverse (\<lambda>(k, x). map_option (Pair k) (f x)) (map (\<lambda>(k, x). (k, g x)) kvs) = Some kvs"
    using Cons.prems by (intro Cons.IH) (meson list.set_intros(2))
  ultimately show ?case by (simp add: a)
qed simp

lemma update_fresh: "k \<notin> fst ` set m \<Longrightarrow> AList.update k x m = m @ [(k, x)]"
  by (induction m) auto

lemma fold_update_distinct:
  "distinct (map fst (m @ kvs)) \<Longrightarrow> fold (\<lambda>(k, x) m. AList.update k x m) kvs m = m @ kvs"
proof (induction kvs arbitrary: m)
  case (Cons a kvs)
  obtain k x where a: "a = (k, x)" by fastforce
  have "k \<notin> fst ` set m" using Cons.prems by (auto simp: a)
  then have "AList.update k x m = m @ [(k, x)]" by (rule update_fresh)
  then show ?case using Cons by (simp add: a)
qed simp

lemma site_config_json:
  assumes "list_all (all_auth (faithful_auth L show_uri)) (directives s)"
  shows "site_config_from_json L (site_config_to_json show_uri s) = Some s"
proof -
  have "traverse (directive_from_json L) (map (directive_to_json show_uri) (directives s)) = Some (directives s)"
    using assms by (intro traverse_map) (simp add: list_all_iff directive_json)
  moreover have "optional tls_config_from_json (Present (tls_config_to_json t)) = Some (Some t)" for t
    using tls_config_json [of t] by (simp add: tls_config_to_json_def)
  ultimately show ?thesis
    by (cases "tls s") (simp_all add: site_config_from_json_def site_config_to_json_def json_fields_def)
qed

definition faithful_config :: "('u, 'h, 'w) lib \<Rightarrow> ('u \<Rightarrow> string) \<Rightarrow> 'u config \<Rightarrow> bool" where
  "faithful_config L show_uri c =
     (distinct (map fst (sites c)) \<and>
      list_all (\<lambda>(k, s). list_all (all_auth (faithful_auth L show_uri)) (directives s)) (sites c))"

lemma config_json_reads_back:
  assumes "faithful_config L show_uri c"
  shows "config_from_json L (config_to_json show_uri c) = Some c"
proof -
  have "traverse (\<lambda>(k, x). map_option (Pair k) (site_config_from_json L x))
      (map (\<lambda>(k, s). (k, site_config_to_json show_uri s)) (sites c)) = Some (sites c)"
    using assms by (intro traverse_entries site_config_json) (force simp: faithful_config_def list_all_iff)
  then show ?thesis
    using fold_update_distinct [of "[]" "sites c"] assms
    by (simp add: config_from_json_def config_to_json_def json_fields_def faithful_config_def)
qed

text \<open>
  C23. The JSON form of a configuration determines it: what the management API prints for a
  configuration is read back as the same configuration, defaults, omitted fields and nested
  directives included, when its keys are distinct and its endpoints are valid and are printed as
  they are read.
\<close>

theorem config_json_roundtrip:
  assumes "faithful_config L show_uri c"
  shows "config_from_json L (config_to_json show_uri c) = Some c"
  by (rule config_json_reads_back [OF assms])

section \<open>What is accepted\<close>

lemma traverse_in: "traverse f xs = Some ys \<Longrightarrow> y \<in> set ys \<Longrightarrow> \<exists>x \<in> set xs. f x = Some y"
  by (induction xs arbitrary: ys) (auto simp: bind_eq_Some_conv)

lemma de_vec_in: "de_vec f j = Some ys \<Longrightarrow> y \<in> set ys \<Longrightarrow> \<exists>js x. j = JArr js \<and> x \<in> set js \<and> f x = Some y"
  by (cases j) (auto dest: traverse_in)

lemma ok_value_iff [simp]: "ok_value r = Some a \<longleftrightarrow> r = Inr a"
  by (cases r) (auto simp: ok_value_def)

lemma de_header_names_valid:
  assumes "header_laws L" "de_header_names L j = Some ns"
  shows "valid_header_names L ns"
proof -
  obtain raw where r: "serde_header_name_list_deserialize L raw = Inr ns"
    using assms(2) by (auto simp: de_header_names_def bind_eq_Some_conv)
  have "header_name_from_bytes L n = Some n" if "n \<in> set ns" for n
    using collect_res_InrD [OF r [unfolded serde_header_name_list_deserialize_def] that]
      header_laws.name_idem [OF assms(1)] by auto
  then show ?thesis by (simp add: valid_header_names_def list_all_iff)
qed

lemma defaulted_cases:
  "defaulted d f x = Some y \<Longrightarrow> y = d \<or> (\<exists>j. f j = Some y)"
  by (cases x) auto

lemma forward_auth_from_json_valid:
  assumes "http_laws L" "forward_auth_from_json L j = Some fa"
  shows "valid_forward_auth L fa"
proof -
  have hl: "header_laws L" and ul: "uri_laws L" using assms(1) by (simp_all add: http_laws_def)
  obtain to rq rs where to: "required (de_uri L) to = Some (endpoint fa)"
    and rq: "defaulted default_request_headers (de_header_names L) rq = Some (request_headers fa)"
    and rs: "defaulted [] (de_header_names L) rs = Some (response_headers fa)"
    using assms(2) by (auto simp: forward_auth_from_json_def json_inv)
  obtain s where "serde_uri_deserialize L s = Inr (endpoint fa)"
    using to by (cases to) (auto simp: de_uri_def bind_eq_Some_conv)
  then have "valid_auth_endpoint L (endpoint fa)"
    using normalize_valid [OF ul] by (auto simp: serde_uri_deserialize_def elim: res_bind_InrD)
  moreover have "valid_header_names L (request_headers fa)" "valid_header_names L (response_headers fa)"
    using defaulted_cases [OF rq] defaulted_cases [OF rs] de_header_names_valid [OF hl]
      default_request_headers_valid [OF hl] by (auto simp: valid_header_names_def)
  ultimately show ?thesis by (simp add: valid_forward_auth_def)
qed

text \<open>Where the parts of a decoded directive come from.\<close>

definition decoded_parts :: "('u, 'h, 'w) lib \<Rightarrow> 'u directive \<Rightarrow> bool" where
  "decoded_parts L d =
     (case d of
        HandlePath p ds \<Rightarrow> \<forall>y \<in> set ds. \<exists>x. directive_from_json L x = Some y
      | Method ms ds \<Rightarrow> \<forall>y \<in> set ds. \<exists>x. directive_from_json L x = Some y
      | ForwardAuth fa \<Rightarrow> \<exists>c. forward_auth_from_json L c = Some fa
      | _ \<Rightarrow> True)"

lemma required_vec_in: "required (de_vec f) x = Some ys \<Longrightarrow> y \<in> set ys \<Longrightarrow> \<exists>x. f x = Some y"
  by (cases x) (auto dest!: de_vec_in)

lemma directive_from_json_parts:
  assumes "directive_from_json L j = Some d"
  shows "decoded_parts L d"
proof -
  obtain v c where j: "j = JObj [(v, c)]"
    using assms by (subst (asm) directive_from_json.simps) (auto split: json.splits list.splits)
  note d = assms [unfolded j directive_from_json.simps [of L "JObj [(v, c)]"] json.case list.case prod.case]
  show ?thesis
    using d by (auto simp: decoded_parts_def json_inv split: if_splits dest: required_vec_in)
qed

lemma directive_from_json_valid:
  assumes "http_laws L"
  shows "directive_from_json L j = Some d \<Longrightarrow> all_auth (valid_forward_auth L) d"
proof (induction d arbitrary: j)
  case (HandlePath p ds)
  then show ?case using directive_from_json_parts [OF HandlePath.prems] by (fastforce simp: decoded_parts_def list_all_iff)
next
  case (Method ms ds)
  then show ?case using directive_from_json_parts [OF Method.prems] by (fastforce simp: decoded_parts_def list_all_iff)
next
  case (ForwardAuth fa)
  then show ?case
    using directive_from_json_parts [OF ForwardAuth.prems] forward_auth_from_json_valid [OF assms]
    by (auto simp: decoded_parts_def)
qed auto

lemma update_subset: "set (AList.update k x m) \<subseteq> insert (k, x) (set m)"
  by (induction m) auto

lemma fold_update_props:
  assumes "distinct (map fst m)"
  shows "distinct (map fst (fold (\<lambda>(k, x) m. AList.update k x m) kvs m))"
    and "set (fold (\<lambda>(k, x) m. AList.update k x m) kvs m) \<subseteq> set m \<union> set kvs"
proof -
  show "distinct (map fst (fold (\<lambda>(k, x) m. AList.update k x m) kvs m))"
    using assms by (induction kvs arbitrary: m) (auto simp: AList.distinct_update)
  show "set (fold (\<lambda>(k, x) m. AList.update k x m) kvs m) \<subseteq> set m \<union> set kvs"
  proof (induction kvs arbitrary: m)
    case (Cons a kvs)
    obtain k x where "a = (k, x)" by fastforce
    with Cons [of "AList.update k x m"] update_subset [of k x m] show ?case by auto
  qed simp
qed

lemma de_map_SomeE:
  assumes "de_map f j = Some m"
  obtains kvs xs where "traverse (\<lambda>(k, x). map_option (Pair k) (f x)) kvs = Some xs"
    "m = fold (\<lambda>(k, x) m. AList.update k x m) xs []"
  using assms by (cases j) auto

lemma site_config_from_json_valid:
  assumes "http_laws L" "site_config_from_json L j = Some s"
  shows "list_all (all_auth (valid_forward_auth L)) (directives s)"
proof -
  obtain x where "required (de_vec (directive_from_json L)) x = Some (directives s)"
    using assms(2) by (auto simp: site_config_from_json_def json_inv)
  then show ?thesis
    using required_vec_in directive_from_json_valid [OF assms(1)] by (fastforce simp: list_all_iff)
qed

lemma config_from_json_sound:
  assumes "http_laws L" and ok: "config_from_json L j = Some c"
  shows "valid_config L c \<and> distinct (map fst (sites c))"
proof -
  obtain x where x: "required (de_map (site_config_from_json L)) x = Some (sites c)"
    using ok by (auto simp: config_from_json_def json_inv)
  then obtain kvs xs where xs: "traverse (\<lambda>(k, x). map_option (Pair k) (site_config_from_json L x)) kvs = Some xs"
    and c: "sites c = fold (\<lambda>(k, x) m. AList.update k x m) xs []"
    by (cases x) (auto elim!: de_map_SomeE)
  have "list_all (all_auth (valid_forward_auth L)) (directives s)" if "(k, s) \<in> set (sites c)" for k s
  proof -
    have "(k, s) \<in> set xs" using that fold_update_props(2) [of "[]" xs] by (auto simp: c)
    then show ?thesis using traverse_in [OF xs] site_config_from_json_valid [OF assms(1)] by fastforce
  qed
  then show ?thesis using fold_update_props(1) [of "[]" xs] by (auto simp: valid_config_def c)
qed

text \<open>
  C22. Every configuration the management API accepts has the guarantees that request handling
  relies on: every forward-auth endpoint is an absolute HTTP or HTTPS address with a host and a
  path, every configured header name is a valid one in canonical form, and the keys of the site
  map are distinct. The consistency of the listen sockets, which the text parser also checks, is not among them.
\<close>

theorem config_from_json_valid:
  assumes "http_laws L" and "config_from_json L j = Some c"
  shows "valid_config L c \<and> distinct (map fst (sites c))"
  by (rule config_from_json_sound [OF assms])

section \<open>A configuration posted to the API\<close>

definition sample_posted :: json where
  "sample_posted =
     JObj [(''sites'', JObj [(''a.test:80'', JObj [(''address'', JStr ''a.test:80''), (''directives'', JArr [
       JObj [(''ForwardAuth'', JObj [(''to'', JStr ''http://auth:9091''), (''response_headers'', JArr [JStr ''Remote-User'']), (''note'', JBool True)])],
       JObj [(''HandlePath'', JObj [(''pattern'', JStr ''/api/*''), (''directives'', JArr [
         JObj [(''ReverseProxy'', JObj [(''to'', JStr ''b:3''), (''read_timeout'', JInt 9)])]])])]])])])]"

definition sample_posted_config :: "ref_uri config" where
  "sample_posted_config =
     \<lparr>sites = [(''a.test:80'', \<lparr>address = ''a.test:80'',
        directives = [
          ForwardAuth \<lparr>endpoint = \<lparr>ru_scheme = Some ''http'', ru_authority = Some ''auth:9091'', ru_pq = Some ''/''\<rparr>,
            request_headers = default_request_headers, response_headers = [''remote-user''],
            fa_failure_mode = Closed, timeout_secs = default_auth_timeout_secs\<rparr>,
          HandlePath ''/api/*'' [ReverseProxy ''b:3'' None (Some 9) []]],
        tls = None\<rparr>)]\<rparr>"

lemma sample_posted_accepted: "config_from_json ref_lib sample_posted = Some sample_posted_config"
proof -
  have uri: "de_uri ref_lib (JStr ''http://auth:9091'') = Some \<lparr>ru_scheme = Some ''http'', ru_authority = Some ''auth:9091'', ru_pq = Some ''/''\<rparr>"
    "de_header_names ref_lib (JArr [JStr ''Remote-User'']) = Some [''remote-user'']"
    by code_simp+
  show ?thesis
    by (simp add: config_from_json_def sample_posted_def sample_posted_config_def json_fields_def site_config_from_json_def
        directive_from_json.simps forward_auth_from_json_def uri)
qed

theorem config_from_json_valid_witness:
  "config_from_json ref_lib sample_posted = Some sample_posted_config \<and> valid_config ref_lib sample_posted_config"
  using config_from_json_valid [OF ref_http.http_laws_axioms sample_posted_accepted] sample_posted_accepted by blast

lemma sample_posted_faithful: "faithful_config ref_lib show_ref_uri sample_posted_config"
  by code_simp

theorem config_json_roundtrip_witness:
  "config_from_json ref_lib (config_to_json show_ref_uri sample_posted_config) = Some sample_posted_config"
  by (rule config_json_roundtrip [OF sample_posted_faithful])

end
