(* ===== verification/Api.thy ===== *)
theory Api
  imports Proxy_Server Api_Json
begin

text \<open>
  The management API (\<open>src/api\<close>): reading and replacing the shared configuration over HTTP, the
  health check, the routing of requests, and the middleware functions. A response is built with
  \<open>expect\<close>, so that an error value of the builder stands for a panic. The text layer of JSON, the
  printing of addresses and the version string of the build are the operations of \<open>json_lib\<close>.
\<close>

section \<open>Bytes\<close>

text \<open>\<open>BodyExt::collect\<close>: the bytes of all frames, or the first error.\<close>

fun collect_body :: "body \<Rightarrow> string + string" where
  "collect_body [] = Inr []"
| "collect_body (Frame b # fs) = res_bind (collect_body fs) (\<lambda>bs. Inr (b @ bs))"
| "collect_body (FrameErr e # fs) = Inl e"

text \<open>\<open>str::from_utf8\<close>: well-formed byte sequences of the Unicode standard.\<close>

definition byte_in :: "nat \<Rightarrow> nat \<Rightarrow> char \<Rightarrow> bool" where
  "byte_in lo hi c = (lo \<le> of_char c \<and> of_char c \<le> hi)"

definition utf8_tail :: "char \<Rightarrow> (char \<Rightarrow> bool) list option" where
  "utf8_tail c =
     (let tail = byte_in 0x80 0xBF
      in if byte_in 0 0x7F c then Some []
         else if byte_in 0xC2 0xDF c then Some [tail]
         else if byte_in 0xE0 0xE0 c then Some [byte_in 0xA0 0xBF, tail]
         else if byte_in 0xE1 0xEC c \<or> byte_in 0xEE 0xEF c then Some [tail, tail]
         else if byte_in 0xED 0xED c then Some [byte_in 0x80 0x9F, tail]
         else if byte_in 0xF0 0xF0 c then Some [byte_in 0x90 0xBF, tail, tail]
         else if byte_in 0xF1 0xF3 c then Some [tail, tail, tail]
         else if byte_in 0xF4 0xF4 c then Some [byte_in 0x80 0x8F, tail, tail]
         else None)"

fun utf8_scan :: "(char \<Rightarrow> bool) list \<Rightarrow> string \<Rightarrow> bool" where
  "utf8_scan [] [] = True"
| "utf8_scan (p # ps) [] = False"
| "utf8_scan [] (c # cs) = (case utf8_tail c of None \<Rightarrow> False | Some ps \<Rightarrow> utf8_scan ps cs)"
| "utf8_scan (p # ps) (c # cs) = (p c \<and> utf8_scan ps cs)"

definition utf8_valid :: "string \<Rightarrow> bool" where
  "utf8_valid s = utf8_scan [] s"

section \<open>Endpoints\<close>

record 'u json_lib =
  json_parse :: "string \<Rightarrow> json option"
  json_error :: "string \<Rightarrow> string"
  json_pretty :: "json \<Rightarrow> string option"
  json_compact :: "json \<Rightarrow> string"
  uri_display :: "'u \<Rightarrow> string"
  pkg_version :: string

definition json_response :: "('u, 'h, 'w) lib \<Rightarrow> u16 \<Rightarrow> string \<Rightarrow> proxy_failure + 'h response" where
  "json_response L status text =
     builder_body (full_body text)
       (builder_header L ''Content-Type'' ''application/json'' (Inr (response_builder L status)))"

abbreviation in_quotes :: "string \<Rightarrow> string" where
  "in_quotes s \<equiv> [CHR 0x22] @ s @ [CHR 0x22]"

type_synonym ('u, 'h) api_result = "(proxy_failure + 'h response) \<times> 'u heap"

definition handle_get_config ::
  "('u, 'h, 'w) lib \<Rightarrow> 'u json_lib \<Rightarrow> ('u, 'h) request \<Rightarrow> nat \<Rightarrow> 'u heap \<Rightarrow> ('u, 'h) api_result" where
  "handle_get_config L J req cell H =
     (let config = load_full H cell;
          json = unwrap_or (''{'' @ in_quotes ''error'' @ '': '' @ in_quotes ''Failed to serialize config'' @ ''}'')
                   (json_pretty J (config_to_json (uri_display J) config))
      in (json_response L 200 json, H))"

definition error_json :: "'u json_lib \<Rightarrow> string \<Rightarrow> string" where
  "error_json J message = json_compact J (JObj [(''message'', JStr message), (''status'', JStr ''error'')])"

definition handle_post_config ::
  "('u, 'h, 'w) lib \<Rightarrow> 'u json_lib \<Rightarrow> ('u, 'h) request \<Rightarrow> nat \<Rightarrow> 'u heap \<Rightarrow> ('u, 'h) api_result" where
  "handle_post_config L J req cell H =
     (case collect_body (req_body req) of
        Inl e \<Rightarrow> (json_response L 400 (error_json J (''Failed to read request body: '' @ e)), H)
      | Inr body_bytes \<Rightarrow>
          if \<not> utf8_valid body_bytes then
            (json_response L 400 (error_json J ''Invalid UTF-8 in request body''), H)
          else
            (case Option.bind (json_parse J body_bytes) (config_from_json L) of
               None \<Rightarrow>
                 (json_response L 400 (error_json J (''Invalid configuration JSON: '' @ json_error J body_bytes)), H)
             | Some new_config \<Rightarrow>
                 (json_response L 200 (''{'' @ in_quotes ''status'' @ '': '' @ in_quotes ''success'' @ '', ''
                     @ in_quotes ''message'' @ '': '' @ in_quotes ''Configuration updated'' @ ''}''),
                  store cell new_config H)))"

definition handle_health_check ::
  "('u, 'h, 'w) lib \<Rightarrow> 'u json_lib \<Rightarrow> ('u, 'h) request \<Rightarrow> proxy_failure + 'h response" where
  "handle_health_check L J req =
     json_response L 200 (json_compact J (JObj [(''service'', JStr ''tiny-proxy''), (''status'', JStr ''healthy''),
       (''version'', JStr (pkg_version J))]))"

section \<open>Routing\<close>

definition handle_api_request ::
  "('u, 'h, 'w) lib \<Rightarrow> 'u json_lib \<Rightarrow> ('u, 'h) request \<Rightarrow> nat \<Rightarrow> 'u heap \<Rightarrow> ('u, 'h) api_result" where
  "handle_api_request L J req cell H =
     (let path = uri_path L (req_uri req); meth = req_method req
      in if meth = ''GET'' \<and> path = ''/config'' then handle_get_config L J req cell H
         else if meth = ''POST'' \<and> path = ''/config'' then handle_post_config L J req cell H
         else if meth = ''GET'' \<and> path = ''/health'' then (handle_health_check L J req, H)
         else (builder_body (full_body ''Not Found'') (Inr (response_builder L 404)), H))"

text \<open>The address of the API server; what it answers with is \<open>handle_api_request\<close> on its cell.\<close>

definition start_api_server :: "string \<Rightarrow> nat \<Rightarrow> proxy_error + socket_addr \<times> nat" where
  "start_api_server addr cell =
     (case parse_socket_addr addr of
        None \<Rightarrow> Inl (Address ''invalid socket address syntax'')
      | Some a \<Rightarrow> Inr (a, cell))"

section \<open>Middleware\<close>

definition unauthorized_response :: "('u, 'h, 'w) lib \<Rightarrow> string \<Rightarrow> proxy_failure + 'h response" where
  "unauthorized_response L message =
     json_response L 401 (''{'' @ in_quotes ''error'' @ '': '' @ in_quotes ''Unauthorized'' @ '', ''
       @ in_quotes ''message'' @ '': '' @ in_quotes message @ ''}'')"

definition auth_middleware ::
  "('u, 'h, 'w) lib \<Rightarrow> ('u, 'h) request \<Rightarrow> string \<Rightarrow> (proxy_failure + 'h response) + ('u, 'h) request" where
  "auth_middleware L req api_key =
     (case Option.bind (hm_get L (req_headers req) ''X-API-Key'') (header_value_to_str L) of
        Some key \<Rightarrow> if key = api_key then Inr req else Inl (unauthorized_response L ''Invalid API key'')
      | None \<Rightarrow> Inl (unauthorized_response L ''Missing API key''))"

definition logging_middleware ::
  "('u, 'h, 'w) lib \<Rightarrow> ('u, 'h) request \<Rightarrow> string \<times> ('u, 'h) request" where
  \<comment> \<open>the log line and the request, which is passed on unchanged\<close>
  "logging_middleware L req =
     (let client = (case hm_get L (req_headers req) ''X-Real-IP'' of
                      Some h \<Rightarrow> Some h | None \<Rightarrow> hm_get L (req_headers req) ''X-Forwarded-For'');
          client_ip = unwrap_or ''unknown'' (Option.bind client (header_value_to_str L))
      in (''API request from '' @ client_ip @ '': '' @ req_method req @ '' '' @ uri_path L (req_uri req), req))"

section \<open>Properties\<close>

text \<open>The configuration a request asks to install, when it is one the API accepts.\<close>

definition posted_config :: "('u, 'h, 'w) lib \<Rightarrow> 'u json_lib \<Rightarrow> ('u, 'h) request \<Rightarrow> 'u config option" where
  "posted_config L J req =
     (if req_method req = ''POST'' \<and> uri_path L (req_uri req) = ''/config'' then
        (case collect_body (req_body req) of
           Inr bytes \<Rightarrow> if utf8_valid bytes then Option.bind (json_parse J bytes) (config_from_json L) else None
         | Inl _ \<Rightarrow> None)
      else None)"

definition api_status :: "('u, 'h, 'w) lib \<Rightarrow> 'u json_lib \<Rightarrow> ('u, 'h) request \<Rightarrow> u16" where
  "api_status L J req =
     (case (req_method req, uri_path L (req_uri req)) of
        (m, p) \<Rightarrow>
          if (m, p) \<in> {(''GET'', ''/config''), (''GET'', ''/health'')} then 200
          else if (m, p) = (''POST'', ''/config'') then (if posted_config L J req = None then 400 else 200)
          else 404)"

lemma json_response_ok:
  assumes "header_laws L"
  shows "\<exists>resp. json_response L status text = Inr resp \<and> resp_status resp = status \<and> resp_body resp = full_body text"
proof -
  have "list_all is_visible ''application/json''" by code_simp
  from header_laws.builder_header_visible [OF assms this] show ?thesis
    by (simp add: json_response_def builder_body_def response_builder_def)
qed

lemma api_request_effect:
  "snd (handle_api_request L J req cell H)
     = (case posted_config L J req of None \<Rightarrow> H | Some c \<Rightarrow> store cell c H)"
  by (auto simp: handle_api_request_def handle_get_config_def handle_post_config_def posted_config_def Let_def
      split: sum.splits option.splits)

text \<open>
  C20. The management API answers every request, never panicking, with the status its method and
  path call for, and changes the shared configuration exactly when the request is a POST to
  \<open>/config\<close> whose body can be read, is UTF-8 and decodes to a configuration: then, and only then, the
  status is 200 and the cell holds the posted configuration. Any error leaves the heap as it was.
\<close>

theorem api_request_outcome:
  assumes "http_laws L"
  shows "\<exists>resp. handle_api_request L J req cell H
      = (Inr resp, case posted_config L J req of None \<Rightarrow> H | Some c \<Rightarrow> store cell c H)
    \<and> resp_status resp = api_status L J req"
proof -
  have hl: "header_laws L" using assms by (simp add: http_laws_def)
  note json = json_response_ok [OF hl]
  obtain res H' where r: "handle_api_request L J req cell H = (res, H')" by fastforce
  have "\<exists>resp. res = Inr resp \<and> resp_status resp = api_status L J req"
  proof (cases "req_method req = ''POST'' \<and> uri_path L (req_uri req) = ''/config''")
    case True
    then show ?thesis
      using r json by (auto simp: handle_api_request_def handle_post_config_def api_status_def posted_config_def
          split: sum.splits option.splits if_splits)
  next
    case False
    then show ?thesis
      using r json
      by (auto simp: handle_api_request_def handle_get_config_def handle_health_check_def api_status_def Let_def
          builder_body_def response_builder_def split: if_splits)
  qed
  then show ?thesis using r api_request_effect [of L J req cell H] by auto
qed

text \<open>A text layer that knows two documents, and requests that use it.\<close>

definition ref_json :: "ref_uri json_lib" where
  "ref_json =
     \<lparr>json_parse = (\<lambda>s. if s = ''doc'' then Some (config_to_json show_ref_uri sample_posted_config)
                        else if s = ''[]'' then Some (JArr []) else None),
      json_error = (\<lambda>s. ''expected value at line 1 column 1''),
      json_pretty = (\<lambda>j. if j = config_to_json show_ref_uri sample_posted_config then Some ''doc'' else None),
      json_compact = (\<lambda>j. ''{}''), uri_display = show_ref_uri, pkg_version = ''0''\<rparr>"

definition api_call :: "string \<Rightarrow> string \<Rightarrow> string \<Rightarrow> (ref_uri, ref_headers) request" where
  "api_call meth path text =
     \<lparr>req_method = meth, req_uri = \<lparr>ru_scheme = None, ru_authority = None, ru_pq = Some path\<rparr>,
      req_headers = [], req_body = [Frame text]\<rparr>"

definition empty_heap :: "ref_uri heap" where
  "empty_heap = \<lparr>cells = [\<lparr>sites = []\<rparr>], sems = []\<rparr>"

lemma api_call_path: "uri_path ref_lib (req_uri (api_call m ''/config'' b)) = ''/config''"
  by (simp add: api_call_def ref_lib_def ref_path_def)

lemma sample_posted_call: "posted_config ref_lib ref_json (api_call ''POST'' ''/config'' ''doc'') = Some sample_posted_config"
proof -
  have "config_from_json ref_lib (config_to_json show_ref_uri sample_posted_config) = Some sample_posted_config"
    using sample_posted_faithful by (rule config_json_reads_back)
  moreover have "utf8_valid ''doc''" by code_simp
  ultimately show ?thesis
    by (simp add: posted_config_def api_call_path) (simp add: api_call_def ref_json_def)
qed

theorem api_request_outcome_witness:
  "(\<exists>resp. handle_api_request ref_lib ref_json (api_call ''POST'' ''/config'' ''junk'') 0 empty_heap = (Inr resp, empty_heap)
      \<and> resp_status resp = 400)
   \<and> (\<exists>resp. handle_api_request ref_lib ref_json (api_call ''POST'' ''/config'' ''doc'') 0 empty_heap
        = (Inr resp, store 0 sample_posted_config empty_heap) \<and> resp_status resp = 200)"
proof -
  have 1: "posted_config ref_lib ref_json (api_call ''POST'' ''/config'' ''junk'') = None"
    by (simp add: posted_config_def api_call_path) (simp add: api_call_def ref_json_def)
  have st: "api_status ref_lib ref_json (api_call ''POST'' ''/config'' b)
      = (if posted_config ref_lib ref_json (api_call ''POST'' ''/config'' b) = None then 400 else 200)" for b
    by (simp add: api_status_def api_call_path) (simp add: api_call_def)
  note out = api_request_outcome [OF ref_http.http_laws_axioms, of ref_json _ 0 empty_heap]
  show ?thesis
    using out [of "api_call ''POST'' ''/config'' ''junk''"] out [of "api_call ''POST'' ''/config'' ''doc''"]
    unfolding st 1 sample_posted_call by simp
qed

text \<open>
  C40. Posting back what GET returned changes nothing: for a configuration that is printed
  faithfully, the body of the answer to \<open>GET /config\<close>, sent as \<open>POST /config\<close>, installs the
  configuration that is already there.
\<close>

theorem api_get_post_identity:
  assumes laws: "http_laws L"
    and faithful: "faithful_config L (uri_display J) (load_full H cell)"
    and doc: "json_pretty J (config_to_json (uri_display J) (load_full H cell)) = Some t"
      "json_parse J t = Some (config_to_json (uri_display J) (load_full H cell))" "utf8_valid t"
    and get: "req_method g = ''GET''" "uri_path L (req_uri g) = ''/config''"
      "handle_api_request L J g cell H = (Inr resp, H')"
    and post: "req_method p = ''POST''" "uri_path L (req_uri p) = ''/config''" "req_body p = resp_body resp"
  shows "snd (handle_api_request L J p cell H') = H"
proof -
  have hl: "header_laws L" using laws by (simp add: http_laws_def)
  have H': "H' = H" and r: "json_response L 200 t = Inr resp"
    using get doc(1) by (auto simp: handle_api_request_def handle_get_config_def Let_def)
  have "resp_body resp = full_body t" using json_response_ok [OF hl, of 200 t] r by auto
  then have "collect_body (req_body p) = Inr t" using post(3) by (simp add: full_body_def)
  then have "posted_config L J p = Some (load_full H cell)"
    using post doc config_json_reads_back [OF faithful] by (simp add: posted_config_def)
  then show ?thesis
    using api_request_effect [of L J p cell H] by (simp add: H' cell.put_read)
qed

theorem api_get_post_identity_witness:
  "\<exists>resp. fst (handle_api_request ref_lib ref_json (api_call ''GET'' ''/config'' []) 0 (store 0 sample_posted_config empty_heap)) = Inr resp
     \<and> snd (handle_api_request ref_lib ref_json ((api_call ''POST'' ''/config'' [])\<lparr>req_body := resp_body resp\<rparr>) 0
          (store 0 sample_posted_config empty_heap))
       = store 0 sample_posted_config empty_heap"
proof -
  let ?H = "store 0 sample_posted_config empty_heap"
  let ?g = "api_call ''GET'' ''/config'' []"
  have c: "load_full ?H 0 = sample_posted_config" by (simp add: load_full_def store_def empty_heap_def)
  have f: "faithful_config ref_lib (uri_display ref_json) (load_full ?H 0)"
    using sample_posted_faithful unfolding c by (simp add: ref_json_def)
  have t: "json_pretty ref_json (config_to_json (uri_display ref_json) (load_full ?H 0)) = Some ''doc''"
    "json_parse ref_json ''doc'' = Some (config_to_json (uri_display ref_json) (load_full ?H 0))"
    unfolding c by (simp_all add: ref_json_def)
  have u: "utf8_valid ''doc''" by code_simp
  obtain resp where r: "handle_api_request ref_lib ref_json ?g 0 ?H = (Inr resp, ?H)"
    using json_response_ok [OF ref_http.header_laws_axioms, of 200 "''doc''"] t(1)
    by (auto simp: handle_api_request_def handle_get_config_def api_call_def ref_lib_def ref_path_def)
  show ?thesis
    using api_get_post_identity [OF ref_http.http_laws_axioms f t u _ _ r, of "(api_call ''POST'' ''/config'' [])\<lparr>req_body := resp_body resp\<rparr>"] r
    by (simp add: api_call_def ref_lib_def ref_path_def)
qed

text \<open>
  The authentication middleware lets a request through, unchanged, exactly when its first
  \<open>X-API-Key\<close> header is the key; every other request gets a 401 answer.
\<close>

lemma auth_middleware_exact:
  assumes "http_laws L"
  shows "if hm_get L (req_headers req) ''X-API-Key'' = Some key \<and> list_all is_visible key
     then auth_middleware L req key = Inr req
     else \<exists>resp. auth_middleware L req key = Inl (Inr resp) \<and> resp_status resp = 401"
proof -
  have hl: "header_laws L" using assms by (simp add: http_laws_def)
  show ?thesis
    using json_response_ok [OF hl, of 401] header_laws.to_str_eq [OF hl]
    by (auto simp: auth_middleware_def unauthorized_response_def bind_eq_Some_conv split: option.splits if_splits)
qed

end
