(* ===== verification/Request_Cancel.thy ===== *)
theory Request_Cancel
  imports Request_Flow
begin

text \<open>
  Cancellation of a request. When the client closes the connection while its request is in flight,
  the future of \<open>proxy\<close> (\<open>src/proxy/handler.rs\<close>) is dropped at the point where it waits: at the
  subrequest of a \<open>forward_auth\<close> directive (\<open>src/proxy/forward_auth.rs\<close>), including the reading of
  its body, or at the backend request. Nothing after that point is executed, and the guards that
  live in the future are dropped. The definitions give the state that is left when the future is
  dropped at its wait number \<open>n\<close>, counted from 0; the request it waits for has been handed to the
  client. \<open>proxy_dropped_prefix\<close> relates them to the definitions of \<open>Handler\<close>.
\<close>

section \<open>Operations\<close>

definition resolve_auth_dropped ::
  "('u, 'h, 'w) lib \<Rightarrow> auth_ctx \<Rightarrow> ('u, 'h) request \<Rightarrow> 'u forward_auth_config \<Rightarrow> ('u, 'h, 'w) io \<Rightarrow> ('u, 'h, 'w) io" where
  \<comment> \<open>building the subrequest does not fail; no outcome is recorded\<close>
  "resolve_auth_dropped L ctx r cfg s =
     (case build_auth_request L (ctx_original_uri ctx) (ctx_remote_addr ctx) (ctx_is_tls ctx) r cfg of
        Inl e \<Rightarrow> s
      | Inr auth_req \<Rightarrow> snd (send_request L (timeout_secs cfg) auth_req s))"

text \<open>
  The pipeline: \<open>Inl\<close> is the state when it is dropped at its wait \<open>n\<close>; \<open>Inr m\<close> when it ended before
  that, with \<open>m\<close> waits left; \<open>None\<close> when a template does not return.
\<close>

fun run_directives_dropped ::
  "('u, 'h, 'w) lib \<Rightarrow> nat \<Rightarrow> 'u directive list \<Rightarrow> ('u, 'h) request \<Rightarrow> string \<Rightarrow> auth_ctx
     \<Rightarrow> ('u, 'h, 'w) io \<Rightarrow> (('u, 'h, 'w) io + nat) option" where
  "run_directives_dropped L n [] r path ctx s = Some (Inr n)"
| "run_directives_dropped L n (Header name val # ds) r path ctx s =
     (case handle_header L name val r s of
        None \<Rightarrow> None
      | Some (Inl e, s') \<Rightarrow> run_directives_dropped L n ds r path ctx s'
      | Some (Inr r', s') \<Rightarrow> run_directives_dropped L n ds r' path ctx s')"
| "run_directives_dropped L n (UriReplace find_s replace_s # ds) r path ctx s =
     run_directives_dropped L n ds r (handle_uri_replace find_s replace_s path) ctx s"
| "run_directives_dropped L n (StripPrefix prefix # ds) r path ctx s =
     run_directives_dropped L n ds r (handle_strip_prefix prefix path) ctx s"
| "run_directives_dropped L n (HandlePath pattern nested # ds) r path ctx s =
     (case match_pattern pattern path of
        Some remaining_path \<Rightarrow> run_directives_dropped L n nested r remaining_path ctx s
      | None \<Rightarrow> run_directives_dropped L n ds r path ctx s)"
| "run_directives_dropped L n (Method methods nested # ds) r path ctx s =
     (if handle_method methods r then run_directives_dropped L n nested r path ctx s
      else run_directives_dropped L n ds r path ctx s)"
| "run_directives_dropped L n (Redirect status url # ds) r path ctx s = Some (Inr n)"
| "run_directives_dropped L n (Respond status body # ds) r path ctx s = Some (Inr n)"
| "run_directives_dropped L n (ReverseProxy to connect_timeout read_timeout header_up # ds) r path ctx s = Some (Inr n)"
| "run_directives_dropped L n (ForwardAuth auth_cfg # ds) r path ctx s =
     (let r1 = scrub_identity_headers L r auth_cfg
      in case n of
           0 \<Rightarrow> Some (Inl (resolve_auth_dropped L ctx r1 auth_cfg s))
         | Suc m \<Rightarrow>
             (case resolve_auth L ctx r1 auth_cfg s of
                (Allowed identity, s') \<Rightarrow>
                  run_directives_dropped L m ds (apply_identity_headers L r1 identity) path ctx s'
              | (Denied status www_authenticate, s') \<Rightarrow> Some (Inr m)
              | (Failed _, s') \<Rightarrow>
                  (case fa_failure_mode auth_cfg of
                     Closed \<Rightarrow> Some (Inr m)
                   | Open \<Rightarrow> run_directives_dropped L m ds r1 path ctx s')))"

definition execute_action_dropped ::
  "('u, 'h, 'w) lib \<Rightarrow> metrics_guard \<Rightarrow> access_log_guard \<Rightarrow> socket_addr \<Rightarrow> bool \<Rightarrow> action_result
     \<Rightarrow> ('u, 'h) request \<Rightarrow> ('u, 'h, 'w) io \<Rightarrow> ('u, 'h, 'w) io option" where
  \<comment> \<open>only a reverse proxy waits, once\<close>
  "execute_action_dropped L mg lg remote_addr is_tls action r s =
     (case action of
        AR_ReverseProxy backend_url path_to_send connect_timeout read_timeout header_up \<Rightarrow>
          (case outbound_request L remote_addr is_tls backend_url path_to_send header_up r s of
             Some (Inr (send_req, s1)) \<Rightarrow>
               Some (abandon mg lg (snd (send_request L (unwrap_or 30 read_timeout) send_req s1)))
           | _ \<Rightarrow> None)
      | _ \<Rightarrow> None)"

text \<open>\<open>None\<close>: the request does not get to its wait \<open>n\<close>.\<close>

definition proxy_dropped ::
  "('u, 'h, 'w) lib \<Rightarrow> nat \<Rightarrow> ('u, 'h) request \<Rightarrow> 'u config \<Rightarrow> socket_addr \<Rightarrow> bool \<Rightarrow> ('u, 'h, 'w) io
     \<Rightarrow> ('u, 'h, 'w) io option" where
  "proxy_dropped L n req config remote_addr is_tls s0 =
     (let (initial_request_id, r, s) = ensure_request_id L req s0;
          path = uri_path L (req_uri r);
          original_uri = unwrap_or [] (uri_path_and_query L (req_uri r));
          host = unwrap_or ''localhost'' (Option.bind (hm_get L (req_headers r) ''host'') (header_value_to_str L));
          (mg, s1) = metrics_guard_new (req_method r) host s;
          lg = access_log_guard_new initial_request_id remote_addr (req_method r) path host;
          auth_ctx = \<lparr>ctx_original_uri = original_uri, ctx_remote_addr = remote_addr, ctx_is_tls = is_tls\<rparr>
      in case find_site config host is_tls of
           None \<Rightarrow> None
         | Some site_config \<Rightarrow>
             (case run_directives_dropped L n (directives site_config) r path auth_ctx s1 of
                Some (Inl s2) \<Rightarrow> Some (abandon mg lg s2)
              | Some (Inr 0) \<Rightarrow>
                  (case process_directives L (directives site_config) r path auth_ctx s1 of
                     Some (Inr action, r2, s2) \<Rightarrow>
                       execute_action_dropped L mg
                         (guard_set_request_id (final_request_id L r2 initial_request_id) lg)
                         remote_addr is_tls action r2 s2
                   | _ \<Rightarrow> None)
              | _ \<Rightarrow> None))"

section \<open>Steps\<close>

fun run_steps_dropped ::
  "('u, 'h, 'w) lib \<Rightarrow> nat \<Rightarrow> auth_ctx \<Rightarrow> 'u step list \<Rightarrow> ('u, 'h) request \<Rightarrow> ('u, 'h, 'w) io
     \<Rightarrow> (('u, 'h, 'w) io + nat) option" where
  "run_steps_dropped L n ctx [] r s = Some (Inr n)"
| "run_steps_dropped L n ctx (SHeader name val # ss) r s =
     (case handle_header L name val r s of
        None \<Rightarrow> None
      | Some (p, s') \<Rightarrow> run_steps_dropped L n ctx ss (case p of Inl _ \<Rightarrow> r | Inr r' \<Rightarrow> r') s')"
| "run_steps_dropped L n ctx (SAuth cfg # ss) r s =
     (let r1 = scrub_identity_headers L r cfg
      in case n of
           0 \<Rightarrow> Some (Inl (resolve_auth_dropped L ctx r1 cfg s))
         | Suc m \<Rightarrow>
             (case resolve_auth L ctx r1 cfg s of
                (out, s') \<Rightarrow>
                  if passes cfg (auth_label out)
                  then run_steps_dropped L m ctx ss
                    (case out of Allowed identity \<Rightarrow> apply_identity_headers L r1 identity | _ \<Rightarrow> r1) s'
                  else Some (Inr m)))"

lemma run_directives_dropped_route:
  "run_directives_dropped L n ds r path ctx s
     = run_steps_dropped L n ctx (fst (route ds (req_method r) cur path)) r s"
proof (induction L n ds r path ctx s arbitrary: cur rule: run_directives_dropped.induct)
  case (2 L n name val ds r path ctx s)
  show ?case
  proof (cases "handle_header L name val r s")
    case (Some p)
    obtain x s' where p: "p = (x, s')" by fastforce
    show ?thesis
      using 2 Some p handle_header_method [of L name val r s, symmetric]
      by (cases x) (simp_all add: case_prod_unfold Let_def)
  qed (simp add: case_prod_unfold Let_def)
next
  case (10 L n auth_cfg ds r path ctx s)
  obtain out s' where o: "resolve_auth L ctx (scrub_identity_headers L r auth_cfg) auth_cfg s = (out, s')" by fastforce
  show ?case
    using 10 o
    by (cases n; cases out; cases "fa_failure_mode auth_cfg")
      (simp_all add: Let_def case_prod_unfold passes_def auth_label_def)
qed (auto simp: Let_def handle_uri_replace_def handle_method_def list_ex_iff split: option.splits)

lemma resolve_auth_dropped_frame:
  shows "\<exists>q. io_sent (resolve_auth_dropped L ctx r cfg s) = io_sent s @ [q] \<and> auth_call cfg q"
    and "io_metrics (resolve_auth_dropped L ctx r cfg s) = io_metrics s"
    and "io_log (resolve_auth_dropped L ctx r cfg s) = io_log s"
  by (simp_all add: resolve_auth_dropped_def build_auth_request_def auth_call_def empty_request_body_def
      send_request_def case_prod_unfold Let_def)

text \<open>
  Dropped at wait \<open>n\<close>, the pipeline called the first \<open>n\<close> authorization services, which all passed, and
  was calling the next one.
\<close>

definition dropped_gate ::
  "('u, 'h, 'w) lib \<Rightarrow> 'u forward_auth_config list \<Rightarrow> nat \<Rightarrow> string list \<Rightarrow> ('u, 'h) request list \<Rightarrow> bool" where
  "dropped_gate L cfgs n labels qs =
     (list_all2 passes (take n cfgs) labels \<and> list_all2 auth_call (take (Suc n) cfgs) qs \<and> n < length cfgs
      \<and> answered L cfgs (butlast qs) labels)"

lemma dropped_gate_zero: "auth_call cfg q \<Longrightarrow> dropped_gate L (cfg # cfgs) 0 [] [q]"
  by (simp add: dropped_gate_def)

lemma dropped_gate_Suc:
  assumes "dropped_gate L cfgs n labels qs" "passes cfg l" "auth_call cfg q"
    "l = outcome_label (fst (client_request L w (timeout_secs cfg) q))"
  shows "dropped_gate L (cfg # cfgs) (Suc n) (l # labels) (q # qs)"
proof -
  have "qs \<noteq> []" using assms(1) by (auto simp: dropped_gate_def)
  with assms show ?thesis by (auto simp: dropped_gate_def)
qed

lemma run_steps_dropped_gate:
  assumes laws: "http_laws L"
  shows "run_steps_dropped L n ctx ss r s = Some (Inl s') \<Longrightarrow>
     \<exists>labels qs. io_sent s' = io_sent s @ qs \<and> io_metrics s' = io_metrics s @ auth_metrics labels
       \<and> io_log s' = io_log s \<and> dropped_gate L (auths ss) n labels qs"
proof (induction ss arbitrary: n r s)
  case (Cons st ss)
  show ?case
  proof (cases st)
    case (SHeader name val)
    with Cons.prems obtain p s1 where h: "handle_header L name val r s = Some (p, s1)"
      and rest: "run_steps_dropped L n ctx ss (case p of Inl _ \<Rightarrow> r | Inr r1 \<Rightarrow> r1) s1 = Some (Inl s')"
      by (auto split: option.splits)
    from handle_header_effects [OF h] Cons.IH [OF rest] SHeader show ?thesis by (auto simp: same_effects_def)
  next
    case (SAuth cfg)
    let ?r1 = "scrub_identity_headers L r cfg"
    show ?thesis
    proof (cases n)
      case 0
      obtain q where q: "io_sent (resolve_auth_dropped L ctx ?r1 cfg s) = io_sent s @ [q]" "auth_call cfg q"
        using resolve_auth_dropped_frame(1) by blast
      have "s' = resolve_auth_dropped L ctx ?r1 cfg s" using Cons.prems by (simp add: SAuth 0)
      with q show ?thesis
        by (intro exI [of _ "[]"] exI [of _ "[q]"]) (simp add: SAuth 0 resolve_auth_dropped_frame dropped_gate_zero)
    next
      case (Suc m)
      obtain out s1 where o: "resolve_auth L ctx ?r1 cfg s = (out, s1)" by fastforce
      obtain q where q: "io_sent s1 = io_sent s @ [q]" "auth_call cfg q"
        "io_metrics s1 = io_metrics s @ auth_metrics [auth_label out]" "io_log s1 = io_log s"
        "auth_label out = outcome_label (fst (client_request L (io_world s) (timeout_secs cfg) q))"
        using resolve_auth_effects [OF laws o] by metis
      have pass: "passes cfg (auth_label out)" and "\<exists>r2. run_steps_dropped L m ctx ss r2 s1 = Some (Inl s')"
        using Cons.prems by (auto simp: SAuth Suc o Let_def split: if_splits)
      then obtain labels qs where "io_sent s' = io_sent s1 @ qs" "io_metrics s' = io_metrics s1 @ auth_metrics labels"
        "io_log s' = io_log s1" "dropped_gate L (auths ss) m labels qs"
        using Cons.IH by blast
      with q(1-4) pass show ?thesis
        by (intro exI [of _ "auth_label out # labels"] exI [of _ "q # qs"])
          (use dropped_gate_Suc [OF _ pass q(2,5)] in \<open>simp add: SAuth Suc\<close>)
    qed
  qed
qed simp

text \<open>
  A computation \<open>D\<close> that sends \<open>qs\<close> waits once for each request; dropped there, it has sent a prefix.
\<close>

definition waits_for ::
  "(nat \<Rightarrow> (('u, 'h, 'w) io + nat) option) \<Rightarrow> ('u, 'h) request list \<Rightarrow> ('u, 'h) request list \<Rightarrow> bool" where
  "waits_for D sent qs =
     (\<forall>n. if n < length qs then \<exists>sd. D n = Some (Inl sd) \<and> io_sent sd = sent @ take (Suc n) qs
          else D n = Some (Inr (n - length qs)))"

lemma waits_for_Nil: "(\<And>n. D n = Some (Inr n)) \<Longrightarrow> waits_for D sent []"
  by (simp add: waits_for_def)

lemma waits_for_Cons:
  assumes "D 0 = Some (Inl sd)" "io_sent sd = sent @ [q]" "\<And>n. D (Suc n) = E n" "waits_for E (sent @ [q]) qs"
  shows "waits_for D sent (q # qs)"
  unfolding waits_for_def
proof
  fix n
  show "if n < length (q # qs) then \<exists>sd. D n = Some (Inl sd) \<and> io_sent sd = sent @ take (Suc n) (q # qs)
      else D n = Some (Inr (n - length (q # qs)))"
    using assms by (cases n) (auto simp: waits_for_def split: if_splits)
qed

lemma run_steps_dropped_prefix:
  assumes laws: "http_laws L"
  shows "run_steps L ctx ss fin r s = Some (res, r', s') \<Longrightarrow>
     \<exists>qs. io_sent s' = io_sent s @ qs \<and> waits_for (\<lambda>n. run_steps_dropped L n ctx ss r s) (io_sent s) qs"
proof (induction ss arbitrary: r s)
  case (Cons st ss)
  show ?case
  proof (cases st)
    case (SHeader name val)
    with Cons.prems obtain p s1 where h: "handle_header L name val r s = Some (p, s1)"
      and rest: "run_steps L ctx ss fin (case p of Inl _ \<Rightarrow> r | Inr r1 \<Rightarrow> r1) s1 = Some (res, r', s')"
      by (auto split: option.splits sum.splits)
    from handle_header_effects [OF h] Cons.IH [OF rest] SHeader h show ?thesis by (simp add: same_effects_def)
  next
    case (SAuth cfg)
    let ?r1 = "scrub_identity_headers L r cfg" and ?D = "\<lambda>n. run_steps_dropped L n ctx (st # ss) r s"
    obtain out s1 where o: "resolve_auth L ctx ?r1 cfg s = (out, s1)" by fastforce
    let ?r2 = "case out of Allowed identity \<Rightarrow> apply_identity_headers L ?r1 identity | _ \<Rightarrow> ?r1"
    obtain q where q: "io_sent (resolve_auth_dropped L ctx ?r1 cfg s) = io_sent s @ [q]"
      using resolve_auth_dropped_frame(1) by metis
    then have s1: "io_sent s1 = io_sent s @ [q]"
      using o by (auto simp: resolve_auth_def resolve_auth_dropped_def Let_def split: sum.splits prod.splits)
    have D0: "?D 0 = Some (Inl (resolve_auth_dropped L ctx ?r1 cfg s))" by (simp add: SAuth)
    show ?thesis
    proof (cases "passes cfg (auth_label out)")
      case True
      then have "run_steps L ctx ss fin ?r2 s1 = Some (res, r', s')"
        using Cons.prems SAuth o by (cases out) (auto simp: passes_def auth_label_def Let_def split: if_splits)
      from Cons.IH [OF this] obtain qs where qs: "io_sent s' = io_sent s1 @ qs"
        "waits_for (\<lambda>n. run_steps_dropped L n ctx ss ?r2 s1) (io_sent s @ [q]) qs" unfolding s1 by auto
      have "waits_for ?D (io_sent s) (q # qs)"
        by (rule waits_for_Cons [where D = ?D, OF D0 q _ qs(2)]) (simp add: SAuth o True Let_def)
      with qs(1) s1 show ?thesis by (intro exI [of _ "q # qs"]) simp
    next
      case False
      then have "s' = s1"
        using Cons.prems SAuth o
        by (cases out; cases "fa_failure_mode cfg") (auto simp: passes_def auth_label_def Let_def)
      moreover have "waits_for ?D (io_sent s) [q]"
        by (rule waits_for_Cons [where D = ?D, OF D0 q _ waits_for_Nil [OF refl]]) (simp add: SAuth o False)
      ultimately show ?thesis using s1 by (intro exI [of _ "[q]"]) simp
    qed
  qed
qed (auto intro: waits_for_Nil)

section \<open>A cancelled request\<close>

lemma proxy_dropped_unfold:
  assumes laws: "http_laws L" and e: "ensure_request_id L req s0 = (rid0, r, s)"
    and g: "guards L req ra rid0 = (mg, lg)"
    and ctx: "ctx = \<lparr>ctx_original_uri = unwrap_or [] (uri_path_and_query L (req_uri req)), ctx_remote_addr = ra, ctx_is_tls = sec\<rparr>"
    and site: "find_site config (request_host L req) sec = Some site"
    and rt: "route (directives site) (req_method req) (uri_path L (req_uri req)) (uri_path L (req_uri req)) = (steps, fin)"
  shows "proxy_dropped L n req config ra sec s0 =
     (case run_steps_dropped L n ctx steps r (emit [ActiveRequestsInc] s) of
        Some (Inl s2) \<Rightarrow> Some (abandon mg lg s2)
      | Some (Inr 0) \<Rightarrow>
          (case run_steps L ctx steps fin r (emit [ActiveRequestsInc] s) of
             Some (Inr action, r2, s2) \<Rightarrow>
               execute_action_dropped L mg (guard_set_request_id (final_request_id L r2 rid0) lg) ra sec action r2 s2
           | _ \<Rightarrow> None)
      | _ \<Rightarrow> None)"
proof -
  note sp = ensure_request_id_spec [OF laws e]
  have mg: "mg = \<lparr>mg_method = req_method req, mg_site = request_host L req\<rparr>"
    and lg: "lg = access_log_guard_new rid0 ra (req_method req) (uri_path L (req_uri req)) (request_host L req)"
    using g by (simp_all add: guards_def)
  have dropped: "run_directives_dropped L n (directives site) r (uri_path L (req_uri req)) ctx (emit [ActiveRequestsInc] s)
      = run_steps_dropped L n ctx steps r (emit [ActiveRequestsInc] s)"
    using rt sp(3) by (simp add: run_directives_dropped_route [where cur = "uri_path L (req_uri req)"])
  have ended: "process_directives L (directives site) r (uri_path L (req_uri req)) ctx (emit [ActiveRequestsInc] s)
      = run_steps L ctx steps fin r (emit [ActiveRequestsInc] s)"
    using rt sp(3) by (simp add: process_directives_def run_directives_route)
  show ?thesis
    unfolding proxy_dropped_def e Let_def prod.case ensure_request_host [OF laws e] metrics_guard_new_def sp(3,4) mg lg
      site option.case ctx [symmetric] dropped ended by (rule refl)
qed

lemma proxy_dropped_no_site:
  assumes "http_laws L" "find_site config (request_host L req) sec = None"
  shows "proxy_dropped L n req config ra sec s0 = None"
proof -
  obtain rid0 r s where e: "ensure_request_id L req s0 = (rid0, r, s)" using prod_cases3 by blast
  show ?thesis
    using assms(2) by (simp add: proxy_dropped_def e ensure_request_host [OF assms(1) e] metrics_guard_new_def Let_def)
qed

lemma execute_action_dropped_spec:
  assumes laws: "http_laws L" and d: "execute_action_dropped L mg lg ra sec action r s = Some s'"
  obtains b s1 backend path ct tm up where
    "action = AR_ReverseProxy backend path ct tm up" "sends_upstream L ra sec backend path up r b"
    "io_sent s1 = io_sent s @ [b]" "io_metrics s1 = io_metrics s" "io_log s1 = io_log s" "s' = abandon mg lg s1"
proof -
  obtain backend path ct tm up b s1 where a: "action = AR_ReverseProxy backend path ct tm up"
    and o: "outbound_request L ra sec backend path up r s = Some (Inr (b, s1))"
    and s': "s' = abandon mg lg (snd (send_request L (unwrap_or 30 tm) b s1))"
    using d by (auto simp: execute_action_dropped_def split: action_result.splits option.splits sum.splits)
  obtain out s2 where "send_request L (unwrap_or 30 tm) b s1 = (out, s2)" by fastforce
  with a s' outbound_request_spec [OF laws o] outbound_request_effects [OF http_laws.axioms(1) [OF laws] o]
    send_request_frame [OF this] that show ?thesis
    by (auto simp: same_effects_def)
qed

text \<open>The access-log line of a request that was dropped.\<close>

definition dropped_entry :: "('u, 'h, 'w) lib \<Rightarrow> ('u, 'h) request \<Rightarrow> socket_addr \<Rightarrow> access_entry \<Rightarrow> bool" where
  "dropped_entry L req ra e =
     (le_method e = req_method req \<and> le_path e = uri_path L (req_uri req) \<and> le_host e = request_host L req
      \<and> le_remote e = show_ip (sa_ip ra) \<and> le_status e = 500 \<and> le_bytes_sent e = ''-'')"

lemma abandon_entry:
  assumes "guards L req ra rid0 = (mg, lg)"
  shows "io_metrics (abandon mg (guard_set_request_id rid lg) s) = io_metrics s @ [ActiveRequestsDec]"
    "io_sent (abandon mg (guard_set_request_id rid lg) s) = io_sent s"
    "\<exists>e. io_log (abandon mg (guard_set_request_id rid lg) s) = io_log s @ [e] \<and> dropped_entry L req ra e"
  using assms by (auto simp: guards_def abandon_def model_defs dropped_entry_def)

lemma guards_id: "guards L req ra rid0 = (mg, lg) \<Longrightarrow> guard_set_request_id rid0 lg = lg"
  by (auto simp: guards_def model_defs)

text \<open>Dropped while it waits for the backend: every service of the route passed.\<close>

lemma dropped_at_action:
  assumes laws: "http_laws L" and g: "guards L req ra rid0 = (mg, lg)"
    and rd: "run_steps_dropped L n ctx steps r s = Some (Inr 0)"
    and rs: "run_steps L ctx steps fin r s = Some (Inr action, r2, s2)"
    and ex: "execute_action_dropped L mg (guard_set_request_id rid lg) ra sec action r2 s2 = Some s'"
  obtains labels qs b e backend path ct tm up where
    "io_sent s' = io_sent s @ qs @ [b]" "length qs = n" "io_log s' = io_log s @ [e]" "dropped_entry L req ra e"
    "io_metrics s' = io_metrics s @ auth_metrics labels @ [ActiveRequestsDec]"
    "n = length (auths steps)" "list_all2 passes (auths steps) labels" "answered L (auths steps) qs labels"
    "fin = Inr (AR_ReverseProxy backend path ct tm up)" "sends_upstream L ra sec backend path up r2 b"
proof (rule execute_action_dropped_spec [OF laws ex], goal_cases)
  case (1 b s1 backend path ct tm up)
  obtain labels qs where q: "io_sent s2 = io_sent s @ qs" "io_metrics s2 = io_metrics s @ auth_metrics labels"
    "io_log s2 = io_log s" "answered L (auths steps) qs labels" "gate L (auths steps) fin qs (io_world s2) labels (Inr action)"
    using run_steps_gate [OF laws rs] by blast
  obtain qs' where "io_sent s2 = io_sent s @ qs'" "waits_for (\<lambda>n. run_steps_dropped L n ctx steps r s) (io_sent s) qs'"
    using run_steps_dropped_prefix [OF laws rs] by blast
  then have n: "n = length qs" using q(1) rd by (auto simp: waits_for_def dest!: spec [of _ n] split: if_splits)
  have fin: "list_all2 passes (auths steps) labels" "fin = Inr (AR_ReverseProxy backend path ct tm up)"
    using q(5) 1(2) by (auto simp: gate_def)
  have len: "length (auths steps) = length labels" using fin(1) by (rule list_all2_lengthD)
  obtain e where e: "io_log s' = io_log s1 @ [e]" "dropped_entry L req ra e" using abandon_entry(3) [OF g] 1(7) by blast
  moreover have "n = length (auths steps)" using n answered_calls [OF q(4)] len by (auto dest!: list_all2_lengthD)
  ultimately show ?case
    using that [of qs b e labels backend path ct tm up] q 1(2-7) fin len n
    by (simp add: abandon_entry(1,2) [OF g])
qed

lemma proxy_dropped_run:
  assumes laws: "http_laws L" and d: "proxy_dropped L n req config ra sec s0 = Some s'"
  obtains site steps fin labels qs e where
    "find_site config (request_host L req) sec = Some site"
    "route (directives site) (req_method req) (uri_path L (req_uri req)) (uri_path L (req_uri req)) = (steps, fin)"
    "io_sent s' = io_sent s0 @ qs" "length qs = Suc n" "io_log s' = io_log s0 @ [e]" "dropped_entry L req ra e"
    "io_metrics s' = io_metrics s0 @ [ActiveRequestsInc] @ auth_metrics labels @ [ActiveRequestsDec]"
    "dropped_gate L (auths steps) n labels qs
      \<or> n = length (auths steps) \<and> list_all2 passes (auths steps) labels \<and> answered L (auths steps) (butlast qs) labels
        \<and> (\<exists>backend path ct tm up. fin = Inr (AR_ReverseProxy backend path ct tm up)
             \<and> req_method (last qs) = req_method req \<and> req_body (last qs) = req_body req
             \<and> (valid_config L config \<longrightarrow> backend_call L ra sec steps backend path up req (last qs)))"
proof -
  obtain rid0 r s where e: "ensure_request_id L req s0 = (rid0, r, s)" using prod_cases3 by blast
  obtain mg lg where g: "guards L req ra rid0 = (mg, lg)" by fastforce
  obtain site where site: "find_site config (request_host L req) sec = Some site"
    using d proxy_dropped_no_site [OF laws] by fastforce
  obtain steps fin where rt: "route (directives site) (req_method req) (uri_path L (req_uri req)) (uri_path L (req_uri req)) = (steps, fin)"
    by fastforce
  note sp = ensure_request_id_spec [OF laws e] and ab = abandon_entry [OF g] guards_id [OF g]
  let ?ctx = "\<lparr>ctx_original_uri = unwrap_or [] (uri_path_and_query L (req_uri req)), ctx_remote_addr = ra, ctx_is_tls = sec\<rparr>"
  let ?s = "emit [ActiveRequestsInc] s"
  consider s2 where "run_steps_dropped L n ?ctx steps r ?s = Some (Inl s2)" "s' = abandon mg (guard_set_request_id rid0 lg) s2"
    | action r2 s2 where "run_steps_dropped L n ?ctx steps r ?s = Some (Inr 0)"
        "run_steps L ?ctx steps fin r ?s = Some (Inr action, r2, s2)"
        "execute_action_dropped L mg (guard_set_request_id (final_request_id L r2 rid0) lg) ra sec action r2 s2 = Some s'"
    using d [unfolded proxy_dropped_unfold [OF laws e g refl site rt]] ab(4)
    by (auto split: option.splits sum.splits nat.splits prod.splits)
  then show ?thesis
  proof cases
    case (1 s2)
    obtain labels qs where q: "io_sent s2 = io_sent ?s @ qs" "io_metrics s2 = io_metrics ?s @ auth_metrics labels"
      "io_log s2 = io_log ?s" "dropped_gate L (auths steps) n labels qs"
      using run_steps_dropped_gate [OF laws 1(1)] by blast
    obtain e where "io_log s' = io_log s2 @ [e]" "dropped_entry L req ra e" using ab(3) 1(2) by blast
    moreover have "length qs = Suc n" using q(4) by (auto simp: dropped_gate_def dest!: list_all2_lengthD)
    ultimately show ?thesis using that [OF site rt, of qs e labels] q sp(7-9) 1(2) by (simp add: ab(1,2))
  next
    case (2 action r2 s2)
    show ?thesis
    proof (rule dropped_at_action [OF laws g 2], goal_cases)
      case (1 labels qs b e backend path ct tm up)
      have m: "req_method b = req_method req" "req_body b = req_body req"
        using 1(10) run_steps_frame [OF http_laws.axioms(1) [OF laws] 2(2)] sp(3,5) by (auto simp: sends_upstream_def)
      have "backend_call L ra sec steps backend path up req b" if valid: "valid_config L config"
      proof (rule sends_upstream_call [OF laws _ 2(2) sp(3,4,5) _ 1(10)])
        show "names_valid L steps" using names_valid_route [OF valid _ rt] find_site_in [OF site] by blast
      qed (use sp(6) in blast)
      with 1 m sp(7-9) show ?thesis by (intro that [OF site rt, of "qs @ [b]" e labels]) auto
    qed
  qed
qed

text \<open>
  C10. A request that is cancelled, at whichever point it waits, leaves no trace but a proper one: it
  has called the authorization services of its route in order, each of which passed, and was
  waiting for the next one or, when all had passed and the route ends in a \<open>reverse_proxy\<close> directive,
  for the backend, with the client's method and body and, under a valid configuration, all that
  \<open>backend_call\<close> says of a completed one. It is logged once, as status 500 of unknown
  size, the gauge of active requests is lowered again, the services that answered are counted, each
  under the label of its answer, and the request itself is not.
\<close>

theorem proxy_dropped_accounts:
  assumes "http_laws L" and "proxy_dropped L n req config ra sec s0 = Some s'"
  shows "\<exists>site steps fin labels qs e.
     find_site config (request_host L req) sec = Some site
     \<and> route (directives site) (req_method req) (uri_path L (req_uri req)) (uri_path L (req_uri req)) = (steps, fin)
     \<and> io_sent s' = io_sent s0 @ qs \<and> length qs = Suc n \<and> io_log s' = io_log s0 @ [e] \<and> dropped_entry L req ra e
     \<and> io_metrics s' = io_metrics s0 @ [ActiveRequestsInc] @ auth_metrics labels @ [ActiveRequestsDec]
     \<and> answered L (auths steps) (butlast qs) labels
     \<and> (list_all2 passes (take n (auths steps)) labels \<and> list_all2 auth_call (take (Suc n) (auths steps)) qs
           \<and> n < length (auths steps)
        \<or> n = length (auths steps) \<and> list_all2 passes (auths steps) labels \<and> list_all2 auth_call (auths steps) (butlast qs)
           \<and> (\<exists>backend path ct tm up. fin = Inr (AR_ReverseProxy backend path ct tm up)
                \<and> req_method (last qs) = req_method req \<and> req_body (last qs) = req_body req
                \<and> (valid_config L config \<longrightarrow> backend_call L ra sec steps backend path up req (last qs))))"
proof (rule proxy_dropped_run [OF assms], goal_cases)
  case (1 site steps fin labels qs e)
  have "list_all2 auth_call (auths steps) (butlast qs)"
    if "answered L (auths steps) (butlast qs) labels" "list_all2 passes (auths steps) labels"
    using answered_calls [OF that(1)] list_all2_lengthD [OF that(2)] by simp
  with 1 show ?case
    by (intro exI [of _ site] exI [of _ steps] exI [of _ fin] exI [of _ labels] exI [of _ qs] exI [of _ e])
      (unfold dropped_gate_def, blast)
qed

theorem proxy_dropped_accounts_witness:
  "\<exists>sd e. proxy_dropped ref_lib 0 gated_request \<lparr>sites = [(''site'', gated_site)]\<rparr> sample_peer True (ref_io [] []) = Some sd
     \<and> length (io_sent sd) = 1 \<and> io_log sd = [e] \<and> le_status e = 500"
proof -
  let ?run = "proxy_dropped ref_lib 0 gated_request \<lparr>sites = [(''site'', gated_site)]\<rparr> sample_peer True (ref_io [] [])"
  have "?run \<noteq> None" by code_simp
  then obtain sd where sd: "?run = Some sd" by blast
  have "io_sent (ref_io [] []) = []" "io_log (ref_io [] []) = []" by (simp_all add: ref_io_def)
  with proxy_dropped_accounts [OF ref_http.http_laws_axioms sd] sd show ?thesis by (auto simp: dropped_entry_def)
qed

section \<open>Cancelled and completed\<close>

lemma proxy_none_sent:
  assumes laws: "http_laws L" and none: "find_site config (request_host L req) sec = None"
    and p: "proxy L req config ra sec s0 = Some (res, s')"
  shows "io_sent s' = io_sent s0"
proof -
  obtain rid0 r s where e: "ensure_request_id L req s0 = (rid0, r, s)" using prod_cases3 by blast
  obtain mg lg where g: "guards L req ra rid0 = (mg, lg)" by fastforce
  show ?thesis
    using p none ensure_request_id_spec(7) [OF laws e]
    by (auto simp: proxy_unfold [OF laws e g] finish_error_def split: prod.splits)
qed

lemma execute_action_dropped_rel:
  assumes hl: "header_laws L" and e: "execute_action L mg lg rid ra sec act r s = Some (res, s')"
  shows "case execute_action_dropped L mg lg' ra sec act r s of
      None \<Rightarrow> io_sent s' = io_sent s
    | Some sd \<Rightarrow> io_sent sd = io_sent s' \<and> (\<exists>b. io_sent s' = io_sent s @ [b])"
proof (cases act)
  case (AR_ReverseProxy backend path ct tm up)
  show ?thesis
  proof (cases "outbound_request L ra sec backend path up r s")
    case None
    then show ?thesis using e by (simp add: AR_ReverseProxy execute_action_def execute_reverse_proxy_def)
  next
    case (Some x)
    show ?thesis
    proof (cases x)
      case (Inr p)
      obtain b s1 where p: "p = (b, s1)" by fastforce
      obtain out s2 where snd: "send_request L (unwrap_or 30 tm) b s1 = (out, s2)" by fastforce
      have "io_sent s1 = io_sent s"
        using outbound_request_effects [OF hl Some [unfolded Inr p]] by (simp add: same_effects_def)
      moreover have "io_sent s' = io_sent s2"
        using e Some snd
        by (auto simp: AR_ReverseProxy Inr p execute_action_def execute_reverse_proxy_def finish_built_def finish_error_def
            split: client_outcome.splits sum.splits prod.splits)
      ultimately show ?thesis
        using Some send_request_frame [OF snd] by (simp add: AR_ReverseProxy execute_action_dropped_def Inr p snd)
    qed (use e Some in \<open>auto simp: AR_ReverseProxy execute_action_def execute_reverse_proxy_def execute_action_dropped_def\<close>)
  qed
qed (use e in \<open>auto simp: execute_action_def execute_action_dropped_def execute_redirect_def execute_respond_def
    execute_auth_denied_def finish_built_def Let_def split: sum.splits\<close>)

text \<open>A computation that waits for \<open>qs\<close>, followed by one that waits at most once.\<close>

lemma waits_then:
  assumes w: "waits_for D sent qs"
    and E: "\<And>n. E n = (case D n of Some (Inl s2) \<Rightarrow> Some (f s2) | Some (Inr 0) \<Rightarrow> final | _ \<Rightarrow> None)"
    and f: "\<And>s. io_sent (f s) = io_sent s"
    and final: "case final of None \<Rightarrow> sent' = sent @ qs | Some sd \<Rightarrow> io_sent sd = sent' \<and> (\<exists>b. sent' = sent @ qs @ [b])"
  shows "\<exists>qs'. sent' = sent @ qs' \<and> (\<forall>n. if n < length qs' then \<exists>sd. E n = Some sd \<and> io_sent sd = sent @ take (Suc n) qs' else E n = None)"
proof -
  have inside: "\<exists>sd. E n = Some sd \<and> io_sent sd = sent @ take (Suc n) qs" if "n < length qs" for n
    using w that f by (auto simp: E waits_for_def dest!: spec [of _ n])
  have rest: "D n = Some (Inr (n - length qs))" if "length qs \<le> n" for n using w that by (simp add: waits_for_def)
  have at_end: "E (length qs) = final" using rest [of "length qs"] by (simp add: E)
  have beyond: "E n = None" if "length qs < n" for n using rest [of n] that by (simp add: E split: nat.split)
  consider "final = None" "sent' = sent @ qs" | sd b where "final = Some sd" "io_sent sd = sent'" "sent' = sent @ (qs @ [b])"
    using final by (auto split: option.splits)
  then show ?thesis
  proof cases
    case 1
    have "if n < length qs then \<exists>sd. E n = Some sd \<and> io_sent sd = sent @ take (Suc n) qs else E n = None" for n
      using inside [of n] at_end beyond [of n] 1(1) by (cases "n = length qs") auto
    with 1 show ?thesis by blast
  next
    case 2
    have "if n < length (qs @ [b]) then \<exists>sd. E n = Some sd \<and> io_sent sd = sent @ take (Suc n) (qs @ [b]) else E n = None" for n
      using inside [of n] at_end beyond [of n] 2 by (cases "n = length qs") auto
    with 2 show ?thesis by blast
  qed
qed

text \<open>
  C11. A request that completes waits once for each request it sends: cancelled at its wait \<open>n\<close> instead,
  it would have sent exactly the first \<open>n + 1\<close> of them, and it cannot be cancelled anywhere else.
\<close>

theorem proxy_dropped_prefix:
  assumes laws: "http_laws L" and p: "proxy L req config ra sec s0 = Some (res, s')"
  shows "\<exists>qs. io_sent s' = io_sent s0 @ qs \<and>
     (\<forall>n. if n < length qs
          then \<exists>sd. proxy_dropped L n req config ra sec s0 = Some sd \<and> io_sent sd = io_sent s0 @ take (Suc n) qs
          else proxy_dropped L n req config ra sec s0 = None)"
proof (cases "find_site config (request_host L req) sec")
  case None
  then show ?thesis
    using proxy_none_sent [OF laws None p] proxy_dropped_no_site [OF laws None] by (intro exI [of _ "[]"]) simp
next
  case (Some site)
  note hl = http_laws.axioms(1) [OF laws]
  obtain rid0 r s where e: "ensure_request_id L req s0 = (rid0, r, s)" using prod_cases3 by blast
  obtain mg lg where g: "guards L req ra rid0 = (mg, lg)" by fastforce
  obtain steps fin where rt: "route (directives site) (req_method req) (uri_path L (req_uri req)) (uri_path L (req_uri req)) = (steps, fin)"
    by fastforce
  let ?ctx = "\<lparr>ctx_original_uri = unwrap_or [] (uri_path_and_query L (req_uri req)), ctx_remote_addr = ra, ctx_is_tls = sec\<rparr>"
  let ?s = "emit [ActiveRequestsInc] s" and ?D = "\<lambda>n. proxy_dropped L n req config ra sec s0"
  note sp = ensure_request_id_spec [OF laws e]
  note u = p [unfolded proxy_unfold [OF laws e g] Some option.case]
  note D = proxy_dropped_unfold [OF laws e g refl Some rt]
  obtain a r2 s2 where pd: "process_directives L (directives site) r (uri_path L (req_uri req)) ?ctx ?s = Some (a, r2, s2)"
    using u by (auto split: option.splits)
  then have steps: "run_steps L ?ctx steps fin r ?s = Some (a, r2, s2)"
    using rt sp(3) by (simp add: process_directives_def run_directives_route)
  obtain qs where qs: "io_sent s2 = io_sent s0 @ qs"
    "waits_for (\<lambda>n. run_steps_dropped L n ?ctx steps r ?s) (io_sent s0) qs"
    using run_steps_dropped_prefix [OF laws steps] sp(7) by auto
  let ?lg = "guard_set_request_id (final_request_id L r2 rid0) lg"
  let ?last = "case a of Inl _ \<Rightarrow> None | Inr act \<Rightarrow> execute_action_dropped L mg ?lg ra sec act r2 s2"
  have E: "?D n = (case run_steps_dropped L n ?ctx steps r ?s of
      Some (Inl s2) \<Rightarrow> Some (abandon mg lg s2) | Some (Inr 0) \<Rightarrow> ?last | _ \<Rightarrow> None)" for n
    unfolding D steps by (auto split: option.split sum.split nat.split)
  have "case ?last of None \<Rightarrow> io_sent s' = io_sent s0 @ qs
      | Some sd \<Rightarrow> io_sent sd = io_sent s' \<and> (\<exists>b. io_sent s' = io_sent s0 @ qs @ [b])"
    using u pd execute_action_dropped_rel [OF hl] qs(1)
    by (cases a) (fastforce simp: finish_error_def split: prod.splits option.splits)+
  from waits_then [OF qs(2) E _ this] show ?thesis by simp
qed

theorem proxy_dropped_prefix_witness:
  "\<exists>res s' q b sd. proxy ref_lib gated_request \<lparr>sites = [(''site'', gated_site)]\<rparr> sample_peer True
        (ref_io [] [Answer \<lparr>resp_status = 200, resp_headers = [], resp_body = []\<rparr>,
                    Answer \<lparr>resp_status = 201, resp_headers = [], resp_body = [Frame ''made'']\<rparr>]) = Some (res, s')
     \<and> io_sent s' = [q, b]
     \<and> proxy_dropped ref_lib 0 gated_request \<lparr>sites = [(''site'', gated_site)]\<rparr> sample_peer True
        (ref_io [] [Answer \<lparr>resp_status = 200, resp_headers = [], resp_body = []\<rparr>,
                    Answer \<lparr>resp_status = 201, resp_headers = [], resp_body = [Frame ''made'']\<rparr>]) = Some sd
     \<and> io_sent sd = [q]"
proof -
  let ?s = "ref_io [] [Answer \<lparr>resp_status = 200, resp_headers = [], resp_body = []\<rparr>,
      Answer \<lparr>resp_status = 201, resp_headers = [], resp_body = [Frame ''made'']\<rparr>]"
  let ?run = "proxy ref_lib gated_request \<lparr>sites = [(''site'', gated_site)]\<rparr> sample_peer True ?s"
  have "(case ?run of Some (res, s') \<Rightarrow> length (io_sent s') = 2 | _ \<Rightarrow> False)" by code_simp
  then obtain res s' where run: "?run = Some (res, s')" and len: "length (io_sent s') = 2"
    by (auto split: option.splits)
  have s0: "io_sent ?s = []" by (simp add: ref_io_def)
  obtain qs where qs: "io_sent s' = io_sent ?s @ qs" "\<And>n. if n < length qs
      then \<exists>sd. proxy_dropped ref_lib n gated_request \<lparr>sites = [(''site'', gated_site)]\<rparr> sample_peer True ?s = Some sd
        \<and> io_sent sd = io_sent ?s @ take (Suc n) qs
      else proxy_dropped ref_lib n gated_request \<lparr>sites = [(''site'', gated_site)]\<rparr> sample_peer True ?s = None"
    using proxy_dropped_prefix [OF ref_http.http_laws_axioms run] by blast
  obtain q b where sent: "io_sent s' = [q, b]" using len by (auto simp: length_Suc_conv numeral_2_eq_2)
  then have "qs = [q, b]" using qs(1) s0 by simp
  then obtain sd where "proxy_dropped ref_lib 0 gated_request \<lparr>sites = [(''site'', gated_site)]\<rparr> sample_peer True ?s = Some sd"
    "io_sent sd = [q]"
    using qs(2) [of 0] s0 by auto
  with run sent show ?thesis by blast
qed

end
