(* ===== verification/Runtime.thy ===== *)
theory Runtime
  imports Api Request_Cancel
begin

text \<open>
  The running server: the accept loops of \<open>src/proxy/proxy.rs\<close> (\<open>run_http_loop\<close>) and
  \<open>src/proxy/tls.rs\<close> (\<open>listen_tls\<close>), their connections, the requests in flight with the snapshot of
  the configuration each of them holds, the management API and the embedding program, as one
  transition system. A step is one event: a connection accepted, a handshake finished, a request
  arriving, answered or cancelled, a connection closed, a call of the API, a reload, a new
  concurrency limit, listeners started, bound, refused or failing. A listener that was started accepts
  connections only once it has bound its socket, on an address that no other listener holds. The effects of one request happen in the step
  that answers or cancels it. A connection that is closed while its request is in flight cancels
  the request where it waits. Connections of a redirect listener take no permit and change no
  state; what they answer is \<open>redirect_service\<close> of \<open>Tls\<close>.
\<close>

section \<open>State\<close>

datatype ('u, 'h) phase = Handshaking | Idle | Busy "('u, 'h) request" "'u config"

record ('u, 'h) conn =
  cn_peer :: socket_addr
  cn_tls :: bool
  cn_cell :: nat
  cn_sem :: nat
  cn_phase :: "('u, 'h) phase"

text \<open>
  A request that was handled, the configuration it was handled under, and what it did. The result
  is \<open>None\<close> when it was cancelled.
\<close>

record ('u, 'h, 'w) answer =
  an_req :: "('u, 'h) request"
  an_config :: "'u config"
  an_peer :: socket_addr
  an_tls :: bool
  an_before :: "('u, 'h, 'w) io"
  an_result :: "(proxy_failure + 'h response) option"
  an_after :: "('u, 'h, 'w) io"

record ('c, 's, 'u, 'h, 'w) runtime =
  rt_heap :: "'u heap"
  rt_proxy :: proxy_obj
  rt_spawned :: "('c, 's) listener list"
  rt_listeners :: "('c, 's) listener list"
  rt_conns :: "('u, 'h) conn list"
  rt_io :: "('u, 'h, 'w) io"
  rt_answers :: "('u, 'h, 'w) answer list"

section \<open>Events\<close>

definition drop_nth :: "nat \<Rightarrow> 'a list \<Rightarrow> 'a list" where
  "drop_nth i xs = take i xs @ drop (Suc i) xs"

text \<open>The task of a connection ends: its permit is dropped.\<close>

definition end_conn :: "nat \<Rightarrow> ('c, 's, 'u, 'h, 'w) runtime \<Rightarrow> ('c, 's, 'u, 'h, 'w) runtime" where
  "end_conn i rt =
     rt\<lparr>rt_heap := release (cn_sem (rt_conns rt ! i)) (rt_heap rt), rt_conns := drop_nth i (rt_conns rt)\<rparr>"

definition set_phase ::
  "nat \<Rightarrow> ('u, 'h) phase \<Rightarrow> ('c, 's, 'u, 'h, 'w) runtime \<Rightarrow> ('c, 's, 'u, 'h, 'w) runtime" where
  "set_phase i ph rt = rt\<lparr>rt_conns := (rt_conns rt)[i := (rt_conns rt ! i)\<lparr>cn_phase := ph\<rparr>]\<rparr>"

text \<open>One turn of the accept loop: without a permit the connection is dropped.\<close>

definition accept_conn ::
  "bool \<Rightarrow> socket_addr \<Rightarrow> nat \<Rightarrow> nat \<Rightarrow> ('c, 's, 'u, 'h, 'w) runtime \<Rightarrow> ('c, 's, 'u, 'h, 'w) runtime" where
  "accept_conn sec remote_addr cell k rt =
     (case try_acquire k (rt_heap rt) of
        Some H \<Rightarrow>
          rt\<lparr>rt_heap := H,
             rt_conns := rt_conns rt @
               [\<lparr>cn_peer = remote_addr, cn_tls = sec, cn_cell = cell, cn_sem = k,
                 cn_phase = (if sec then Handshaking else Idle)\<rparr>]\<rparr>
      | None \<Rightarrow> rt)"

definition run_http_loop ::
  "socket_addr \<Rightarrow> nat \<Rightarrow> nat \<Rightarrow> ('c, 's, 'u, 'h, 'w) runtime \<Rightarrow> ('c, 's, 'u, 'h, 'w) runtime" where
  "run_http_loop remote_addr cell k rt = accept_conn False remote_addr cell k rt"

definition listen_tls ::
  "socket_addr \<Rightarrow> nat \<Rightarrow> nat \<Rightarrow> ('c, 's, 'u, 'h, 'w) runtime \<Rightarrow> ('c, 's, 'u, 'h, 'w) runtime" where
  "listen_tls remote_addr cell k rt = accept_conn True remote_addr cell k rt"

definition finish_handshake ::
  "bool \<Rightarrow> nat \<Rightarrow> ('c, 's, 'u, 'h, 'w) runtime \<Rightarrow> ('c, 's, 'u, 'h, 'w) runtime" where
  "finish_handshake ok i rt =
     (if ok then (set_phase i Idle rt)\<lparr>rt_io := tls_handshake ''ok'' (rt_io rt)\<rparr>
      else (end_conn i rt)\<lparr>rt_io := tls_handshake ''fail'' (rt_io rt)\<rparr>)"

text \<open>The service of a connection: the snapshot is loaded when the request arrives.\<close>

definition begin_request ::
  "('u, 'h) request \<Rightarrow> nat \<Rightarrow> ('c, 's, 'u, 'h, 'w) runtime \<Rightarrow> ('c, 's, 'u, 'h, 'w) runtime" where
  "begin_request req i rt =
     (let snapshot = load_full (rt_heap rt) (cn_cell (rt_conns rt ! i))
      in set_phase i (Busy req snapshot) rt)"

text \<open>The end of a request, after which its connection stays open (\<open>keep\<close>) or ends.\<close>

definition leave_request ::
  "nat \<Rightarrow> ('u, 'h, 'w) answer \<Rightarrow> bool \<Rightarrow> ('c, 's, 'u, 'h, 'w) runtime \<Rightarrow> ('c, 's, 'u, 'h, 'w) runtime" where
  "leave_request i a keep rt =
     (let rt1 = rt\<lparr>rt_io := an_after a, rt_answers := rt_answers rt @ [a]\<rparr>
      in if keep then set_phase i Idle rt1 else end_conn i rt1)"

text \<open>A service that returns an error ends the connection.\<close>

definition end_request ::
  "('u, 'h, 'w) lib \<Rightarrow> nat \<Rightarrow> ('c, 's, 'u, 'h, 'w) runtime \<Rightarrow> ('c, 's, 'u, 'h, 'w) runtime option" where
  "end_request L i rt =
     (let c = rt_conns rt ! i
      in case cn_phase c of
           Busy req snapshot \<Rightarrow>
             (case proxy L req snapshot (cn_peer c) (cn_tls c) (rt_io rt) of
                None \<Rightarrow> None
              | Some (res, s) \<Rightarrow>
                  Some (leave_request i
                    \<lparr>an_req = req, an_config = snapshot, an_peer = cn_peer c, an_tls = cn_tls c,
                     an_before = rt_io rt, an_result = Some res, an_after = s\<rparr> (is_ok res) rt))
         | _ \<Rightarrow> None)"

text \<open>The client goes away while its request waits for the request number \<open>n\<close> that it sent.\<close>

definition cancel_request ::
  "('u, 'h, 'w) lib \<Rightarrow> nat \<Rightarrow> nat \<Rightarrow> ('c, 's, 'u, 'h, 'w) runtime \<Rightarrow> ('c, 's, 'u, 'h, 'w) runtime option" where
  "cancel_request L n i rt =
     (let c = rt_conns rt ! i
      in case cn_phase c of
           Busy req snapshot \<Rightarrow>
             map_option (\<lambda>s. leave_request i
                 \<lparr>an_req = req, an_config = snapshot, an_peer = cn_peer c, an_tls = cn_tls c,
                  an_before = rt_io rt, an_result = None, an_after = s\<rparr> False rt)
               (proxy_dropped L n req snapshot (cn_peer c) (cn_tls c) (rt_io rt))
         | _ \<Rightarrow> None)"

text \<open>The task of a started listener binds its socket, or ends when that is refused.\<close>

definition finish_bind ::
  "bool \<Rightarrow> ('c, 's) listener \<Rightarrow> ('c, 's, 'u, 'h, 'w) runtime \<Rightarrow> ('c, 's, 'u, 'h, 'w) runtime" where
  "finish_bind ok l rt =
     rt\<lparr>rt_spawned := remove1 l (rt_spawned rt),
        rt_listeners := (if ok then rt_listeners rt @ [l] else rt_listeners rt)\<rparr>"

text \<open>An error of \<open>accept\<close> ends the loop of a listener; its connections go on.\<close>

definition end_listener ::
  "('c, 's) listener \<Rightarrow> ('c, 's, 'u, 'h, 'w) runtime \<Rightarrow> ('c, 's, 'u, 'h, 'w) runtime" where
  "end_listener l rt = rt\<lparr>rt_listeners := remove1 l (rt_listeners rt)\<rparr>"

section \<open>Transitions\<close>

text \<open>
  \<open>own c\<close> holds of the configurations that the embedding program installs itself; \<open>order\<close> is the
  iteration order of the socket map, \<open>api_cell\<close> the cell the API server was started with.
\<close>

inductive server_step ::
  "('u, 'h, 'w) lib \<Rightarrow> 'u json_lib \<Rightarrow> ('c, 'k, 's) tls_lib \<Rightarrow> ('u socket_groups \<Rightarrow> 'u socket_groups)
     \<Rightarrow> nat \<Rightarrow> ('u config \<Rightarrow> bool)
     \<Rightarrow> ('c, 's, 'u, 'h, 'w) runtime \<Rightarrow> ('c, 's, 'u, 'h, 'w) runtime \<Rightarrow> bool"
  for L J T order api_cell own where
  start_listeners: "start_all T order (rt_proxy rt) (rt_heap rt) = (ls, res) \<Longrightarrow>
    server_step L J T order api_cell own rt (rt\<lparr>rt_spawned := rt_spawned rt @ ls\<rparr>)"
| start_listener: "start T (rt_proxy rt) (rt_heap rt) addr = Inr l \<Longrightarrow>
    server_step L J T order api_cell own rt (rt\<lparr>rt_spawned := rt_spawned rt @ [l]\<rparr>)"
| bind_ok: "l \<in> set (rt_spawned rt) \<Longrightarrow> listener_addr l \<notin> listener_addr ` set (rt_listeners rt) \<Longrightarrow>
    server_step L J T order api_cell own rt (finish_bind True l rt)"
| bind_error: "l \<in> set (rt_spawned rt) \<Longrightarrow>
    server_step L J T order api_cell own rt (finish_bind False l rt)"
| accept_http: "HttpListener a cell k \<in> set (rt_listeners rt) \<Longrightarrow>
    server_step L J T order api_cell own rt (run_http_loop peer cell k rt)"
| accept_tls: "TlsListener a R cell k \<in> set (rt_listeners rt) \<Longrightarrow>
    server_step L J T order api_cell own rt (listen_tls peer cell k rt)"
| handshake: "i < length (rt_conns rt) \<Longrightarrow> cn_phase (rt_conns rt ! i) = Handshaking \<Longrightarrow>
    server_step L J T order api_cell own rt (finish_handshake ok i rt)"
| request_in: "i < length (rt_conns rt) \<Longrightarrow> cn_phase (rt_conns rt ! i) = Idle \<Longrightarrow>
    server_step L J T order api_cell own rt (begin_request req i rt)"
| answer_out: "i < length (rt_conns rt) \<Longrightarrow> end_request L i rt = Some rt' \<Longrightarrow>
    server_step L J T order api_cell own rt rt'"
| cancel: "i < length (rt_conns rt) \<Longrightarrow> cancel_request L n i rt = Some rt' \<Longrightarrow>
    server_step L J T order api_cell own rt rt'"
| listener_error: "l \<in> set (rt_listeners rt) \<Longrightarrow>
    server_step L J T order api_cell own rt (end_listener l rt)"
| close_conn: "i < length (rt_conns rt) \<Longrightarrow> cn_phase (rt_conns rt ! i) = Idle \<Longrightarrow>
    server_step L J T order api_cell own rt (end_conn i rt)"
| api_request: "handle_api_request L J req api_cell (rt_heap rt) = (res, H) \<Longrightarrow>
    server_step L J T order api_cell own rt (rt\<lparr>rt_heap := H\<rparr>)"
| reload: "own c \<Longrightarrow>
    server_step L J T order api_cell own rt (rt\<lparr>rt_heap := update_config c (rt_proxy rt) (rt_heap rt)\<rparr>)"
| resize: "set_max_concurrency n (rt_proxy rt) (rt_heap rt) = Some (p, H) \<Longrightarrow>
    server_step L J T order api_cell own rt (rt\<lparr>rt_proxy := p, rt_heap := H\<rparr>)"

text \<open>A proxy that was just created.\<close>

definition fresh_server ::
  "string option \<Rightarrow> u64 \<Rightarrow> 'u config \<Rightarrow> ('u, 'h, 'w) io \<Rightarrow> ('c, 's, 'u, 'h, 'w) runtime option" where
  "fresh_server var num_cpus c s =
     map_option (\<lambda>(p, H). \<lparr>rt_heap = H, rt_proxy = p, rt_spawned = [], rt_listeners = [], rt_conns = [], rt_io = s, rt_answers = []\<rparr>)
       (proxy_new var num_cpus c \<lparr>cells = [], sems = []\<rparr>)"

end
