(* ===== verification/Runtime_Props.thy ===== *)
theory Runtime_Props
  imports Runtime
begin

text \<open>
  Properties of the running server, over all sequences of events: connections never exceed the
  limit and no permit is lost, capacity is recovered, every request is handled under one
  configuration that was installed, nothing leaves the process but what a route of that
  configuration calls for, and every request is logged once.
\<close>

section \<open>Invariants of a transition system\<close>

locale step_invariant =
  fixes R :: "'s \<Rightarrow> 's \<Rightarrow> bool" and Inv :: "'s \<Rightarrow> bool"
  assumes step: "R s t \<Longrightarrow> Inv s \<Longrightarrow> Inv t"
begin

lemma reach: "R\<^sup>*\<^sup>* s t \<Longrightarrow> Inv s \<Longrightarrow> Inv t"
  by (induction rule: rtranclp_induct) (auto intro: step)

end

section \<open>Permits\<close>

definition holders :: "nat \<Rightarrow> ('u, 'h) conn list \<Rightarrow> nat" where
  "holders k cs = count_list (map cn_sem cs) k"

definition permits_ok :: "('c, 's, 'u, 'h, 'w) runtime \<Rightarrow> bool" where
  "permits_ok rt =
     (list_all (\<lambda>c. cn_sem c < length (sems (rt_heap rt))) (rt_conns rt) \<and>
      (\<forall>k < length (sems (rt_heap rt)).
         sem_available (sems (rt_heap rt) ! k) + holders k (rt_conns rt) = sem_size (sems (rt_heap rt) ! k)))"

text \<open>The handles of the proxy object and of the listeners point to objects of the heap.\<close>

fun listener_ok :: "'u heap \<Rightarrow> ('c, 's) listener \<Rightarrow> bool" where
  "listener_ok H (HttpListener a cell k) = (cell < length (cells H) \<and> k < length (sems H))"
| "listener_ok H (TlsListener a R cell k) = (cell < length (cells H) \<and> k < length (sems H))"
| "listener_ok H (RedirectListener a p) = True"

definition handles_ok :: "('c, 's, 'u, 'h, 'w) runtime \<Rightarrow> bool" where
  "handles_ok rt =
     (px_config (rt_proxy rt) < length (cells (rt_heap rt)) \<and> px_semaphore (rt_proxy rt) < length (sems (rt_heap rt)) \<and>
      list_all (listener_ok (rt_heap rt)) (rt_spawned rt) \<and> list_all (listener_ok (rt_heap rt)) (rt_listeners rt) \<and>
      list_all (\<lambda>c. cn_cell c < length (cells (rt_heap rt))) (rt_conns rt))"

lemma holders_simps [simp]:
  "holders k [] = 0" "holders k (c # cs) = (if cn_sem c = k then 1 else 0) + holders k cs"
  "holders k (xs @ ys) = holders k xs + holders k ys"
  by (simp_all add: holders_def)

lemma split_nth: "i < length xs \<Longrightarrow> xs = take i xs @ xs ! i # drop (Suc i) xs"
  by (simp add: id_take_nth_drop)

lemma holders_drop_nth:
  "i < length cs \<Longrightarrow> holders k cs = holders k (drop_nth i cs) + (if cn_sem (cs ! i) = k then 1 else 0)"
  by (subst split_nth [of i cs]) (auto simp: drop_nth_def)

lemma set_drop_nth: "set (drop_nth i xs) \<subseteq> set xs"
  by (auto simp: drop_nth_def dest: in_set_takeD in_set_dropD)

lemma map_set_phase:
  "i < length cs \<Longrightarrow> f (cs ! i) = f ((cs ! i)\<lparr>cn_phase := ph\<rparr>) \<Longrightarrow> map f (cs[i := (cs ! i)\<lparr>cn_phase := ph\<rparr>]) = map f cs"
  by (metis list_update_id map_update)

lemma holders_phase [simp]: "i < length cs \<Longrightarrow> holders k (cs[i := (cs ! i)\<lparr>cn_phase := ph\<rparr>]) = holders k cs"
  by (simp add: holders_def map_set_phase)

lemma list_all_phase:
  assumes "i < length cs" "P (cs ! i) = P ((cs ! i)\<lparr>cn_phase := ph\<rparr>)"
  shows "list_all P (cs[i := (cs ! i)\<lparr>cn_phase := ph\<rparr>]) = list_all P cs"
proof -
  have "list_all P xs = list_all (\<lambda>b. b) (map P xs)" for xs by (simp add: list.pred_map comp_def)
  then show ?thesis by (simp add: map_set_phase [where f = P, OF assms])
qed

section \<open>The heap\<close>

lemma heap_frame [simp]:
  "sems (store cell c H) = sems H" "length (cells (store cell c H)) = length (cells H)"
  "cells (release k H) = cells H" "length (sems (release k H)) = length (sems H)"
  by (simp_all add: store_def release_def)

lemma try_acquire_SomeD:
  "try_acquire k H = Some H' \<Longrightarrow> cells H' = cells H \<and> 0 < sem_available (sems H ! k)
     \<and> sems H' = (sems H)[k := (sems H ! k)\<lparr>sem_available := sem_available (sems H ! k) - 1\<rparr>]"
  by (auto simp: try_acquire_def Let_def split: if_splits)

lemma listener_ok_mono:
  "length (cells H) \<le> length (cells H') \<Longrightarrow> length (sems H) \<le> length (sems H') \<Longrightarrow> listener_ok H l \<Longrightarrow> listener_ok H' l"
  by (cases l) auto

lemma api_heap_frame:
  assumes "handle_api_request L J req cell H = (res, H')"
  shows "sems H' = sems H" "length (cells H') = length (cells H)"
    "H' = H \<or> (\<exists>c. posted_config L J req = Some c \<and> H' = store cell c H)"
  using api_request_effect [of L J req cell H] assms by (auto split: option.splits)

section \<open>Every event keeps the permits\<close>

definition server_ok :: "('c, 's, 'u, 'h, 'w) runtime \<Rightarrow> bool" where
  "server_ok rt = (permits_ok rt \<and> handles_ok rt)"

lemma server_ok_cong:
  "rt_heap rt' = rt_heap rt \<Longrightarrow> rt_proxy rt' = rt_proxy rt \<Longrightarrow> rt_spawned rt' = rt_spawned rt \<Longrightarrow> rt_listeners rt' = rt_listeners rt \<Longrightarrow>
   rt_conns rt' = rt_conns rt \<Longrightarrow> server_ok rt' = server_ok rt"
  by (simp add: server_ok_def permits_ok_def handles_ok_def)

lemma server_ok_set_phase: "i < length (rt_conns rt) \<Longrightarrow> server_ok (set_phase i ph rt) = server_ok rt"
  by (simp add: server_ok_def permits_ok_def handles_ok_def set_phase_def list_all_phase)

lemma server_ok_end_conn:
  assumes i: "i < length (rt_conns rt)" and ok: "server_ok rt"
  shows "server_ok (end_conn i rt)"
proof -
  let ?k = "cn_sem (rt_conns rt ! i)"
  have k: "?k < length (sems (rt_heap rt))"
    using ok i by (simp add: server_ok_def permits_ok_def list_all_length)
  have sub: "list_all P (drop_nth i (rt_conns rt))" if "list_all P (rt_conns rt)" for P
    using that set_drop_nth [of i "rt_conns rt"] by (auto simp: list_all_iff)
  have "\<forall>j < length (sems (release ?k (rt_heap rt))). sem_available (sems (release ?k (rt_heap rt)) ! j)
      + holders j (drop_nth i (rt_conns rt)) = sem_size (sems (release ?k (rt_heap rt)) ! j)"
    using ok k holders_drop_nth [OF i]
    by (intro permits.balance_give_back [where held = "\<lambda>j. holders j (rt_conns rt)"])
      (simp_all add: server_ok_def permits_ok_def)
  moreover have "list_all (listener_ok (release ?k (rt_heap rt))) (rt_spawned rt @ rt_listeners rt)"
    using ok listener_ok_mono [of "rt_heap rt" "release ?k (rt_heap rt)"] by (auto simp: server_ok_def handles_ok_def list_all_iff)
  ultimately show ?thesis
    using ok sub by (simp add: server_ok_def permits_ok_def handles_ok_def end_conn_def)
qed

lemma server_ok_accept:
  assumes ok: "server_ok rt" and l: "cell < length (cells (rt_heap rt))" "k < length (sems (rt_heap rt))"
  shows "server_ok (accept_conn sec peer cell k rt)"
proof (cases "try_acquire k (rt_heap rt)")
  case (Some H)
  note H = try_acquire_SomeD [OF Some]
  have "list_all (listener_ok H) (rt_spawned rt @ rt_listeners rt)"
    using ok H listener_ok_mono [of "rt_heap rt" H] by (auto simp: server_ok_def handles_ok_def list_all_iff)
  moreover have "\<forall>j < length (sems H). sem_available (sems H ! j) + (holders j (rt_conns rt) + (if k = j then 1 else 0))
      = sem_size (sems H ! j)"
    using ok l(2) Some by (intro permits.balance_acquire) (simp_all add: server_ok_def permits_ok_def)
  ultimately show ?thesis
    using ok l H Some by (simp add: server_ok_def permits_ok_def handles_ok_def accept_conn_def)
qed (simp add: ok accept_conn_def)

lemma server_ok_heap:
  assumes ok: "server_ok rt" and "sems H = sems (rt_heap rt)" "length (cells H) = length (cells (rt_heap rt))"
  shows "server_ok (rt\<lparr>rt_heap := H\<rparr>)"
  using assms listener_ok_mono [of "rt_heap rt" H] by (auto simp: server_ok_def permits_ok_def handles_ok_def list_all_iff)

lemma server_ok_listeners:
  "server_ok rt \<Longrightarrow> list_all (listener_ok (rt_heap rt)) ls \<Longrightarrow> server_ok (rt\<lparr>rt_spawned := rt_spawned rt @ ls\<rparr>)"
  by (simp add: server_ok_def permits_ok_def handles_ok_def)

lemma server_ok_bind: "server_ok rt \<Longrightarrow> l \<in> set (rt_spawned rt) \<Longrightarrow> server_ok (finish_bind ok l rt)"
  by (auto simp: server_ok_def permits_ok_def handles_ok_def finish_bind_def list_all_iff dest: notin_set_remove1)

text \<open>A listener that serves requests holds the handles of the proxy object that started it.\<close>

fun of_proxy :: "proxy_obj \<Rightarrow> ('c, 's) listener \<Rightarrow> bool" where
  "of_proxy p (HttpListener a cell k) = (cell = px_config p \<and> k = px_semaphore p)"
| "of_proxy p (TlsListener a R cell k) = (cell = px_config p \<and> k = px_semaphore p)"
| "of_proxy p (RedirectListener a tls_port) = True"

fun listener_cell :: "('c, 's) listener \<Rightarrow> nat option" where
  "listener_cell (HttpListener a cell k) = Some cell"
| "listener_cell (TlsListener a R cell k) = Some cell"
| "listener_cell (RedirectListener a tls_port) = None"

lemma of_proxy_cell: "of_proxy p l \<Longrightarrow> listener_cell l = Some cell \<Longrightarrow> cell = px_config p"
  by (cases l) auto

lemma of_proxy_ok:
  "of_proxy p l \<Longrightarrow> px_config p < length (cells H) \<Longrightarrow> px_semaphore p < length (sems H) \<Longrightarrow> listener_ok H l"
  by (cases l) auto

lemma started_of_proxy:
  shows "start T p H addr = Inr l \<Longrightarrow> of_proxy p l"
    and "list_all (of_proxy p) (fst (start_all T order p H))"
proof -
  have tls: "start_tls T p a xs = Inr l \<Longrightarrow> of_proxy p l" for a xs l
    by (auto simp: start_tls_def res_bind_Inr_iff)
  have gl: "group_listener T p a ss l \<Longrightarrow> of_proxy p l" for a and ss :: "'u site_config list" and l
    using tls by (auto simp: start_http_def elim!: group_listener.cases)
  show "start T p H addr = Inr l \<Longrightarrow> of_proxy p l"
    using tls by (auto simp: start_def start_with_addr_def start_http_def Let_def split: option.splits if_splits)
  show "list_all (of_proxy p) (fst (start_all T order p H))"
  proof (cases "group_sites (sites_values (load_full H (px_config p))) []")
    case (Inr g)
    obtain ls rs res where st: "start_groups T p (order g) = (ls, rs, res)" by (metis prod_cases3)
    have "list_all (of_proxy p) ls" using start_groups_sound [OF st] gl by (fastforce simp: list_all_iff)
    then show ?thesis using Inr st by (auto simp: start_all_def list_all_iff split: sum.splits)
  qed (simp add: start_all_def)
qed

lemma server_ok_resize:
  assumes ok: "server_ok rt" and r: "set_max_concurrency n (rt_proxy rt) (rt_heap rt) = Some (p, H)"
  shows "server_ok (rt\<lparr>rt_proxy := p, rt_heap := H\<rparr>)"
proof -
  obtain k where k: "semaphore_new n (rt_heap rt) = Some (k, H)" "p = (rt_proxy rt)\<lparr>px_max_concurrency := n, px_semaphore := k\<rparr>"
    using r by (auto simp: set_max_concurrency_def)
  note H = semaphore_new_SomeD [OF k(1)]
  have conns: "\<forall>c \<in> set (rt_conns rt). cn_sem c < length (sems (rt_heap rt))"
    using ok by (auto simp: server_ok_def permits_ok_def list_all_iff)
  then have "holders (length (sems (rt_heap rt))) (rt_conns rt) = 0"
    by (force simp: holders_def count_list_0_iff)
  moreover have "list_all (listener_ok H) (rt_spawned rt @ rt_listeners rt)"
    using ok H listener_ok_mono [of "rt_heap rt" H] by (auto simp: server_ok_def handles_ok_def list_all_iff)
  ultimately show ?thesis
    using ok H k(2) conns
    by (auto simp: server_ok_def permits_ok_def handles_ok_def nth_append less_Suc_eq list_all_iff)
qed

text \<open>
  A request ends answered, with what \<open>proxy\<close> does, or cancelled, with what it had done up to the point
  where it waited.
\<close>

definition answer_ok :: "('u, 'h, 'w) lib \<Rightarrow> ('u, 'h, 'w) answer \<Rightarrow> bool" where
  "answer_ok L a =
     (case an_result a of
        Some res \<Rightarrow> proxy L (an_req a) (an_config a) (an_peer a) (an_tls a) (an_before a) = Some (res, an_after a)
      | None \<Rightarrow> \<exists>n. proxy_dropped L n (an_req a) (an_config a) (an_peer a) (an_tls a) (an_before a) = Some (an_after a))"

definition leaves ::
  "('u, 'h, 'w) lib \<Rightarrow> nat \<Rightarrow> ('u, 'h, 'w) answer \<Rightarrow> ('c, 's, 'u, 'h, 'w) runtime \<Rightarrow> ('c, 's, 'u, 'h, 'w) runtime \<Rightarrow> bool" where
  "leaves L i a rt rt' =
     (cn_phase (rt_conns rt ! i) = Busy (an_req a) (an_config a) \<and> an_before a = rt_io rt \<and> answer_ok L a
      \<and> (\<exists>keep. rt' = leave_request i a keep rt))"

lemma leavesI:
  assumes "cn_phase (rt_conns rt ! i) = Busy req c" "an_req a = req" "an_config a = c" "an_before a = rt_io rt" "answer_ok L a"
    "rt' = leave_request i a keep rt"
  shows "\<exists>a. leaves L i a rt rt'"
  using assms unfolding leaves_def by blast

lemma end_request_leaves:
  assumes "end_request L i rt = Some rt'"
  shows "\<exists>a. leaves L i a rt rt'"
proof (cases "cn_phase (rt_conns rt ! i)")
  case (Busy req c)
  with assms obtain res s where p: "proxy L req c (cn_peer (rt_conns rt ! i)) (cn_tls (rt_conns rt ! i)) (rt_io rt) = Some (res, s)"
    by (auto simp: end_request_def Let_def split: option.splits)
  with assms Busy show ?thesis
    by (intro leavesI [OF Busy]) (auto simp: end_request_def Let_def answer_ok_def)
qed (use assms in \<open>simp_all add: end_request_def Let_def\<close>)

lemma cancel_request_leaves:
  assumes "cancel_request L n i rt = Some rt'"
  shows "\<exists>a. leaves L i a rt rt'"
proof (cases "cn_phase (rt_conns rt ! i)")
  case (Busy req c)
  with assms obtain s where p: "proxy_dropped L n req c (cn_peer (rt_conns rt ! i)) (cn_tls (rt_conns rt ! i)) (rt_io rt) = Some s"
    by (auto simp: cancel_request_def Let_def)
  with assms Busy show ?thesis
    by (intro leavesI [OF Busy]) (auto simp: cancel_request_def Let_def answer_ok_def)
qed (use assms in \<open>simp_all add: cancel_request_def Let_def\<close>)

lemma server_ok_leave:
  assumes "i < length (rt_conns rt)" "server_ok rt"
  shows "server_ok (leave_request i a keep rt)"
proof -
  let ?rt1 = "rt\<lparr>rt_io := an_after a, rt_answers := rt_answers rt @ [a]\<rparr>"
  have "server_ok ?rt1 = server_ok rt" by (rule server_ok_cong) simp_all
  then show ?thesis
    using assms server_ok_set_phase [of i ?rt1] server_ok_end_conn [of i ?rt1] by (simp add: leave_request_def Let_def)
qed

lemma server_ok_step:
  assumes "server_step L J T order api_cell own rt rt'" "server_ok rt"
  shows "server_ok rt'"
  using assms
proof (induction rule: server_step.induct)
  case (start_listeners rt ls res)
  then show ?case
    using started_of_proxy(2) [of "rt_proxy rt" T order "rt_heap rt"]
    by (intro server_ok_listeners) (auto simp: server_ok_def handles_ok_def list_all_iff of_proxy_ok)
next
  case (start_listener rt addr l)
  then show ?case
    using started_of_proxy(1) [of T "rt_proxy rt" "rt_heap rt" addr]
    by (intro server_ok_listeners) (simp_all add: server_ok_def handles_ok_def of_proxy_ok)
next
  case (bind_ok l rt)
  then show ?case by (simp add: server_ok_bind)
next
  case (bind_error l rt)
  then show ?case by (simp add: server_ok_bind)
next
  case (accept_http a cell k rt peer)
  then have "listener_ok (rt_heap rt) (HttpListener a cell k :: ('c, 's) listener)"
    by (auto simp: server_ok_def handles_ok_def list_all_iff)
  with accept_http show ?case by (simp add: run_http_loop_def server_ok_accept)
next
  case (accept_tls a R cell k rt peer)
  then have "listener_ok (rt_heap rt) (TlsListener a R cell k)"
    by (auto simp: server_ok_def handles_ok_def list_all_iff)
  with accept_tls show ?case by (simp add: listen_tls_def server_ok_accept)
next
  case (handshake i rt ok)
  let ?idle = "(set_phase i Idle rt)\<lparr>rt_io := tls_handshake ''ok'' (rt_io rt)\<rparr>"
  let ?gone = "(end_conn i rt)\<lparr>rt_io := tls_handshake ''fail'' (rt_io rt)\<rparr>"
  have "server_ok ?idle = server_ok (set_phase i Idle rt)" "server_ok ?gone = server_ok (end_conn i rt)"
    by (rule server_ok_cong; simp)+
  then show ?case
    using handshake by (simp add: finish_handshake_def server_ok_set_phase server_ok_end_conn)
next
  case (request_in i rt req)
  then show ?case by (simp add: begin_request_def server_ok_set_phase)
next
  case (answer_out i rt rt')
  then show ?case using end_request_leaves [OF answer_out(2)] server_ok_leave by (auto simp: leaves_def)
next
  case (cancel i rt n rt')
  then show ?case using cancel_request_leaves [OF cancel(2)] server_ok_leave by (auto simp: leaves_def)
next
  case (listener_error l rt)
  then show ?case
    by (auto simp: server_ok_def permits_ok_def handles_ok_def end_listener_def list_all_iff dest: notin_set_remove1)
next
  case (close_conn i rt)
  then show ?case by (simp add: server_ok_end_conn)
next
  case (api_request req rt res H)
  then show ?case using api_heap_frame [OF api_request(1)] by (intro server_ok_heap) simp_all
next
  case (reload c rt)
  then show ?case by (intro server_ok_heap) (simp_all add: update_config_def)
next
  case (resize n rt p H)
  then show ?case by (intro server_ok_resize)
qed

interpretation server: step_invariant "server_step L J T order api_cell own" server_ok
  for L J T order api_cell own
  by unfold_locales (rule server_ok_step)

lemma fresh_server_ok:
  fixes rt :: "('c, 's, 'u, 'h, 'w) runtime"
  assumes "fresh_server var num_cpus c s = Some rt"
  shows "server_ok rt"
    and "rt_conns rt = []" "rt_answers rt = []" "rt_io rt = s" "cells (rt_heap rt) = [c]" "rt_listeners rt = []" "rt_spawned rt = []"
proof -
  obtain k and H :: "'u heap" where k: "semaphore_new (initial_concurrency var num_cpus) \<lparr>cells = [], sems = []\<rparr> = Some (k, H)"
    using assms by (auto simp: fresh_server_def proxy_new_def Let_def)
  note H = semaphore_new_SomeD [OF k]
  have rt: "rt = \<lparr>rt_heap = H\<lparr>cells := [c]\<rparr>, rt_proxy = \<lparr>px_config = 0,
      px_max_concurrency = initial_concurrency var num_cpus, px_semaphore = 0\<rparr>, rt_spawned = [], rt_listeners = [], rt_conns = [],
      rt_io = s, rt_answers = []\<rparr>"
    using assms k H by (simp add: fresh_server_def proxy_new_def Let_def arc_swap_new_def)
  show "server_ok rt" using H by (simp add: rt server_ok_def permits_ok_def handles_ok_def)
  show "rt_conns rt = []" "rt_answers rt = []" "rt_io rt = s" "cells (rt_heap rt) = [c]" "rt_listeners rt = []" "rt_spawned rt = []"
    by (simp_all add: rt)
qed

section \<open>Connections\<close>

lemma accept_conn_length:
  assumes "permits_ok rt" "k < length (sems (rt_heap rt))"
  shows "rt_conns (accept_conn sec peer cell k rt) = rt_conns rt @
    (if holders k (rt_conns rt) < sem_size (sems (rt_heap rt) ! k)
     then [\<lparr>cn_peer = peer, cn_tls = sec, cn_cell = cell, cn_sem = k, cn_phase = (if sec then Handshaking else Idle)\<rparr>] else [])"
  using assms permits.acquire_iff [of "rt_heap rt" k "holders k (rt_conns rt)"]
  by (auto simp: accept_conn_def permits_ok_def split: option.splits)

text \<open>
  C7. Whatever the order of events, the connections that a semaphore admitted and that are still
  open, plus the permits it has left, are the limit it was created with: the limit is never
  exceeded and no permit is ever lost, also over failed handshakes, handler errors, cancelled
  requests and changes of the limit. A new connection is admitted exactly while the open ones are fewer than the limit;
  otherwise it is dropped and nothing changes.
\<close>

theorem connections_bounded:
  assumes "fresh_server var num_cpus c s = Some rt0"
    and "(server_step L J T order api_cell own)\<^sup>*\<^sup>* rt0 rt"
    and k: "k < length (sems (rt_heap rt))"
  shows "holders k (rt_conns rt) + sem_available (sems (rt_heap rt) ! k) = sem_size (sems (rt_heap rt) ! k)
     \<and> (if holders k (rt_conns rt) < sem_size (sems (rt_heap rt) ! k)
        then rt_conns (accept_conn sec peer cell k rt) = rt_conns rt @ [\<lparr>cn_peer = peer, cn_tls = sec,
               cn_cell = cell, cn_sem = k, cn_phase = (if sec then Handshaking else Idle)\<rparr>]
        else accept_conn sec peer cell k rt = rt)"
proof -
  have ok: "permits_ok rt"
    using server.reach [OF assms(2) fresh_server_ok(1) [OF assms(1)]] by (simp add: server_ok_def)
  then have sum: "sem_available (sems (rt_heap rt) ! k) + holders k (rt_conns rt) = sem_size (sems (rt_heap rt) ! k)"
    using k by (simp add: permits_ok_def)
  then have "accept_conn sec peer cell k rt = rt" if "\<not> holders k (rt_conns rt) < sem_size (sems (rt_heap rt) ! k)"
    using that permits.acquire_iff [OF sum] by (simp add: accept_conn_def)
  then show ?thesis using sum accept_conn_length [OF ok k] by simp
qed

section \<open>Capacity is recovered\<close>

definition in_flight_return :: "('u, 'h, 'w) lib \<Rightarrow> ('c, 's, 'u, 'h, 'w) runtime \<Rightarrow> bool" where
  "in_flight_return L rt =
     (\<forall>c \<in> set (rt_conns rt). \<forall>req cfg s. cn_phase c = Busy req cfg \<longrightarrow>
        proxy L req cfg (cn_peer c) (cn_tls c) s \<noteq> None \<or> (\<exists>n. proxy_dropped L n req cfg (cn_peer c) (cn_tls c) s \<noteq> None))"

lemma in_flight_leaves:
  assumes i: "i < length (rt_conns rt)" "cn_phase (rt_conns rt ! i) = Busy req cfg" and ret: "in_flight_return L rt"
  shows "\<exists>a keep. server_step L J T order api_cell own rt (leave_request i a keep rt)"
proof -
  let ?c = "rt_conns rt ! i"
  have "proxy L req cfg (cn_peer ?c) (cn_tls ?c) (rt_io rt) \<noteq> None
      \<or> (\<exists>n. proxy_dropped L n req cfg (cn_peer ?c) (cn_tls ?c) (rt_io rt) \<noteq> None)"
    using ret i unfolding in_flight_return_def by (meson nth_mem)
  then consider p where "proxy L req cfg (cn_peer ?c) (cn_tls ?c) (rt_io rt) = Some p"
    | n s where "proxy_dropped L n req cfg (cn_peer ?c) (cn_tls ?c) (rt_io rt) = Some s" by blast
  then show ?thesis
  proof cases
    case 1
    then have "\<exists>a keep. end_request L i rt = Some (leave_request i a keep rt)"
      using i(2) by (cases p) (auto simp: end_request_def Let_def)
    with i(1) show ?thesis by (blast intro: answer_out)
  next
    case 2
    then have "\<exists>a. cancel_request L n i rt = Some (leave_request i a False rt)"
      using i(2) by (auto simp: cancel_request_def Let_def)
    with i(1) show ?thesis by (blast intro: cancel)
  qed
qed

lemma end_first:
  assumes "rt_conns rt = c # cs" "in_flight_return L rt"
  shows "\<exists>rt'. (server_step L J T order api_cell own)\<^sup>*\<^sup>* rt rt' \<and> rt_conns rt' = cs \<and> rt_listeners rt' = rt_listeners rt"
proof -
  let ?S = "server_step L J T order api_cell own"
  have nth: "0 < length (rt_conns rt)" "rt_conns rt ! 0 = c" using assms(1) by simp_all
  show ?thesis
  proof (cases "cn_phase c")
    case Handshaking
    have "?S rt (finish_handshake False 0 rt)" using nth Handshaking by (intro handshake) simp_all
    moreover have "rt_conns (finish_handshake False 0 rt) = cs \<and> rt_listeners (finish_handshake False 0 rt) = rt_listeners rt"
      using assms(1) by (simp add: finish_handshake_def end_conn_def drop_nth_def)
    ultimately show ?thesis by blast
  next
    case Idle
    have "?S rt (end_conn 0 rt)" using nth Idle by (intro close_conn) simp_all
    then show ?thesis using assms(1) by (intro exI [of _ "end_conn 0 rt"]) (simp add: end_conn_def drop_nth_def)
  next
    case (Busy req cfg)
    then obtain a keep where s1: "?S rt (leave_request 0 a keep rt)"
      using in_flight_leaves [OF nth(1) _ assms(2), where J = J and T = T and order = order and api_cell = api_cell and own = own]
        nth(2) by metis
    let ?rt1 = "leave_request 0 a keep rt"
    show ?thesis
    proof (cases keep)
      case True
      then have r1: "rt_conns ?rt1 = c\<lparr>cn_phase := Idle\<rparr> # cs" "rt_listeners ?rt1 = rt_listeners rt"
        using assms(1) by (simp_all add: leave_request_def Let_def set_phase_def)
      then have "?S ?rt1 (end_conn 0 ?rt1)" by (intro close_conn) simp_all
      with s1 have "?S\<^sup>*\<^sup>* rt (end_conn 0 ?rt1)" by (meson converse_rtranclp_into_rtranclp rtranclp.rtrancl_refl)
      then show ?thesis using r1 by (intro exI [of _ "end_conn 0 ?rt1"]) (simp add: end_conn_def drop_nth_def)
    next
      case False
      then have "rt_conns ?rt1 = cs \<and> rt_listeners ?rt1 = rt_listeners rt"
        using assms(1) by (simp add: leave_request_def Let_def end_conn_def drop_nth_def)
      then show ?thesis using s1 by blast
    qed
  qed
qed

lemma drain:
  "in_flight_return L rt \<Longrightarrow>
     \<exists>rt'. (server_step L J T order api_cell own)\<^sup>*\<^sup>* rt rt' \<and> rt_conns rt' = [] \<and> rt_listeners rt' = rt_listeners rt"
proof (induction "rt_conns rt" arbitrary: rt)
  case Nil
  then show ?case by auto
next
  case (Cons c cs)
  obtain rt1 where r: "(server_step L J T order api_cell own)\<^sup>*\<^sup>* rt rt1" "rt_conns rt1 = cs" "rt_listeners rt1 = rt_listeners rt"
    using end_first [OF Cons.hyps(2) [symmetric] Cons.prems] by blast
  moreover have "in_flight_return L rt1"
    using Cons.prems r(2) Cons.hyps(2) by (metis in_flight_return_def list.set_intros(2))
  ultimately show ?case using Cons.hyps(1) [of rt1] by (metis rtranclp_trans)
qed

text \<open>
  C8. The server recovers: from every reachable state in which each request in flight returns or
  waits for another server, some sequence of events ends them, ends every connection and gives back
  every permit, so that each semaphore with a positive limit admits connections again; no state is
  stuck at its limit.
\<close>

theorem capacity_recovers:
  assumes "fresh_server var num_cpus c s = Some rt0"
    and run: "(server_step L J T order api_cell own)\<^sup>*\<^sup>* rt0 rt" and ret: "in_flight_return L rt"
  shows "\<exists>rt'. (server_step L J T order api_cell own)\<^sup>*\<^sup>* rt rt' \<and> rt_conns rt' = []
     \<and> rt_listeners rt' = rt_listeners rt
     \<and> list_all (\<lambda>sem. sem_available sem = sem_size sem) (sems (rt_heap rt'))"
proof -
  obtain rt' where r: "(server_step L J T order api_cell own)\<^sup>*\<^sup>* rt rt'" "rt_conns rt' = []" "rt_listeners rt' = rt_listeners rt"
    using drain [OF ret] by blast
  have "permits_ok rt'"
    using server.reach [OF rtranclp_trans [OF run r(1)] fresh_server_ok(1) [OF assms(1)]] by (simp add: server_ok_def)
  then show ?thesis using r by (auto simp: permits_ok_def list_all_length)
qed

section \<open>What requests send\<close>

definition an_sent :: "('u, 'h, 'w) answer \<Rightarrow> ('u, 'h) request list" where
  "an_sent a = drop (length (io_sent (an_before a))) (io_sent (an_after a))"

text \<open>
  Everything that was sent for a request is called for by its route: first subrequests \<open>qs\<close> to the
  authorization services of the route, in order, each but the last to a service that passed; then at
  most one request to a backend, when every service passed and the route ends in a \<open>reverse_proxy\<close>
  directive, and to that backend. The labels are those recorded for this request.
\<close>

definition route_calls ::
  "('u, 'h, 'w) lib \<Rightarrow> ('u, 'h, 'w) answer \<Rightarrow> 'u step list \<Rightarrow> string + action_result \<Rightarrow> string list
     \<Rightarrow> ('u, 'h) request list \<Rightarrow> ('u, 'h) request list \<Rightarrow> bool" where
  "route_calls L a steps fin labels qs bs \<longleftrightarrow>
     list_all2 auth_call (take (length qs) (auths steps)) qs
     \<and> answered L (auths steps) (take (length labels) qs) labels
     \<and> list_all2 passes (take (length qs - 1) (auths steps)) (take (length qs - 1) labels)
     \<and> (bs = [] \<or>
        (\<exists>b backend path ct tm up. bs = [b] \<and> list_all2 passes (auths steps) labels
           \<and> fin = Inr (AR_ReverseProxy backend path ct tm up)
           \<and> backend_call L (an_peer a) (an_tls a) steps backend path up (an_req a) b))"

definition justified :: "('u, 'h, 'w) lib \<Rightarrow> ('u, 'h, 'w) answer \<Rightarrow> bool" where
  "justified L a \<longleftrightarrow> an_sent a = [] \<or>
     (\<exists>site steps fin labels qs bs tail.
        find_site (an_config a) (request_host L (an_req a)) (an_tls a) = Some site
        \<and> route (directives site) (req_method (an_req a)) (uri_path L (req_uri (an_req a))) (uri_path L (req_uri (an_req a)))
            = (steps, fin)
        \<and> io_metrics (an_after a) = io_metrics (an_before a) @ ActiveRequestsInc # auth_metrics labels @ tail
        \<and> an_sent a = qs @ bs \<and> route_calls L a steps fin labels qs bs)"

lemma an_sentI: "io_sent (an_after a) = io_sent (an_before a) @ qs \<Longrightarrow> an_sent a = qs"
  by (simp add: an_sent_def)

lemma answered_length: "answered L cfgs qs labels \<Longrightarrow> length qs = length labels"
  by (induction L cfgs qs labels rule: answered.induct) auto

lemma answered_sends:
  assumes laws: "http_laws L"
    and p: "proxy L (an_req a) (an_config a) (an_peer a) (an_tls a) (an_before a) = Some (res, an_after a)"
  shows "io_sent (an_after a) = io_sent (an_before a) @ an_sent a \<and> (valid_config L (an_config a) \<longrightarrow> justified L a)"
proof (cases "find_site (an_config a) (request_host L (an_req a)) (an_tls a)")
  case None
  then show ?thesis using proxy_none_sent [OF laws None p] by (simp add: an_sent_def justified_def)
next
  case (Some site)
  obtain steps fin where rt: "route (directives site) (req_method (an_req a)) (uri_path L (req_uri (an_req a)))
      (uri_path L (req_uri (an_req a))) = (steps, fin)" by fastforce
  show ?thesis
  proof (rule proxy_site_run [OF laws p Some rt], goal_cases)
    case (1 labels qs)
    obtain tail where tail: "io_metrics (an_after a) = io_metrics (an_before a) @ ActiveRequestsInc # auth_metrics labels @ tail"
      using 1(1) by blast
    note len = answered_length [OF 1(2)]
    have calls: "route_calls L a steps fin labels qs bs"
      if "bs = [] \<or> (\<exists>b backend path ct tm up. bs = [b] \<and> list_all2 passes (auths steps) labels
           \<and> fin = Inr (AR_ReverseProxy backend path ct tm up)
           \<and> backend_call L (an_peer a) (an_tls a) steps backend path up (an_req a) b)" for bs
      using that 1(2,4) answered_calls [OF 1(2)] len by (simp add: route_calls_def)
    from 1(3) obtain bs where bs: "io_sent (an_after a) = io_sent (an_before a) @ qs @ bs"
      "valid_config L (an_config a) \<longrightarrow> route_calls L a steps fin labels qs bs"
      using calls by (metis append_Nil2)
    then show ?case using Some rt tail an_sentI [OF bs(1)] unfolding justified_def by auto
  qed
qed

lemma dropped_sends:
  assumes laws: "http_laws L"
    and d: "proxy_dropped L n (an_req a) (an_config a) (an_peer a) (an_tls a) (an_before a) = Some (an_after a)"
  shows "io_sent (an_after a) = io_sent (an_before a) @ an_sent a \<and> (valid_config L (an_config a) \<longrightarrow> justified L a)"
proof (rule proxy_dropped_run [OF laws d], goal_cases)
  case (1 site steps fin labels qs e)
  note sent = an_sentI [OF 1(3)]
  have "\<exists>qs' bs. qs = qs' @ bs \<and> route_calls L a steps fin labels qs' bs" if valid: "valid_config L (an_config a)"
    using 1(8)
  proof
    assume g: "dropped_gate L (auths steps) n labels qs"
    then have "answered L (auths steps) (take (length labels) qs) labels"
      using answered_length [of L "auths steps" "butlast qs" labels] 1(4) by (simp add: dropped_gate_def butlast_conv_take)
    moreover have "length labels = n" using g by (auto simp: dropped_gate_def dest!: list_all2_lengthD)
    ultimately have "route_calls L a steps fin labels qs []"
      using g 1(4) by (simp add: dropped_gate_def route_calls_def)
    then show ?thesis by (intro exI [of _ qs] exI [of _ "[]"]) simp
  next
    assume b: "n = length (auths steps) \<and> list_all2 passes (auths steps) labels \<and> answered L (auths steps) (butlast qs) labels
        \<and> (\<exists>backend path ct tm up. fin = Inr (AR_ReverseProxy backend path ct tm up)
             \<and> req_method (last qs) = req_method (an_req a) \<and> req_body (last qs) = req_body (an_req a)
             \<and> (valid_config L (an_config a) \<longrightarrow>
                  backend_call L (an_peer a) (an_tls a) steps backend path up (an_req a) (last qs)))"
    have ans: "answered L (auths steps) (butlast qs) labels" and pass: "list_all2 passes (auths steps) labels" using b by blast+
    note len = answered_length [OF ans] list_all2_lengthD [OF pass]
    have "list_all2 passes (take (length labels - 1) (auths steps)) (take (length labels - 1) labels)"
      using pass by (rule list_all2_takeI)
    then have "route_calls L a steps fin labels (butlast qs) [last qs]"
      using b valid len answered_calls [OF ans] unfolding route_calls_def by simp blast
    moreover have "qs = butlast qs @ [last qs]" using 1(4) by (cases "qs = []") simp_all
    ultimately show ?thesis by blast
  qed
  with 1(1-3,7) sent show ?case unfolding justified_def by fastforce
qed

lemma answer_sends:
  assumes laws: "http_laws L" and a: "answer_ok L a"
  shows "io_sent (an_after a) = io_sent (an_before a) @ an_sent a" "valid_config L (an_config a) \<Longrightarrow> justified L a"
  using a answered_sends [OF laws] dropped_sends [OF laws] by (auto simp: answer_ok_def split: option.splits)

lemma answer_logs:
  assumes laws: "http_laws L" and a: "answer_ok L a"
  shows "length (io_log (an_after a)) = Suc (length (io_log (an_before a)))"
proof (cases "an_result a")
  case None
  then obtain n where "proxy_dropped L n (an_req a) (an_config a) (an_peer a) (an_tls a) (an_before a) = Some (an_after a)"
    using a by (auto simp: answer_ok_def)
  then show ?thesis by (rule proxy_dropped_run [OF laws]) simp
next
  case (Some res)
  then have "proxy L (an_req a) (an_config a) (an_peer a) (an_tls a) (an_before a) = Some (res, an_after a)"
    using a by (simp add: answer_ok_def)
  then show ?thesis by (rule proxy_settles [OF laws]) (auto simp: settled_def)
qed

section \<open>Configurations in use\<close>

text \<open>\<open>P\<close> holds of every configuration in a cell and of the one of every request.\<close>

definition configs_ok :: "('u config \<Rightarrow> bool) \<Rightarrow> ('c, 's, 'u, 'h, 'w) runtime \<Rightarrow> bool" where
  "configs_ok P rt =
     (handles_ok rt \<and> (\<forall>cell < length (cells (rt_heap rt)). P (load_full (rt_heap rt) cell)) \<and>
      (\<forall>c \<in> set (rt_conns rt). \<forall>req cfg. cn_phase c = Busy req cfg \<longrightarrow> P cfg) \<and>
      list_all (\<lambda>a. P (an_config a)) (rt_answers rt))"

text \<open>What the world has seen of the requests that were answered.\<close>

definition traffic_ok :: "('u, 'h, 'w) lib \<Rightarrow> ('u, 'h, 'w) io \<Rightarrow> ('c, 's, 'u, 'h, 'w) runtime \<Rightarrow> bool" where
  "traffic_ok L s rt =
     (list_all (answer_ok L) (rt_answers rt) \<and>
      io_sent (rt_io rt) = io_sent s @ concat (map an_sent (rt_answers rt)) \<and>
      length (io_log (rt_io rt)) = length (io_log s) + length (rt_answers rt))"

lemma conns_drop_nth: "c \<in> set (drop_nth i cs) \<Longrightarrow> c \<in> set cs"
  using set_drop_nth by fast

lemma conns_set_phase:
  assumes "c \<in> set (rt_conns (set_phase i ph rt))"
  shows "c \<in> set (rt_conns rt) \<or> cn_phase c = ph"
  using assms by (fastforce simp: set_phase_def dest: set_update_subset_insert [THEN subsetD])

lemma event_frame [simp]:
  "rt_answers (set_phase i ph rt) = rt_answers rt" "rt_io (set_phase i ph rt) = rt_io rt"
  "rt_heap (set_phase i ph rt) = rt_heap rt"
  "rt_answers (end_conn i rt) = rt_answers rt" "rt_io (end_conn i rt) = rt_io rt"
  "cells (rt_heap (end_conn i rt)) = cells (rt_heap rt)"
  "rt_answers (accept_conn sec peer cell k rt) = rt_answers rt" "rt_io (accept_conn sec peer cell k rt) = rt_io rt"
  "cells (rt_heap (accept_conn sec peer cell k rt)) = cells (rt_heap rt)"
  by (auto simp: set_phase_def end_conn_def accept_conn_def split: option.splits dest: try_acquire_SomeD)

lemma load_full_frame [simp]:
  "load_full (rt_heap (end_conn i rt)) = load_full (rt_heap rt)"
  "load_full (rt_heap (accept_conn sec peer cell k rt)) = load_full (rt_heap rt)"
  by (simp_all add: load_full_def fun_eq_iff)

lemma conns_end_conn: "c \<in> set (rt_conns (end_conn i rt)) \<Longrightarrow> c \<in> set (rt_conns rt)"
  by (auto simp: end_conn_def dest: conns_drop_nth)

lemma conns_accept:
  "c \<in> set (rt_conns (accept_conn sec peer cell k rt)) \<Longrightarrow> c \<in> set (rt_conns rt) \<or> cn_phase c \<in> {Handshaking, Idle}"
  by (auto simp: accept_conn_def split: option.splits if_splits)

lemma leave_frame [simp]:
  "rt_answers (leave_request i a keep rt) = rt_answers rt @ [a]" "rt_io (leave_request i a keep rt) = an_after a"
  "cells (rt_heap (leave_request i a keep rt)) = cells (rt_heap rt)"
  "load_full (rt_heap (leave_request i a keep rt)) = load_full (rt_heap rt)"
  by (simp_all add: leave_request_def Let_def)

lemma conns_leave:
  "c \<in> set (rt_conns (leave_request i a keep rt)) \<Longrightarrow> c \<in> set (rt_conns rt) \<or> cn_phase c = Idle"
  by (auto simp: leave_request_def Let_def split: if_splits dest: conns_set_phase conns_end_conn)

lemma traffic_leave:
  assumes laws: "http_laws L" and "leaves L i a rt rt'" "traffic_ok L s rt"
  shows "traffic_ok L s rt'"
  using assms(2,3) answer_sends(1) [OF laws, of a] answer_logs [OF laws, of a]
  by (auto simp: leaves_def traffic_ok_def)

lemma configs_leave:
  assumes "leaves L i a rt rt'" "i < length (rt_conns rt)" "configs_ok P rt" "handles_ok rt'"
  shows "configs_ok P rt'"
proof -
  have "P (an_config a)" using assms(1-3) unfolding configs_ok_def leaves_def by (meson nth_mem)
  then show ?thesis using assms by (auto simp: configs_ok_def leaves_def dest: conns_leave)
qed

lemma traffic_step:
  assumes laws: "http_laws L" and "server_step L J T order api_cell own rt rt'" "traffic_ok L s rt"
  shows "traffic_ok L s rt'"
  using assms(2,3)
proof (induction rule: server_step.induct)
  case (answer_out i rt rt')
  then show ?case using end_request_leaves [OF answer_out(2)] traffic_leave [OF laws] by blast
next
  case (cancel i rt n rt')
  then show ?case using cancel_request_leaves [OF cancel(2)] traffic_leave [OF laws] by blast
qed (auto simp: traffic_ok_def end_listener_def finish_bind_def run_http_loop_def listen_tls_def finish_handshake_def begin_request_def tls_handshake_def Let_def)

lemma configs_step:
  assumes P: "\<And>c. own c \<Longrightarrow> P c" "\<And>req c. posted_config L J req = Some c \<Longrightarrow> P c"
    and "server_step L J T order api_cell own rt rt'" "server_ok rt \<and> configs_ok P rt"
  shows "server_ok rt' \<and> configs_ok P rt'"
proof
  show "server_ok rt'" using server_ok_step assms(3,4) by blast
  then have h: "handles_ok rt'" by (simp add: server_ok_def)
  note upd = cell.all_put [of _ P]
  from assms(3,4) h show "configs_ok P rt'"
  proof (induction rule: server_step.induct)
    case (handshake i rt ok)
    then show ?case
      by (auto simp: configs_ok_def finish_handshake_def dest: conns_set_phase conns_end_conn)
  next
    case (request_in i rt req)
    then have "P (load_full (rt_heap rt) (cn_cell (rt_conns rt ! i)))"
      by (auto simp: configs_ok_def handles_ok_def list_all_length)
    with request_in show ?case
      by (fastforce simp: configs_ok_def begin_request_def dest: conns_set_phase)
  next
    case (answer_out i rt rt')
    then show ?case using end_request_leaves [OF answer_out(2)] configs_leave by blast
  next
    case (cancel i rt n rt')
    then show ?case using cancel_request_leaves [OF cancel(2)] configs_leave by blast
  next
    case (api_request req rt res H)
    then show ?case
      using api_heap_frame(3) [OF api_request(1)] upd P(2) by (auto simp: configs_ok_def)
  next
    case (reload c rt)
    then show ?case using upd P(1) by (auto simp: configs_ok_def update_config_def)
  next
    case (resize n rt p H)
    then show ?case by (auto simp: configs_ok_def set_max_concurrency_def load_full_def dest: semaphore_new_SomeD)
  next
    case (close_conn i rt)
    then show ?case by (auto simp: configs_ok_def dest: conns_end_conn)
  qed (auto simp: configs_ok_def end_listener_def finish_bind_def run_http_loop_def listen_tls_def dest: conns_accept)
qed

text \<open>The configurations that were ever put in place: the first, the embedding program's own, those posted.\<close>

definition installed :: "('u, 'h, 'w) lib \<Rightarrow> 'u json_lib \<Rightarrow> ('u config \<Rightarrow> bool) \<Rightarrow> 'u config \<Rightarrow> 'u config \<Rightarrow> bool" where
  "installed L J own c0 c = (c = c0 \<or> own c \<or> (\<exists>req. posted_config L J req = Some c))"

interpretation configs: step_invariant "server_step L J T order api_cell own"
    "\<lambda>rt. server_ok rt \<and> configs_ok (installed L J own c0) rt"
  for L J T order api_cell own c0
  by unfold_locales (rule configs_step, auto simp: installed_def)

lemma traffic_invariant:
  "http_laws L \<Longrightarrow> step_invariant (server_step L J T order api_cell own) (traffic_ok L s)"
  by unfold_locales (rule traffic_step)

lemma installed_valid:
  assumes "http_laws L" "valid_config L c0" "\<And>c. own c \<Longrightarrow> valid_config L c" "installed L J own c0 c"
  shows "valid_config L c"
  using assms config_from_json_sound [OF assms(1)]
  by (auto simp: installed_def posted_config_def bind_eq_Some_conv split: if_splits sum.splits)

text \<open>
  C4. Over the whole life of the server, whatever the interleaving of connections, requests,
  reloads and API calls (where the effects of one request, up to its end or its cancellation, are one
  step): everything that was ever sent out is what the answered and the cancelled requests sent, in
  their order; each of them was handled as a whole under one
  configuration that had been installed and is valid; what it sent is called for by its route
  in that configuration: the authorization services in order, none after one that did not pass, then
  at most one backend request, to the backend of the route and only after every service passed; and
  the access log has one line per request.
\<close>

theorem server_traffic_justified:
  assumes laws: "http_laws L" and valid: "valid_config L c0" "\<And>c. own c \<Longrightarrow> valid_config L c"
    and init: "fresh_server var num_cpus c0 s = Some rt0"
    and run: "(server_step L J T order api_cell own)\<^sup>*\<^sup>* rt0 rt"
  shows "io_sent (rt_io rt) = io_sent s @ concat (map an_sent (rt_answers rt))
     \<and> list_all (\<lambda>a. answer_ok L a \<and> installed L J own c0 (an_config a) \<and> valid_config L (an_config a)
          \<and> justified L a) (rt_answers rt)
     \<and> length (io_log (rt_io rt)) = length (io_log s) + length (rt_answers rt)"
proof -
  note f = fresh_server_ok [OF init]
  have "configs_ok (installed L J own c0) rt0"
    using f by (simp add: configs_ok_def server_ok_def installed_def load_full_def)
  then have "configs_ok (installed L J own c0) rt"
    using configs.reach [OF run, of c0] f(1) by blast
  then have inst: "list_all (\<lambda>a. installed L J own c0 (an_config a)) (rt_answers rt)" by (simp add: configs_ok_def)
  have "traffic_ok L s rt0" using f by (simp add: traffic_ok_def)
  then have "traffic_ok L s rt" using step_invariant.reach [OF traffic_invariant [OF laws] run] by blast
  with inst show ?thesis
    using answer_sends(2) [OF laws] installed_valid [OF laws valid] by (auto simp: traffic_ok_def list_all_iff)
qed

lemma end_request_proxy:
  assumes "end_request L i rt = Some rt'" "cn_phase (rt_conns rt ! i) = Busy req c"
  shows "\<exists>r. proxy L req c (cn_peer (rt_conns rt ! i)) (cn_tls (rt_conns rt ! i)) (rt_io rt) = Some (r, rt_io rt')
     \<and> an_result (last (rt_answers rt')) = Some r \<and> an_config (last (rt_answers rt')) = c
     \<and> an_req (last (rt_answers rt')) = req"
  using assms by (auto simp: end_request_def Let_def split: option.splits)

lemma cancel_request_dropped:
  assumes "cancel_request L n i rt = Some rt'" "cn_phase (rt_conns rt ! i) = Busy req c"
  shows "proxy_dropped L n req c (cn_peer (rt_conns rt ! i)) (cn_tls (rt_conns rt ! i)) (rt_io rt) = Some (rt_io rt')"
  using assms by (auto simp: cancel_request_def Let_def)

text \<open>
  C9. Hot reload. After an accepted POST of a configuration to the cell that a connection reads, the
  next request of the connection, a kept-alive one included, is handled under the posted
  configuration: whatever is installed in the cells before it ends, what it returns, sends, logs and
  counts is what the handler does under the posted configuration, and so when it is cancelled. A
  request that was already in flight on the connection ends as the handler does under the
  configuration it started with, not under the posted one. Other connections are not touched.
\<close>

theorem reload_takes_effect:
  assumes post: "posted_config L J p = Some c" "handle_api_request L J p cell (rt_heap rt) = (res, H)"
    and cell: "cell < length (cells (rt_heap rt))"
    and conn: "i < length (rt_conns rt)" "cn_cell (rt_conns rt ! i) = cell"
  shows "cn_phase (rt_conns (begin_request req i (rt\<lparr>rt_heap := H\<rparr>)) ! i) = Busy req c
     \<and> (\<forall>j < length (rt_conns rt). j \<noteq> i \<longrightarrow>
          rt_conns (begin_request req i (rt\<lparr>rt_heap := H\<rparr>)) ! j = rt_conns rt ! j)
     \<and> (\<forall>H' rt'. end_request L i ((begin_request req i (rt\<lparr>rt_heap := H\<rparr>))\<lparr>rt_heap := H'\<rparr>) = Some rt' \<longrightarrow>
          (\<exists>r. proxy L req c (cn_peer (rt_conns rt ! i)) (cn_tls (rt_conns rt ! i)) (rt_io rt) = Some (r, rt_io rt')
             \<and> an_result (last (rt_answers rt')) = Some r \<and> an_config (last (rt_answers rt')) = c
             \<and> an_req (last (rt_answers rt')) = req))
     \<and> (\<forall>H' n rt'. cancel_request L n i ((begin_request req i (rt\<lparr>rt_heap := H\<rparr>))\<lparr>rt_heap := H'\<rparr>) = Some rt' \<longrightarrow>
          proxy_dropped L n req c (cn_peer (rt_conns rt ! i)) (cn_tls (rt_conns rt ! i)) (rt_io rt) = Some (rt_io rt'))
     \<and> (\<forall>req0 c0 rt'. cn_phase (rt_conns rt ! i) = Busy req0 c0 \<longrightarrow> end_request L i (rt\<lparr>rt_heap := H\<rparr>) = Some rt' \<longrightarrow>
          (\<exists>r. proxy L req0 c0 (cn_peer (rt_conns rt ! i)) (cn_tls (rt_conns rt ! i)) (rt_io rt) = Some (r, rt_io rt')))"
proof -
  have "H = store cell c (rt_heap rt)" using api_request_effect [of L J p cell "rt_heap rt"] post by simp
  then have "load_full H cell = c" using cell by (simp add: cell.read_put)
  then have b: "begin_request req i (rt\<lparr>rt_heap := H\<rparr>) = set_phase i (Busy req c) (rt\<lparr>rt_heap := H\<rparr>)"
    using conn by (simp add: begin_request_def)
  let ?rt = "\<lambda>H'. (set_phase i (Busy req c) (rt\<lparr>rt_heap := H\<rparr>))\<lparr>rt_heap := H'\<rparr>"
  have ci: "cn_phase (rt_conns (?rt H') ! i) = Busy req c" "cn_peer (rt_conns (?rt H') ! i) = cn_peer (rt_conns rt ! i)"
    "cn_tls (rt_conns (?rt H') ! i) = cn_tls (rt_conns rt ! i)" "rt_io (?rt H') = rt_io rt" for H'
    using conn(1) by (simp_all add: set_phase_def)
  have "\<exists>r. proxy L req c (cn_peer (rt_conns rt ! i)) (cn_tls (rt_conns rt ! i)) (rt_io rt) = Some (r, rt_io rt')
      \<and> an_result (last (rt_answers rt')) = Some r \<and> an_config (last (rt_answers rt')) = c
      \<and> an_req (last (rt_answers rt')) = req"
    if "end_request L i (?rt H') = Some rt'" for rt' H'
    by (rule end_request_proxy [OF that ci(1), unfolded ci(2-4)])
  moreover have "proxy_dropped L n req c (cn_peer (rt_conns rt ! i)) (cn_tls (rt_conns rt ! i)) (rt_io rt) = Some (rt_io rt')"
    if "cancel_request L n i (?rt H') = Some rt'" for rt' H' n
    by (rule cancel_request_dropped [OF that ci(1), unfolded ci(2-4)])
  moreover have "\<exists>r. proxy L req0 c0 (cn_peer (rt_conns rt ! i)) (cn_tls (rt_conns rt ! i)) (rt_io rt) = Some (r, rt_io rt')"
    if "cn_phase (rt_conns rt ! i) = Busy req0 c0" "end_request L i (rt\<lparr>rt_heap := H\<rparr>) = Some rt'" for req0 c0 rt'
    using end_request_proxy [OF that(2), of req0 c0] that(1) by auto
  moreover have "rt_conns (set_phase i (Busy req c) (rt\<lparr>rt_heap := H\<rparr>)) ! j = rt_conns rt ! j" if "j \<noteq> i" for j
    using that by (simp add: set_phase_def)
  ultimately show ?thesis using conn(1) unfolding b by (simp add: set_phase_def)
qed

section \<open>A run\<close>

text \<open>
  A server with a limit of two connections and one gated site: a listener is started, a connection
  accepted, a request arrives and is answered.
\<close>

type_synonym sample_runtime = "(string, string, ref_uri, ref_headers, ref_world) runtime"

definition sample_world :: "(ref_uri, ref_headers, ref_world) io" where
  "sample_world = ref_io [] [Answer \<lparr>resp_status = 200, resp_headers = [], resp_body = []\<rparr>,
      Answer \<lparr>resp_status = 201, resp_headers = [], resp_body = [Frame ''made'']\<rparr>]"

definition run0 :: sample_runtime where
  "run0 = \<lparr>rt_heap = \<lparr>cells = [\<lparr>sites = [(''site'', gated_site)]\<rparr>], sems = [\<lparr>sem_size = 2, sem_available = 2\<rparr>]\<rparr>,
     rt_proxy = \<lparr>px_config = 0, px_max_concurrency = 2, px_semaphore = 0\<rparr>, rt_spawned = [], rt_listeners = [], rt_conns = [],
     rt_io = sample_world, rt_answers = []\<rparr>"

definition run0_started :: sample_runtime where
  "run0_started = run0\<lparr>rt_spawned := [HttpListener (socket_addr_new (V4 127 0 0 1) 80) 0 0]\<rparr>"

definition run1 :: sample_runtime where
  "run1 = finish_bind True (HttpListener (socket_addr_new (V4 127 0 0 1) 80) 0 0) run0_started"

definition run2 :: sample_runtime where
  "run2 = run_http_loop sample_peer 0 0 run1"

definition run3 :: sample_runtime where
  "run3 = begin_request gated_request 0 run2"

abbreviation sample_step :: "sample_runtime \<Rightarrow> sample_runtime \<Rightarrow> bool" where
  "sample_step \<equiv> server_step ref_lib ref_json ref_tls id 0 (\<lambda>_. False)"

lemma run0_fresh: "fresh_server (Some ''2'') 4 \<lparr>sites = [(''site'', gated_site)]\<rparr> sample_world = Some run0"
proof -
  have "initial_concurrency (Some ''2'') 4 = 2"
    by (simp add: initial_concurrency_def parse_u64_def parse_uint_def is_dec_digit_def dec_val_def digit_val_def)
  then show ?thesis
    by (simp add: fresh_server_def proxy_new_def semaphore_new_def max_permits_def arc_swap_new_def run0_def)
qed

lemma run_reached: "sample_step\<^sup>*\<^sup>* run0 run2" "sample_step\<^sup>*\<^sup>* run0 run3"
proof -
  have "parse_socket_addr ''127.0.0.1:80'' = Some (socket_addr_new (V4 127 0 0 1) 80)" by (simp add: address_eval)
  then have "start ref_tls (rt_proxy run0) (rt_heap run0) ''127.0.0.1:80'' = Inr (HttpListener (socket_addr_new (V4 127 0 0 1) 80) 0 0)"
    by (simp add: start_def start_with_addr_def start_http_def run0_def load_full_def sites_values_def gated_site_def
        tls_entries_def List.map_filter_def)
  then have "sample_step run0 run0_started"
    unfolding run0_started_def by (rule start_listener [THEN back_subst [of "sample_step run0"]]) (simp add: run0_def)
  moreover have "sample_step run0_started run1" unfolding run1_def by (rule bind_ok) (simp_all add: run0_started_def run0_def)
  moreover have "sample_step run1 run2" unfolding run2_def
    by (rule accept_http [where a = "socket_addr_new (V4 127 0 0 1) 80"]) (simp add: run1_def finish_bind_def)
  ultimately show r2: "sample_step\<^sup>*\<^sup>* run0 run2" by (meson converse_rtranclp_into_rtranclp rtranclp.rtrancl_refl)
  have "sample_step run2 run3" unfolding run3_def by (rule request_in; code_simp)
  with r2 show "sample_step\<^sup>*\<^sup>* run0 run3" by (rule rtranclp.rtrancl_into_rtrancl)
qed

lemma run3_answered:
  obtains rt where "end_request ref_lib 0 run3 = Some rt" "sample_step\<^sup>*\<^sup>* run0 rt"
    "length (rt_answers rt) = 1" "length (io_sent (rt_io rt)) = 2"
proof -
  have "(case end_request ref_lib 0 run3 of Some rt \<Rightarrow> length (rt_answers rt) = 1 \<and> length (io_sent (rt_io rt)) = 2 | None \<Rightarrow> False)"
    by code_simp
  then obtain rt where rt: "end_request ref_lib 0 run3 = Some rt" "length (rt_answers rt) = 1" "length (io_sent (rt_io rt)) = 2"
    by (auto split: option.splits)
  have "0 < length (rt_conns run3)" by code_simp
  then have "sample_step run3 rt" using rt(1) by (rule answer_out)
  with run_reached(2) have "sample_step\<^sup>*\<^sup>* run0 rt" by (rule rtranclp.rtrancl_into_rtrancl)
  with rt that show ?thesis by blast
qed

theorem connections_bounded_witness:
  "holders 0 (rt_conns run3) + sem_available (sems (rt_heap run3) ! 0) = 2"
proof -
  have "0 < length (sems (rt_heap run3))" "sem_size (sems (rt_heap run3) ! 0) = 2" by code_simp+
  with connections_bounded [OF run0_fresh run_reached(2) this(1)] show ?thesis by simp
qed

theorem capacity_recovers_witness:
  "\<exists>rt'. sample_step\<^sup>*\<^sup>* run2 rt' \<and> rt_conns rt' = []
     \<and> list_all (\<lambda>sem. sem_available sem = sem_size sem) (sems (rt_heap rt'))"
proof -
  have "rt_conns run2 = [\<lparr>cn_peer = sample_peer, cn_tls = False, cn_cell = 0, cn_sem = 0, cn_phase = Idle\<rparr>]" by code_simp
  then have "in_flight_return ref_lib run2" by (simp add: in_flight_return_def)
  from capacity_recovers [OF run0_fresh run_reached(1) this] show ?thesis by blast
qed

theorem server_traffic_justified_witness:
  "\<exists>rt a. sample_step\<^sup>*\<^sup>* run0 rt \<and> rt_answers rt = [a] \<and> length (an_sent a) = 2 \<and> justified ref_lib a
     \<and> length (io_log (rt_io rt)) = 1"
proof -
  obtain rt where rt: "sample_step\<^sup>*\<^sup>* run0 rt" "length (rt_answers rt) = 1" "length (io_sent (rt_io rt)) = 2"
    using run3_answered by blast
  then obtain a where a: "rt_answers rt = [a]" by (auto simp: length_Suc_conv)
  have v: "valid_config ref_lib \<lparr>sites = [(''site'', gated_site)]\<rparr>" by code_simp
  have "io_sent sample_world = []" "io_log sample_world = []" by (simp_all add: sample_world_def ref_io_def)
  then show ?thesis
    using server_traffic_justified [OF ref_http.http_laws_axioms v _ run0_fresh rt(1)] rt a by auto
qed

theorem reload_takes_effect_witness:
  "\<exists>res H rt' r. handle_api_request ref_lib ref_json (api_call ''POST'' ''/config'' ''doc'') 0 (rt_heap run2) = (res, H)
     \<and> end_request ref_lib 0 (begin_request gated_request 0 (run2\<lparr>rt_heap := H\<rparr>)) = Some rt'
     \<and> proxy ref_lib gated_request sample_posted_config sample_peer False sample_world = Some (r, rt_io rt')"
proof -
  obtain res H where h: "handle_api_request ref_lib ref_json (api_call ''POST'' ''/config'' ''doc'') 0 (rt_heap run2) = (res, H)"
    by fastforce
  let ?rt = "begin_request gated_request 0 (run2\<lparr>rt_heap := H\<rparr>)"
  have c: "0 < length (cells (rt_heap run2))" "0 < length (rt_conns run2)" "cn_cell (rt_conns run2 ! 0) = 0" by code_simp+
  have peer: "cn_peer (rt_conns run2 ! 0) = sample_peer" "\<not> cn_tls (rt_conns run2 ! 0)" by code_simp+
  have io: "rt_io run2 = sample_world" by (simp add: run2_def run_http_loop_def run1_def finish_bind_def run0_started_def run0_def)
  note t = reload_takes_effect [OF sample_posted_call h c, of gated_request]
  have "cn_phase (rt_conns ?rt ! 0) = Busy gated_request sample_posted_config" using t by blast
  moreover have "proxy ref_lib gated_request sample_posted_config sample_peer False sample_world \<noteq> None" by code_simp
  ultimately have "end_request ref_lib 0 ?rt \<noteq> None"
    using c(2) peer io by (auto simp: end_request_def Let_def begin_request_def set_phase_def)
  then obtain rt' where e: "end_request ref_lib 0 ?rt = Some rt'" by blast
  have same: "?rt\<lparr>rt_heap := rt_heap ?rt\<rparr> = ?rt" by simp
  note answered = t [THEN conjunct2, THEN conjunct2, THEN conjunct1, rule_format, of "rt_heap ?rt" rt', unfolded same peer(1) io, OF e]
  then have "\<exists>r. proxy ref_lib gated_request sample_posted_config sample_peer False sample_world = Some (r, rt_io rt')"
    using peer(2) by auto
  with h e show ?thesis by blast
qed

end
