(* ===== verification/Program.thy ===== *)
theory Program
  imports Runtime_Props
begin

text \<open>
  The program (\<open>src/main.rs\<close>, \<open>src/cli/args.rs\<close>): what the command line makes of the other parts.
  Parsing the arguments, logging and the signal handlers are third-party or operating-system code;
  which future of a \<open>select!\<close> completes first, and with what, is an argument. The metrics exporter
  is an argument too. \<open>None\<close> stands for a panic, which ends the process also when it happens in a task:
  the release profile of \<open>Cargo.toml\<close> has \<open>panic = "abort"\<close>.
\<close>

section \<open>Arguments\<close>

record cli =
  cli_config :: string
  cli_addr :: "string option"
  cli_max_concurrency :: u64
  cli_enable_api :: bool
  cli_api_addr :: string
  cli_metrics_addr :: "string option"

section \<open>Start of the program\<close>

datatype program_error =
    BadMetricsAddr
  | MetricsFailed string
  | ConfigFailed parse_stop
  | StartFailed start_error
  | ListenerFailed string
  | ApiFailed proxy_error

definition main_prepare ::
  "('u, 'h, 'w) lib \<Rightarrow> (string \<Rightarrow> string + string) \<Rightarrow> (socket_addr \<Rightarrow> string + unit) \<Rightarrow> cli
     \<Rightarrow> program_error + 'u config" where
  \<comment> \<open>the metrics server is started first, then the configuration file is loaded\<close>
  "main_prepare L read_to_string start_metrics_server cli =
     res_bind
       (case cli_metrics_addr cli of
          None \<Rightarrow> Inr ()
        | Some metrics_addr \<Rightarrow>
            (case parse_socket_addr metrics_addr of
               None \<Rightarrow> Inl BadMetricsAddr
             | Some addr \<Rightarrow> map_err MetricsFailed (start_metrics_server addr)))
       (\<lambda>_. map_err ConfigFailed (from_file L read_to_string (cli_config cli)))"

section \<open>Bringing up the proxy\<close>

definition tune :: "u64 \<Rightarrow> (proxy_obj \<times> 'u heap) option \<Rightarrow> (proxy_obj \<times> 'u heap) option" where
  "tune max_concurrency pr =
     Option.bind pr (\<lambda>(p, H). if 0 < max_concurrency then set_max_concurrency max_concurrency p H else Some (p, H))"

definition bring_up ::
  "('c, 'k, 's) tls_lib \<Rightarrow> ('u socket_groups \<Rightarrow> 'u socket_groups) \<Rightarrow> string option \<Rightarrow> proxy_obj \<Rightarrow> 'u heap
     \<Rightarrow> ('c, 's) listener list \<times> (start_error + unit)" where
  "bring_up T order addr p H =
     (case addr of
        Some a \<Rightarrow> (case start T p H a of Inl e \<Rightarrow> ([], Inl e) | Inr l \<Rightarrow> ([l], Inr ()))
      | None \<Rightarrow> start_all T order p H)"

text \<open>Which branch of a \<open>select!\<close> is taken: the shutdown, or the server with the result of serving.\<close>

datatype race = ShutdownFirst | ServerFirst "string + unit"

definition select_server :: "start_error + unit \<Rightarrow> race \<Rightarrow> program_error + unit" where
  "select_server started r =
     (case r of
        ShutdownFirst \<Rightarrow> Inr ()
      | ServerFirst served \<Rightarrow>
          (case started of Inl e \<Rightarrow> Inl (StartFailed e) | Inr _ \<Rightarrow> map_err ListenerFailed served))"

definition run_proxy_only ::
  "('c, 'k, 's) tls_lib \<Rightarrow> ('u socket_groups \<Rightarrow> 'u socket_groups) \<Rightarrow> string option \<Rightarrow> u64 \<Rightarrow> cli \<Rightarrow> 'u config
     \<Rightarrow> 'u heap \<Rightarrow> race \<Rightarrow> ('u heap \<times> ('c, 's) listener list \<times> (program_error + unit)) option" where
  "run_proxy_only T order var num_cpus cli c H r =
     map_option (\<lambda>(p, H1).
         let (ls, started) = bring_up T order (cli_addr cli) p H1 in (H1, ls, select_server started r))
       (tune (cli_max_concurrency cli) (proxy_new var num_cpus c H))"

section \<open>The proxy with the management API\<close>

definition run_proxy_server ::
  "('c, 'k, 's) tls_lib \<Rightarrow> ('u socket_groups \<Rightarrow> 'u socket_groups) \<Rightarrow> string option \<Rightarrow> u64 \<Rightarrow> string option \<Rightarrow> u64
     \<Rightarrow> nat \<Rightarrow> 'u heap \<Rightarrow> race \<Rightarrow> ('u heap \<times> ('c, 's) listener list \<times> (program_error + unit)) option" where
  "run_proxy_server T order var num_cpus addr max_concurrency shared H r =
     map_option (\<lambda>(p, H1).
         let (ls, started) = bring_up T order addr p H1 in (H1, ls, select_server started r))
       (tune max_concurrency (proxy_from_shared var num_cpus shared H))"

definition run_api_server :: "string \<Rightarrow> nat \<Rightarrow> race \<Rightarrow> program_error + unit" where
  "run_api_server addr shared r =
     (case r of
        ShutdownFirst \<Rightarrow> Inr ()
      | ServerFirst served \<Rightarrow>
          (case start_api_server addr shared of
             Inl e \<Rightarrow> Inl (ApiFailed e)
           | Inr _ \<Rightarrow> map_err ListenerFailed served))"

text \<open>
  The end of \<open>run_with_api\<close>: the first of the three branches ends the \<open>select!\<close>, the shutdown message
  is sent, and then both handles are awaited, each with a timeout. A handle whose task was the
  first to complete was already awaited: \<open>repoll\<close> is what awaiting it once more yields.
\<close>

datatype task_result = TaskOk | TaskErr program_error

definition task_result_of :: "program_error + unit \<Rightarrow> task_result" where
  "task_result_of res = (case res of Inl e \<Rightarrow> TaskErr e | Inr _ \<Rightarrow> TaskOk)"

datatype first_branch = ApiCompleted task_result | ProxyCompleted task_result | SignalReceived

datatype wait_outcome = Done task_result | TimedOut

definition await_handle :: "wait_outcome option \<Rightarrow> bool \<Rightarrow> wait_outcome \<Rightarrow> wait_outcome option" where
  "await_handle repoll completed w = (if completed then repoll else Some w)"

definition run_with_api_end ::
  "wait_outcome option \<Rightarrow> first_branch \<Rightarrow> wait_outcome \<Rightarrow> wait_outcome \<Rightarrow> (program_error + unit) option" where
  "run_with_api_end repoll branch api proxy_w =
     Option.bind (await_handle repoll (case branch of ApiCompleted _ \<Rightarrow> True | _ \<Rightarrow> False) api) (\<lambda>_.
     Option.bind (await_handle repoll (case branch of ProxyCompleted _ \<Rightarrow> True | _ \<Rightarrow> False) proxy_w) (\<lambda>_.
       Some (Inr ())))"

text \<open>Which of the three futures of \<open>run_with_api\<close> completes first; a server with the result of serving.\<close>

datatype first_done = ApiFirst "string + unit" | ProxyFirst "string + unit" | SignalFirst

text \<open>
  A run of the program: the listeners that the proxy task starts, the API server that the API
  task brings up with its cell (none when its address is invalid), the heap at that point, and the
  result of the main function, \<open>None\<close> when it panics.
\<close>

record ('c, 's, 'u) program_run =
  pr_listeners :: "('c, 's) listener list"
  pr_api :: "(socket_addr \<times> nat) option"
  pr_heap :: "'u heap"
  pr_result :: "(program_error + unit) option"

definition run_with_api ::
  "('c, 'k, 's) tls_lib \<Rightarrow> ('u socket_groups \<Rightarrow> 'u socket_groups) \<Rightarrow> string option \<Rightarrow> u64 \<Rightarrow> cli \<Rightarrow> 'u config
     \<Rightarrow> 'u heap \<Rightarrow> wait_outcome option \<Rightarrow> first_done \<Rightarrow> wait_outcome \<Rightarrow> wait_outcome \<Rightarrow> ('c, 's, 'u) program_run" where
  "run_with_api T order var num_cpus cli c H repoll first api_wait proxy_wait =
     (let (shared, H1) = arc_swap_new c H;
          api_task = run_api_server (cli_api_addr cli) shared
            (case first of ApiFirst served \<Rightarrow> ServerFirst served | _ \<Rightarrow> ShutdownFirst);
          proxy_task = run_proxy_server T order var num_cpus (cli_addr cli) (cli_max_concurrency cli) shared H1
            (case first of ProxyFirst served \<Rightarrow> ServerFirst served | _ \<Rightarrow> ShutdownFirst);
          branch = (\<lambda>proxy_res. case first of
              ApiFirst _ \<Rightarrow> ApiCompleted (task_result_of api_task)
            | ProxyFirst _ \<Rightarrow> ProxyCompleted (task_result_of proxy_res)
            | SignalFirst \<Rightarrow> SignalReceived);
          api = (case start_api_server (cli_api_addr cli) shared of Inl _ \<Rightarrow> None | Inr api \<Rightarrow> Some api)
      in case proxy_task of
           None \<Rightarrow> \<lparr>pr_listeners = [], pr_api = api, pr_heap = H1, pr_result = None\<rparr>
         | Some (H2, ls, proxy_res) \<Rightarrow>
             \<lparr>pr_listeners = ls, pr_api = api, pr_heap = H2,
              pr_result = run_with_api_end repoll (branch proxy_res) api_wait proxy_wait\<rparr>)"

definition main ::
  "('u, 'h, 'w) lib \<Rightarrow> (string \<Rightarrow> string + string) \<Rightarrow> (socket_addr \<Rightarrow> string + unit)
     \<Rightarrow> ('c, 'k, 's) tls_lib \<Rightarrow> ('u socket_groups \<Rightarrow> 'u socket_groups) \<Rightarrow> string option \<Rightarrow> u64 \<Rightarrow> cli
     \<Rightarrow> race \<Rightarrow> wait_outcome option \<Rightarrow> first_done \<Rightarrow> wait_outcome \<Rightarrow> wait_outcome \<Rightarrow> ('c, 's, 'u) program_run" where
  "main L read_to_string start_metrics_server T order var num_cpus cli r repoll first api_wait proxy_wait =
     (let H = \<lparr>cells = [], sems = []\<rparr>
      in case main_prepare L read_to_string start_metrics_server cli of
           Inl e \<Rightarrow> \<lparr>pr_listeners = [], pr_api = None, pr_heap = H, pr_result = Some (Inl e)\<rparr>
         | Inr c \<Rightarrow>
             if cli_enable_api cli then run_with_api T order var num_cpus cli c H repoll first api_wait proxy_wait
             else (case run_proxy_only T order var num_cpus cli c H r of
                     None \<Rightarrow> \<lparr>pr_listeners = [], pr_api = None, pr_heap = H, pr_result = None\<rparr>
                   | Some (H1, ls, res) \<Rightarrow>
                       \<lparr>pr_listeners = ls, pr_api = None, pr_heap = H1, pr_result = Some res\<rparr>))"

text \<open>
  After a signal the program ends regularly, whatever the two servers report. When one of the
  servers completes first, its handle is awaited twice, and the program ends regularly only if
  awaiting a handle twice does.
\<close>

lemma run_with_api_ends:
  "run_with_api_end repoll SignalReceived api proxy_w = Some (Inr ())"
  "run_with_api_end None (ApiCompleted r) api proxy_w = None"
  "run_with_api_end None (ProxyCompleted r) api proxy_w = None"
  by (simp_all add: run_with_api_end_def await_handle_def)

section \<open>Where the configuration is\<close>

text \<open>The proxy object that the program starts reads the configuration that was loaded.\<close>

lemma proxy_new_config:
  "proxy_new var num_cpus c H = Some (p, H') \<Longrightarrow> load_full H' (px_config p) = c \<and> px_config p < length (cells H')"
  by (auto simp: proxy_new_def Let_def arc_swap_new_def load_full_def dest!: semaphore_new_SomeD)

lemma tune_config:
  assumes "tune n pr = Some (p, H)" "pr = Some (p0, H0)" "px_config p0 < length (cells H0)"
  shows "px_config p = px_config p0 \<and> load_full H (px_config p) = load_full H0 (px_config p0)"
  using assms
  by (auto simp: tune_def set_max_concurrency_def load_full_def split: if_splits dest!: semaphore_new_SomeD)

lemma bring_up_of_proxy: "list_all (of_proxy p) (fst (bring_up T order addr p H))"
  using started_of_proxy(1) [of T p H] started_of_proxy(2) [of p T order H]
  by (auto simp: bring_up_def split: option.splits sum.splits)

text \<open>Creating the proxy panics only when a limit is above what a semaphore can hold.\<close>

lemma proxy_created:
  assumes "unat (initial_concurrency var num_cpus) \<le> max_permits" "unat n \<le> max_permits"
  obtains p H' p0 H0 where "tune n (proxy_new var num_cpus c H) = Some (p, H')" "proxy_new var num_cpus c H = Some (p0, H0)"
proof -
  have "proxy_new var num_cpus c H \<noteq> None" using assms(1) by (simp add: proxy_new_def semaphore_new_def Let_def split_beta)
  then obtain p0 H0 where p0: "proxy_new var num_cpus c H = Some (p0, H0)" by fastforce
  have "tune n (proxy_new var num_cpus c H) \<noteq> None"
    using assms(2) by (simp add: tune_def p0 set_max_concurrency_def semaphore_new_def)
  with p0 that show ?thesis by fastforce
qed

text \<open>
  The proxy of \<open>run_with_api\<close> keeps the cell it is given, and its listeners read it.
\<close>

lemma run_proxy_server_shares:
  assumes run: "run_proxy_server T order var num_cpus addr n shared H r = Some (H1, ls, res)"
    and cell: "shared < length (cells H)"
  shows "cells H1 = cells H \<and> (\<exists>p. px_config p = shared \<and> list_all (of_proxy p) ls)"
proof -
  obtain p where p: "tune n (proxy_from_shared var num_cpus shared H) = Some (p, H1)"
    and ls: "ls = fst (bring_up T order addr p H1)"
    using run by (auto simp: run_proxy_server_def case_prod_unfold Let_def)
  have "cells H1 = cells H \<and> px_config p = shared"
    using p by (auto simp: tune_def proxy_from_shared_def set_max_concurrency_def bind_eq_Some_conv Let_def
        split: if_splits dest!: semaphore_new_SomeD)
  with ls bring_up_of_proxy show ?thesis by blast
qed

end
