(* ===== verification/Spec2Isabelle.thy ===== *)
theory Spec2Isabelle
  imports Config_Print Runtime_Props Program
begin

text \<open>
  A verification library for tiny-proxy, an HTTP reverse proxy with virtual hosts, forward
  authentication, TLS termination and a management API (the Rust sources under \<open>src/src\<close>).

  \<^bold>\<open>The program.\<close> A configuration file is parsed into a map from site addresses to sites
  (\<open>config/parser.rs\<close>, \<open>config/models.rs\<close>). \<open>main.rs\<close> creates a \<open>Proxy\<close>, which starts one listener
  per socket of the configuration (\<open>proxy/proxy.rs\<close>, \<open>config/address.rs\<close>), TLS sockets with a
  certificate resolver and a redirect listener (\<open>proxy/tls.rs\<close>). Each accepted connection takes a
  permit of a semaphore; each of its requests loads a snapshot of the configuration and is handled
  by \<open>proxy()\<close> (\<open>proxy/handler.rs\<close>): the site is looked up by the Host header, its directives run in
  order (\<open>proxy/directives.rs\<close>, \<open>proxy/forward_auth.rs\<close>, header templates in \<open>auth/headers.rs\<close>), the
  terminal directive is executed, and guards write metrics and one access-log line
  (\<open>metrics/recorder.rs\<close>, \<open>proxy/access_log.rs\<close>). The management API (\<open>api\<close>) reads and replaces the
  shared configuration while the server runs.

  \<^bold>\<open>The theories.\<close>
  \<^item> \<open>Prelude\<close>: results as sums, outcome rules in the style of Hoare rules, list lemmas.
  \<^item> \<open>Rust_Str\<close>, \<open>Rust_Net\<close>: what the sources use of \<open>str\<close>, integer parsing and \<open>std::net\<close>, over bytes.
  \<^item> \<open>Http_Lib\<close>: \<open>http\<close>/\<open>hyper\<close>, \<open>uuid\<close>, the HTTP client and the environment as a record of operations
    that every definition takes as its argument \<open>L\<close>; their documented behaviour as the locales
    \<open>header_laws\<close>, \<open>uri_laws\<close> and \<open>http_laws\<close>; a concrete instance \<open>ref_lib\<close> on which the laws are proved
    (interpretation \<open>ref_http\<close>) and concrete runs are evaluated.
  \<^item> \<open>Config_Models\<close> (\<open>error.rs\<close>, \<open>config/models.rs\<close>), \<open>Config_Address\<close> (\<open>config/address.rs\<close>).
  \<^item> \<open>Config_Parser\<close> (\<open>config/parser.rs\<close>): the line loop as a state machine with its two stacks, every
    error message, and a failed \<open>expect\<close> as the value \<open>Panic\<close>. \<open>Config_Parser_Props\<close>: the locale
    \<open>line_machine\<close> of loops that keep an invariant, its interpretation on the parser, absence of
    panics, validity of accepted configurations, socket validation as a pairwise condition.
    \<open>Config_Print\<close>: a printer and the round trip.
  \<^item> \<open>Effects\<close> (\<open>metrics/recorder.rs\<close>): the world, the requests sent, metrics and log lines as state.
    \<open>Auth_Headers\<close> (\<open>auth/headers.rs\<close>, \<open>auth/validator.rs\<close>): template expansion as partial functions,
    since the placeholder loops need not end. \<open>Access_Log\<close>, \<open>Directives\<close>, \<open>Forward_Auth\<close>: one theory
    per source file of the same name.
  \<^item> \<open>Handler\<close> (\<open>proxy/handler.rs\<close>): the directive pipeline, site lookup, and \<open>proxy\<close>. \<open>Routing\<close>: a pure
    routing function as the abstract specification of the pipeline, the refinement, and the
    authorization gate, with the answers of the services that decide it (\<open>answered\<close>, \<open>stops\<close>).
    \<open>Site_Lookup\<close>: which site answers. \<open>Request_Flow\<close>: what a whole request sends, answers, logs and
    counts; \<open>backend_call\<close> specifies the request that a backend receives, its destination included. \<open>Request_Cancel\<close>: what is left of a request whose future is dropped
    while it waits, as a second execution of the same code that stops at a given wait, and its
    relation to the execution that completes.
  \<^item> \<open>Tls\<close> (\<open>proxy/tls.rs\<close>): certificate loading and resolution, the redirect service. \<open>Proxy_Server\<close>
    (\<open>proxy/proxy.rs\<close>): the \<open>Proxy\<close> object over a heap of configuration cells and semaphores, grouping
    of sites and starting of listeners, which are tasks that bind their sockets later, in any order
    (\<open>bind_all\<close>); the answers of the operating system are a parameter. The locales \<open>cell_store\<close> and \<open>permit_pool\<close> state what the
    other theories rely on of cells and permits; both are interpreted on the heap.
  \<^item> \<open>Api_Json\<close> (the \<open>serde\<close> attributes of \<open>config/models.rs\<close>), \<open>Api\<close> (\<open>api\<close>): the JSON form of a
    configuration, the endpoints and their routing.
  \<^item> \<open>Runtime\<close>: the accept loops, connections, requests in flight, reloads and API calls as the step
    relation \<open>server_step\<close>, with cancelled requests, refused binds and failing listeners. \<open>Runtime_Props\<close>:
    the locale \<open>step_invariant\<close>, its interpretations on the server, and the properties of all runs.
  \<^item> \<open>Program\<close> (\<open>main.rs\<close>, \<open>cli/args.rs\<close>): the arguments, loading, bringing up and shutting down,
    with and without the API.
  \<^item> This theory: properties that span parser, program, listeners and API.

  \<^bold>\<open>Conventions.\<close> A \<open>Result\<close> is a sum with \<open>Inl\<close> for \<open>Err\<close>; a string is its bytes; fixed-width
  integers are words and wrap around as in a release build; a \<open>HashMap\<close> is an association list in an
  unspecified order, and the properties that could depend on the order say that they do not. State
  is passed explicitly. Header templates are the only code whose termination is not certain: the
  definitions that use them return \<open>None\<close> when they do not return, \<open>proxy_returns\<close> gives the
  condition under which they do, and \<open>process_header_substitution_diverges\<close> shows that the condition
  is needed. No definition uses fuel. The features \<open>api\<close>, \<open>tls\<close>, \<open>metrics\<close> and \<open>logging\<close> are on.

  \<^bold>\<open>What is shown.\<close> A backend receives a request only after every authorization service of the
  route passed, identity headers come from the authorization service alone, and every request is
  logged and counted once; for single requests (\<open>Routing\<close>, \<open>Request_Flow\<close>) and over every
  interleaving of a running server with reloads (\<open>Runtime_Props\<close>). Connections stay within the limit
  and permits are never lost. The parser never panics, accepts only configurations that request
  handling and listeners can rely on, and reads back what is printed; so does the JSON form. Starting
  spawns one listener for each socket of the configuration, never a plain one where TLS is configured,
  with the right certificate for each name, and the redirects; which sites are answered depends on the
  binds, and the properties say how. Errors, boundary values and wrap-around of addresses, ports
  and durations are covered by the component theories.

  \<^bold>\<open>Not modelled.\<close> Durations and clocks; tracing output; sockets, tasks and scheduling below the
  level of the events of \<open>Runtime\<close> (the effects of one request, up to its end or its cancellation, are
  one step); the TLS handshake and PEM decoding; HTTP framing and
  the connection pool; the text layer of JSON; argument parsing, signal handlers and the Prometheus
  exporter (\<open>metrics/server.rs\<close>). Library code is a parameter throughout; what is relied upon is
  stated by the laws of \<open>Http_Lib\<close>, or as a hypothesis of the property.
\<close>

section \<open>From the configuration file to the listeners\<close>

text \<open>
  C6. From the command line to serving. When the program loads a configuration file and is
  started without an explicit address, the certificates named in the file load, and the two limits
  are within what a semaphore can hold, then creating the proxy does not panic on them (the system's
  root certificates, which it also loads, are not modelled) and starting does not fail: it
  spawns exactly one serving listener for each socket of the sites of the file, TLS sites with their
  own certificate, and one redirect for each TLS socket, all of them with the configuration of the file.
  Once the listeners have bound their sockets, in any order, a site goes unanswered only if the
  operating system refused its socket; when it refuses nothing but addresses in use, this concerns
  only sites whose socket is also the address of a redirect. What the parser accepts is
  what the listeners need.
\<close>

theorem accepted_file_is_served:
  assumes laws: "http_laws L"
    and load: "main_prepare L read_to_string start_metrics cli = Inr c" and addr: "cli_addr cli = None"
    and certs: "certificates_load T (sites_values c)" and order: "\<And>g. mset (order g) = mset g"
    and limits: "unat (initial_concurrency var num_cpus) \<le> max_permits" "unat (cli_max_concurrency cli) \<le> max_permits"
  shows "\<exists>H' ls res p. run_proxy_only T order var num_cpus cli c H r = Some (H', ls, res)
     \<and> valid_config L c \<and> load_full H' (px_config p) = c \<and> (\<forall>e. res \<noteq> Inl (StartFailed e))
     \<and> list_all (serves_site T p ls) (sites_values c)
     \<and> distinct (serving_sockets ls) \<and> Inr ` set (serving_sockets ls) = site_socket ` set (sites_values c)
     \<and> distinct (redirects ls)
     \<and> set (redirects ls) = {(socket_addr_new (sa_ip a) (tls_redirect_port (sa_port a)), sa_port a) | a s.
          s \<in> set (sites_values c) \<and> site_socket s = Inr a \<and> tls s \<noteq> None}
     \<and> (\<forall>os sched. (\<forall>b a. os b a \<longrightarrow> a \<notin> set b) \<longrightarrow> mset sched = mset ls \<longrightarrow>
          comes_up T os p (sites_values c) ls (bind_all os [] sched))"
proof -
  obtain content where "from_str L content = Inr c"
    using load by (auto simp: main_prepare_def from_file_def res_bind_Inr_iff)
  note ok = from_str_sound [OF laws this]
  obtain p H1 p0 H0 where p: "tune (cli_max_concurrency cli) (proxy_new var num_cpus c H) = Some (p, H1)"
    and p0: "proxy_new var num_cpus c H = Some (p0, H0)"
    by (rule proxy_created [OF limits])
  obtain ls started where up: "start_all T order p H1 = (ls, started)" by fastforce
  have run: "run_proxy_only T order var num_cpus cli c H r = Some (H1, ls, select_server started r)"
    using p addr up by (simp add: run_proxy_only_def bring_up_def)
  have c: "load_full H1 (px_config p) = c" using tune_config [OF p p0] proxy_new_config [OF p0] by metis
  then have sites: "sites_values c = sites_values (load_full H1 (px_config p))" by simp
  have sp: "started = Inr ()" "spawned_for T p (sites_values c) ls"
    using start_all_spawns [OF order sites _ certs up] ok by simp_all
  have "select_server started r \<noteq> Inl (StartFailed e)" for e
    using sp(1) by (cases r) (auto simp: select_server_def map_err_def split: sum.splits)
  moreover have "comes_up T os p (sites_values c) ls (bind_all os [] sched)"
    if "\<forall>b a. os b a \<longrightarrow> a \<notin> set b" "mset sched = mset ls" for os sched
    by (rule spawned_come_up [OF sp(2) _ that(2)]) (use that(1) in blast)
  ultimately show ?thesis
    using run c ok sp(2) unfolding spawned_for_def
    by (intro exI [of _ H1] exI [of _ ls] exI [of _ "select_server started r"] exI [of _ p]) blast
qed

text \<open>A file with one TLS site, loaded and served.\<close>

definition sample_cli :: cli where
  "sample_cli = \<lparr>cli_config = ''file.conf'', cli_addr = None, cli_max_concurrency = 2, cli_enable_api = False,
     cli_api_addr = ''127.0.0.1:8081'', cli_metrics_addr = None\<rparr>"

theorem accepted_file_is_served_witness:
  "\<exists>H ls res p. run_proxy_only ref_tls id None 4 sample_cli sample_file \<lparr>cells = [], sems = []\<rparr> ShutdownFirst = Some (H, ls, res)
     \<and> list_all (serves_site ref_tls p ls) (sites_values sample_file)
     \<and> comes_up ref_tls free_os p (sites_values sample_file) ls (bind_all free_os [] (rev ls))"
proof -
  let ?read = "\<lambda>path. Inr (print_config show_ref_uri sample_file) :: string + string"
  have "from_str ref_lib (print_config show_ref_uri sample_file) = Inr sample_file"
    by (rule from_str_print [OF sample_file_printable])
  then have load: "main_prepare ref_lib ?read (\<lambda>_. Inr ()) sample_cli = Inr sample_file"
    by (simp add: main_prepare_def sample_cli_def from_file_def)
  have certs: "certificates_load ref_tls (sites_values sample_file)" by code_simp
  have limits: "unat (initial_concurrency None 4) \<le> max_permits" "unat (cli_max_concurrency sample_cli) \<le> max_permits"
    by (simp_all add: initial_concurrency_def max_permits_def sample_cli_def)
  have "cli_addr sample_cli = None" by (simp add: sample_cli_def)
  from accepted_file_is_served [OF ref_http.http_laws_axioms load this certs _ limits, of id "\<lparr>cells = [], sems = []\<rparr>" ShutdownFirst]
  obtain H ls res p where r: "run_proxy_only ref_tls id None 4 sample_cli sample_file \<lparr>cells = [], sems = []\<rparr> ShutdownFirst = Some (H, ls, res)"
    "list_all (serves_site ref_tls p ls) (sites_values sample_file)"
    "\<forall>os sched. (\<forall>b a. os b a \<longrightarrow> a \<notin> set b) \<longrightarrow> mset sched = mset ls \<longrightarrow>
       comes_up ref_tls os p (sites_values sample_file) ls (bind_all os [] sched)"
    by auto
  from r(3) [rule_format, of free_os "rev ls"] r(1,2) show ?thesis by (auto simp: free_os_def)
qed

section \<open>One configuration for the proxy and the API\<close>

text \<open>
  C12. With the management API on, the proxy and the API share one configuration: every listener of
  the program that serves requests first reads the configuration of the file, and after any
  accepted POST to the API of the program it reads the one that was posted, whatever address and
  limit the command line gives and whatever became of the tasks.
\<close>

theorem api_configures_every_listener:
  assumes run: "main L read_to_string start_metrics T order var num_cpus cli r repoll first api_wait proxy_wait = run"
    and api: "pr_api run = Some (a, cell)"
  shows "\<exists>c. main_prepare L read_to_string start_metrics cli = Inr c \<and>
     (\<forall>l \<in> set (pr_listeners run). \<forall>k. listener_cell l = Some k \<longrightarrow>
        load_full (pr_heap run) k = c \<and>
        (\<forall>J req c'. posted_config L J req = Some c' \<longrightarrow>
           load_full (snd (handle_api_request L J req cell (pr_heap run))) k = c'))"
proof -
  obtain c where c: "main_prepare L read_to_string start_metrics cli = Inr c" and e: "cli_enable_api cli"
    using run api by (auto simp: main_def Let_def split: sum.splits if_splits option.splits)
  let ?H = "\<lparr>cells = [c], sems = []\<rparr>"
  let ?task = "run_proxy_server T order var num_cpus (cli_addr cli) (cli_max_concurrency cli) 0 ?H
      (case first of ProxyFirst served \<Rightarrow> ServerFirst served | _ \<Rightarrow> ShutdownFirst)"
  have "arc_swap_new c \<lparr>cells = [], sems = []\<rparr> = (0, ?H)" by (simp add: arc_swap_new_def)
  with run api c e have pr: "pr_listeners run = (case ?task of None \<Rightarrow> [] | Some (_, ls, _) \<Rightarrow> ls)"
    "pr_heap run = (case ?task of None \<Rightarrow> ?H | Some (H, _, _) \<Rightarrow> H)"
    and start: "(case start_api_server (cli_api_addr cli) 0 of Inl _ \<Rightarrow> None | Inr api \<Rightarrow> Some api) = Some (a, cell)"
    by (cases ?task; auto simp: main_def run_with_api_def Let_def split_beta)+
  then have cell: "cell = 0" by (simp add: start_api_server_def split: option.splits)
  have shares: "cells (pr_heap run) = [c] \<and> (\<exists>p. px_config p = 0 \<and> list_all (of_proxy p) (pr_listeners run))"
  proof (cases ?task)
    case (Some t)
    obtain H1 ls res where t: "t = (H1, ls, res)" by (metis prod_cases3)
    from run_proxy_server_shares [OF Some [unfolded t]] show ?thesis by (simp add: pr Some t)
  next
    case None
    then show ?thesis by (auto simp: pr intro: exI [of _ "\<lparr>px_config = 0, px_max_concurrency = 0, px_semaphore = 0\<rparr>"])
  qed
  then have k: "k = 0" if "l \<in> set (pr_listeners run)" "listener_cell l = Some k" for l k
    using that of_proxy_cell by (fastforce simp: list_all_iff)
  have "load_full (snd (handle_api_request L J req 0 (pr_heap run))) 0 = c'" if "posted_config L J req = Some c'" for J req c'
    using that shares api_request_effect [of L J req 0 "pr_heap run"] by (simp add: cell.read_put)
  moreover have "load_full (pr_heap run) 0 = c" using shares by (simp add: load_full_def)
  ultimately show ?thesis using c k unfolding cell by blast
qed

theorem api_configures_every_listener_witness:
  "\<exists>run. main ref_lib (\<lambda>_. Inr (print_config show_ref_uri sample_file)) (\<lambda>_. Inr ()) ref_tls id None 4
       (sample_cli\<lparr>cli_enable_api := True\<rparr>) ShutdownFirst None SignalFirst (Done TaskOk) (Done TaskOk) = run
     \<and> pr_listeners run \<noteq> []
     \<and> (\<forall>l \<in> set (pr_listeners run). \<forall>k. listener_cell l = Some k \<longrightarrow>
          load_full (snd (handle_api_request ref_lib ref_json (api_call ''POST'' ''/config'' ''doc'') 0 (pr_heap run))) k
            = sample_posted_config)"
proof -
  let ?cli = "sample_cli\<lparr>cli_enable_api := True\<rparr>"
  let ?run = "main ref_lib (\<lambda>_. Inr (print_config show_ref_uri sample_file)) (\<lambda>_. Inr ()) ref_tls id None 4
       ?cli ShutdownFirst None SignalFirst (Done TaskOk) (Done TaskOk)"
  have parsed: "from_str ref_lib (print_config show_ref_uri sample_file) = Inr sample_file"
    by (rule from_str_print [OF sample_file_printable])
  then have "main_prepare ref_lib (\<lambda>_. Inr (print_config show_ref_uri sample_file)) (\<lambda>_. Inr ()) ?cli = Inr sample_file"
    by (simp add: main_prepare_def sample_cli_def from_file_def)
  then have run: "?run = run_with_api ref_tls id None 4 ?cli sample_file \<lparr>cells = [], sems = []\<rparr> None SignalFirst (Done TaskOk) (Done TaskOk)"
    by (simp add: main_def)
  have "parse_socket_addr ''127.0.0.1:8081'' = Some (socket_addr_new (V4 127 0 0 1) 8081)" by (simp add: address_eval)
  then have api: "pr_api ?run = Some (socket_addr_new (V4 127 0 0 1) 8081, 0)"
    unfolding run by (simp add: run_with_api_def start_api_server_def arc_swap_new_def sample_cli_def Let_def split: option.split)
  let ?p = "\<lparr>px_config = 0, px_max_concurrency = 2, px_semaphore = 1\<rparr>"
  have tuned: "\<exists>H. tune 2 (proxy_from_shared None 4 0 \<lparr>cells = [sample_file], sems = []\<rparr>) = Some (?p, H) \<and> cells H = [sample_file]"
    by (simp add: tune_def proxy_from_shared_def semaphore_new_def set_max_concurrency_def
        initial_concurrency_def max_permits_def)
  have certs: "certificates_load ref_tls (sites_values sample_file)" by code_simp
  have "fst (start_all ref_tls id ?p H) \<noteq> []" if "cells H = [sample_file]" for H
  proof -
    have "sites_values sample_file = sites_values (load_full H (px_config ?p))" using that by (simp add: load_full_def)
    from start_all_spawns [OF _ this _ certs prod.collapse [symmetric]] from_str_sound [OF ref_http.http_laws_axioms parsed]
    have "Inr ` set (serving_sockets (fst (start_all ref_tls id ?p H))) = site_socket ` set (sites_values sample_file)"
      by (simp add: spawned_for_def)
    then show ?thesis by (auto simp: sample_file_def sites_values_def serving_sockets_def)
  qed
  with tuned have ne: "pr_listeners ?run \<noteq> []" unfolding run
    by (auto simp: run_with_api_def arc_swap_new_def sample_cli_def run_proxy_server_def bring_up_def Let_def case_prod_unfold)
  from api_configures_every_listener [OF refl api] ne sample_posted_call show ?thesis by blast
qed

end
